(* ===== verification/Prelude.thy ===== *)
theory Prelude
  imports Main "HOL-Library.List_Lexorder" "HOL-Library.Char_ord" "HOL-Library.Word"
begin

text \<open>
  The vocabulary the component theories share.

  \<^item> \<open>result\<close> is Rust's \<open>Result\<close>, with the combinators the sources use (\<open>?\<close> is \<open>and_then\<close>,
    \<open>map_err\<close>, \<open>ok_or\<close>, \<open>collect\<close>), and \<open>io\<close> is a fallible operation on a state.
  \<^item> Strings and byte strings are both \<open>string\<close>: a \<open>char\<close> is one byte, a \<open>str\<close> its UTF-8
    encoding, so \<open>length\<close> is Rust's \<open>len()\<close>. The operations of \<open>str\<close> the sources call
    (\<open>strip_prefix\<close>, \<open>contains\<close>, \<open>split\<close>, \<open>trim\<close>, \<open>to_ascii_lowercase\<close>, decimal printing) are
    defined here.
  \<^item> A \<open>HashMap\<close> is a \<open>table\<close>, an association list with distinct keys, behind the interface
    \<open>hash_map\<close>.
  \<^item> \<open>i64\<close> values are \<open>int\<close> with the wrap-around of release builds written out; instants and
    durations are nanoseconds.
\<close>

section \<open>Results\<close>

named_theorems result_simps \<open>unfolding and splitting facts for the result combinators\<close>

datatype ('a, 'e) result = Ok 'a | Err 'e

primrec and_then :: "('a, 'e) result \<Rightarrow> ('a \<Rightarrow> ('b, 'e) result) \<Rightarrow> ('b, 'e) result" where
  "and_then (Ok x) f = f x"
| "and_then (Err e) f = Err e"

primrec map_err :: "('e \<Rightarrow> 'f) \<Rightarrow> ('a, 'e) result \<Rightarrow> ('a, 'f) result" where
  "map_err f (Ok x) = Ok x"
| "map_err f (Err e) = Err (f e)"

primrec result_ok :: "('a, 'e) result \<Rightarrow> 'a option" where
  "result_ok (Ok x) = Some x"
| "result_ok (Err e) = None"

primrec is_ok :: "('a, 'e) result \<Rightarrow> bool" where
  "is_ok (Ok x) = True"
| "is_ok (Err e) = False"

primrec ok_or :: "'e \<Rightarrow> 'a option \<Rightarrow> ('a, 'e) result" where
  "ok_or e None = Err e"
| "ok_or e (Some x) = Ok x"

definition ensure :: "bool \<Rightarrow> 'e \<Rightarrow> (unit, 'e) result" where
  "ensure b e = (if b then Ok () else Err e)"

text \<open>Run \<open>f\<close> on each element and stop at the first error (an iterator collected into a
  \<open>Result\<close>).\<close>

fun map_result :: "('a \<Rightarrow> ('b, 'e) result) \<Rightarrow> 'a list \<Rightarrow> ('b list, 'e) result" where
  "map_result f [] = Ok []"
| "map_result f (x # xs) = and_then (f x) (\<lambda>y. and_then (map_result f xs) (\<lambda>ys. Ok (y # ys)))"

lemma and_then_eq_Ok [result_simps]:
  "and_then r f = Ok y \<longleftrightarrow> (\<exists>x. r = Ok x \<and> f x = Ok y)"
  by (cases r) auto

lemma and_then_eq_Err [result_simps]:
  "and_then r f = Err e \<longleftrightarrow> r = Err e \<or> (\<exists>x. r = Ok x \<and> f x = Err e)"
  by (cases r) auto

lemma map_err_eq_Ok [result_simps]: "map_err f r = Ok x \<longleftrightarrow> r = Ok x"
  by (cases r) auto

lemma map_err_eq_Err [result_simps]: "map_err f r = Err y \<longleftrightarrow> (\<exists>e. r = Err e \<and> y = f e)"
  by (cases r) auto

lemma result_ok_eq_Some [result_simps]: "result_ok r = Some x \<longleftrightarrow> r = Ok x"
  by (cases r) auto

lemma is_ok_iff [result_simps]: "is_ok r \<longleftrightarrow> (\<exists>x. r = Ok x)"
  by (cases r) auto

lemma ok_or_eq_Ok [result_simps]: "ok_or e v = Ok x \<longleftrightarrow> v = Some x"
  by (cases v) auto

lemma ok_or_eq_Err [result_simps]: "ok_or e v = Err x \<longleftrightarrow> v = None \<and> x = e"
  by (cases v) auto

lemma ensure_eq_Ok [result_simps]: "ensure b e = Ok u \<longleftrightarrow> b"
  by (simp add: ensure_def)

lemma ensure_eq_Err [result_simps]: "ensure b e = Err x \<longleftrightarrow> \<not> b \<and> x = e"
  by (auto simp: ensure_def)

lemma ensure_simps [simp]: "ensure True e = Ok ()" "ensure False e = Err e"
  by (simp_all add: ensure_def)

lemma map_result_eq_Ok:
  "map_result f xs = Ok ys \<longleftrightarrow> list_all2 (\<lambda>x y. f x = Ok y) xs ys"
proof (induction xs arbitrary: ys)
  case (Cons x xs)
  then show ?case by (cases ys) (auto simp: result_simps)
qed auto

lemma map_result_length: "map_result f xs = Ok ys \<Longrightarrow> length ys = length xs"
  by (simp add: map_result_eq_Ok list_all2_lengthD)

lemma map_result_in_set:
  "map_result f xs = Ok ys \<Longrightarrow> y \<in> set ys \<Longrightarrow> \<exists>x\<in>set xs. f x = Ok y"
  by (metis (mono_tags, lifting) in_set_conv_nth list_all2_conv_all_nth map_result_eq_Ok)

text \<open>A loop over a list with mutable locals: the state is threaded and the first error ends it.\<close>

fun fold_result :: "('x \<Rightarrow> 's \<Rightarrow> ('s, 'e) result) \<Rightarrow> 'x list \<Rightarrow> 's \<Rightarrow> ('s, 'e) result" where
  "fold_result f [] s = Ok s"
| "fold_result f (x # xs) s = and_then (f x s) (fold_result f xs)"

lemma fold_result_append:
  "fold_result f (xs @ ys) s = and_then (fold_result f xs s) (fold_result f ys)"
proof (induction xs arbitrary: s)
  case (Cons x xs)
  then show ?case by (cases "f x s") auto
qed simp

text \<open>Loop rule: an invariant indexed by the elements already processed.\<close>

lemma fold_result_invariant:
  assumes "fold_result f xs s = Ok t" and "I [] s"
    and "\<And>pre x u v. I pre u \<Longrightarrow> x \<in> set xs \<Longrightarrow> f x u = Ok v \<Longrightarrow> I (pre @ [x]) v"
  shows "I xs t"
proof -
  have "fold_result f ys u = Ok t \<Longrightarrow> I pre u \<Longrightarrow> set ys \<subseteq> set xs \<Longrightarrow> I (pre @ ys) t" for ys pre u
  proof (induction ys arbitrary: pre u)
    case (Cons y ys)
    from Cons.prems obtain v where v: "f y u = Ok v" "fold_result f ys v = Ok t"
      by (auto simp: result_simps)
    with Cons.prems assms(3) have "I (pre @ [y]) v" by auto
    with Cons.IH[OF v(2), of "pre @ [y]"] Cons.prems show ?case by simp
  qed simp
  from this[OF assms(1), of "[]"] assms(2) show ?thesis by simp
qed


section \<open>Fallible operations on a state\<close>

type_synonym ('s, 'a, 'e) io = "'s \<Rightarrow> ('a, 'e) result \<times> 's"

definition io_bind :: "('s, 'a, 'e) io \<Rightarrow> ('a \<Rightarrow> ('s, 'b, 'e) io) \<Rightarrow> ('s, 'b, 'e) io" where
  "io_bind m f = (\<lambda>s. case m s of (Ok x, t) \<Rightarrow> f x t | (Err e, t) \<Rightarrow> (Err e, t))"

definition io_lift :: "('a, 'e) result \<Rightarrow> ('s, 'a, 'e) io" where
  "io_lift r = (\<lambda>s. (r, s))"

definition io_map_err :: "('e \<Rightarrow> 'f) \<Rightarrow> ('s, 'a, 'e) io \<Rightarrow> ('s, 'a, 'f) io" where
  "io_map_err f m = (\<lambda>s. case m s of (r, t) \<Rightarrow> (map_err f r, t))"

abbreviation io_return :: "'a \<Rightarrow> ('s, 'a, 'e) io" where
  "io_return x \<equiv> io_lift (Ok x)"

abbreviation io_fail :: "'e \<Rightarrow> ('s, 'a, 'e) io" where
  "io_fail e \<equiv> io_lift (Err e)"

definition io_modify :: "('s \<Rightarrow> 's) \<Rightarrow> ('s, unit, 'e) io" where
  "io_modify f = (\<lambda>s. (Ok (), f s))"

definition io_read :: "('s \<Rightarrow> 'a) \<Rightarrow> ('s, 'a, 'e) io" where
  "io_read f = (\<lambda>s. (Ok (f s), s))"

lemmas io_defs = io_bind_def io_lift_def io_map_err_def io_modify_def io_read_def

text \<open>An operation keeps a property of the state, whether it succeeds or fails.\<close>

definition keeps :: "('s \<Rightarrow> bool) \<Rightarrow> ('s, 'a, 'e) io \<Rightarrow> bool" where
  "keeps P m \<longleftrightarrow> (\<forall>s. P s \<longrightarrow> P (snd (m s)))"

named_theorems keeps_intros \<open>rules for properties every outcome of an operation keeps\<close>

lemma keepsI: "(\<And>s. P s \<Longrightarrow> P (snd (m s))) \<Longrightarrow> keeps P m"
  by (simp add: keeps_def)

lemma keepsD: "keeps P m \<Longrightarrow> P s \<Longrightarrow> P (snd (m s))"
  by (simp add: keeps_def)

lemma keepsD': "keeps P m \<Longrightarrow> P s \<Longrightarrow> m s = (r, t) \<Longrightarrow> P t"
  by (metis keepsD snd_conv)

lemma keeps_lift [keeps_intros]: "keeps P (io_lift r)"
  by (simp add: keeps_def io_defs)

lemma keeps_read [keeps_intros]: "keeps P (io_read f)"
  by (simp add: keeps_def io_defs)

lemma keeps_bind [keeps_intros]:
  assumes "keeps P m" and "\<And>x. keeps P (f x)"
  shows "keeps P (io_bind m f)"
  using assms by (fastforce simp: keeps_def io_bind_def split: prod.splits result.splits)

lemma keeps_map_err [keeps_intros]: "keeps P m \<Longrightarrow> keeps P (io_map_err f m)"
  by (fastforce simp: keeps_def io_defs split: prod.splits)

lemma keeps_modify [keeps_intros]: "(\<And>s. P s \<Longrightarrow> P (f s)) \<Longrightarrow> keeps P (io_modify f)"
  by (simp add: keeps_def io_defs)

lemma keeps_if [keeps_intros]: "keeps P m \<Longrightarrow> keeps P n \<Longrightarrow> keeps P (if b then m else n)"
  by simp

lemma io_bind_Ok_iff:
  "io_bind m f s = (Ok y, u) \<longleftrightarrow> (\<exists>x t. m s = (Ok x, t) \<and> f x t = (Ok y, u))"
  by (auto simp: io_bind_def split: prod.splits result.splits)

lemma io_map_err_Ok_iff: "io_map_err g m s = (Ok y, u) \<longleftrightarrow> m s = (Ok y, u)"
  by (auto simp: io_map_err_def result_simps split: prod.splits)

lemma io_lift_Ok_iff: "io_lift r s = (Ok y, u) \<longleftrightarrow> r = Ok y \<and> u = s"
  by (auto simp: io_lift_def)

lemma io_modify_Ok_iff: "io_modify f s = (Ok y, u) \<longleftrightarrow> u = f s"
  by (auto simp: io_modify_def)

lemma io_read_Ok_iff: "io_read f s = (Ok y, u) \<longleftrightarrow> y = f s \<and> u = s"
  by (auto simp: io_read_def)

lemma fst_io_bind_Ok_iff:
  "fst (io_bind m f s) = Ok y \<longleftrightarrow> (\<exists>x t. m s = (Ok x, t) \<and> fst (f x t) = Ok y)"
  by (auto simp: io_bind_def split: prod.splits result.splits)

lemmas io_Ok_iffs = io_bind_Ok_iff io_map_err_Ok_iff io_lift_Ok_iff io_modify_Ok_iff io_read_Ok_iff


section \<open>Strings and bytes\<close>

type_synonym bytes = string

named_theorems str_simps \<open>characterisations of the string operations\<close>

fun strip_prefix :: "string \<Rightarrow> string \<Rightarrow> string option" where
  "strip_prefix [] s = Some s"
| "strip_prefix (p # ps) [] = None"
| "strip_prefix (p # ps) (c # cs) = (if p = c then strip_prefix ps cs else None)"

lemma strip_prefix_eq_Some [str_simps]: "strip_prefix p s = Some r \<longleftrightarrow> s = p @ r"
  by (induction p s rule: strip_prefix.induct) auto

lemma strip_prefix_append [simp]: "strip_prefix p (p @ r) = Some r"
  by (simp add: strip_prefix_eq_Some)

definition starts_with :: "string \<Rightarrow> string \<Rightarrow> bool" where
  "starts_with p s \<longleftrightarrow> strip_prefix p s \<noteq> None"

lemma starts_with_iff [str_simps]: "starts_with p s \<longleftrightarrow> (\<exists>r. s = p @ r)"
  by (auto simp: starts_with_def strip_prefix_eq_Some)

definition strip_suffix :: "string \<Rightarrow> string \<Rightarrow> string option" where
  "strip_suffix p s = map_option rev (strip_prefix (rev p) (rev s))"

lemma strip_suffix_eq_Some [str_simps]: "strip_suffix p s = Some r \<longleftrightarrow> s = r @ p"
  by (auto simp: strip_suffix_def strip_prefix_eq_Some) (metis rev_append rev_swap)

fun str_contains :: "string \<Rightarrow> string \<Rightarrow> bool" where
  "str_contains n [] \<longleftrightarrow> n = []"
| "str_contains n (c # cs) \<longleftrightarrow> starts_with n (c # cs) \<or> str_contains n cs"

lemma str_contains_iff [str_simps]: "str_contains n s \<longleftrightarrow> (\<exists>a b. s = a @ n @ b)"
proof (induction s)
  case (Cons c cs)
  have "(\<exists>a b. c # cs = a @ n @ b) \<longleftrightarrow> (\<exists>b. c # cs = n @ b) \<or> (\<exists>a b. cs = a @ n @ b)"
    by (metis (no_types, lifting) Cons_eq_append_conv append_Cons append_Nil)
  with Cons show ?case by (simp add: starts_with_iff)
qed auto

text \<open>\<open>str::split\<close> on one byte: \<open>split_on c []\<close> is one empty piece.\<close>

fun split_on :: "char \<Rightarrow> string \<Rightarrow> string list" where
  "split_on d [] = [[]]"
| "split_on d (c # cs) =
     (if c = d then [] # split_on d cs
      else case split_on d cs of [] \<Rightarrow> [[c]] | p # ps \<Rightarrow> (c # p) # ps)"

lemma split_on_nonempty [simp]: "split_on d s \<noteq> []"
  by (cases s) (auto split: list.splits)

lemma split_on_pieces: "p \<in> set (split_on d s) \<Longrightarrow> d \<notin> set p"
proof (induction d s arbitrary: p rule: split_on.induct)
  case (2 d c cs)
  show ?case
  proof (cases "c = d")
    case False
    obtain q qs where q: "split_on d cs = q # qs" by (cases "split_on d cs") auto
    with False "2.prems" have "p = c # q \<or> p \<in> set qs" by simp
    with False "2.IH"(2)[of q] "2.IH"(2)[of p] q show ?thesis by auto
  qed (use 2 in auto)
qed simp

subsection \<open>ASCII classes\<close>

abbreviation byte_of :: "char \<Rightarrow> nat" where
  "byte_of c \<equiv> of_char c"

definition is_ascii_digit :: "char \<Rightarrow> bool" where
  "is_ascii_digit c \<longleftrightarrow> 48 \<le> byte_of c \<and> byte_of c \<le> 57"

definition is_ascii_lower :: "char \<Rightarrow> bool" where
  "is_ascii_lower c \<longleftrightarrow> 97 \<le> byte_of c \<and> byte_of c \<le> 122"

definition is_ascii_upper :: "char \<Rightarrow> bool" where
  "is_ascii_upper c \<longleftrightarrow> 65 \<le> byte_of c \<and> byte_of c \<le> 90"

definition is_ascii_alphanumeric :: "char \<Rightarrow> bool" where
  "is_ascii_alphanumeric c \<longleftrightarrow> is_ascii_digit c \<or> is_ascii_lower c \<or> is_ascii_upper c"

definition is_ascii_hexdigit :: "char \<Rightarrow> bool" where
  "is_ascii_hexdigit c \<longleftrightarrow>
     is_ascii_digit c \<or> (97 \<le> byte_of c \<and> byte_of c \<le> 102) \<or> (65 \<le> byte_of c \<and> byte_of c \<le> 70)"

definition is_lower_hexdigit :: "char \<Rightarrow> bool" where
  "is_lower_hexdigit c \<longleftrightarrow> is_ascii_digit c \<or> (97 \<le> byte_of c \<and> byte_of c \<le> 102)"

definition ascii_lower :: "char \<Rightarrow> char" where
  "ascii_lower c = (if is_ascii_upper c then char_of (byte_of c + 32) else c)"

definition to_ascii_lowercase :: "string \<Rightarrow> string" where
  "to_ascii_lowercase s = map ascii_lower s"

lemmas ascii_defs = is_ascii_digit_def is_ascii_lower_def is_ascii_upper_def
  is_ascii_alphanumeric_def is_ascii_hexdigit_def is_lower_hexdigit_def ascii_lower_def

lemma byte_of_ascii_lower:
  "byte_of (ascii_lower c) = (if is_ascii_upper c then byte_of c + 32 else byte_of c)"
  by (auto simp: ascii_lower_def is_ascii_upper_def of_char_of)

lemma ascii_lower_idem [simp]: "ascii_lower (ascii_lower c) = ascii_lower c"
proof -
  have "\<not> is_ascii_upper (ascii_lower c)"
    by (auto simp: is_ascii_upper_def byte_of_ascii_lower)
  then show ?thesis by (simp add: ascii_lower_def[of "ascii_lower c"])
qed

lemma to_ascii_lowercase_idem [simp]:
  "to_ascii_lowercase (to_ascii_lowercase s) = to_ascii_lowercase s"
  by (simp add: to_ascii_lowercase_def)

lemma length_to_ascii_lowercase [simp]: "length (to_ascii_lowercase s) = length s"
  by (simp add: to_ascii_lowercase_def)

lemma ascii_lower_hexdigit: "is_ascii_hexdigit c \<Longrightarrow> is_lower_hexdigit (ascii_lower c)"
  by (auto simp: is_ascii_hexdigit_def is_lower_hexdigit_def is_ascii_digit_def
      is_ascii_upper_def byte_of_ascii_lower)

lemma lower_hexdigit_ascii_lower: "is_lower_hexdigit c \<Longrightarrow> ascii_lower c = c"
  by (auto simp: ascii_lower_def is_lower_hexdigit_def is_ascii_digit_def is_ascii_upper_def)

definition eq_ignore_ascii_case :: "string \<Rightarrow> string \<Rightarrow> bool" where
  "eq_ignore_ascii_case a b \<longleftrightarrow> to_ascii_lowercase a = to_ascii_lowercase b"

end
