(* ===== verification/Text_Ops.thy ===== *)
theory Text_Ops
  imports Prelude
begin

text \<open>
  The rest of the standard library the sources rely on: \<open>str::trim\<close> over Unicode white space,
  \<open>chars().count()\<close>, decimal printing, \<open>i64\<close> arithmetic as release builds perform it, and
  \<open>Duration\<close> constants.
\<close>

section \<open>Trimming and counting\<close>

text \<open>The UTF-8 encodings of the code points with the Unicode property \<open>White_Space\<close>.\<close>

definition white_space :: "string list" where
  "white_space =
     [[CHR 0x09], [CHR 0x0A], [CHR 0x0B], [CHR 0x0C], [CHR 0x0D], [CHR 0x20],
      [CHR 0xC2, CHR 0x85], [CHR 0xC2, CHR 0xA0], [CHR 0xE1, CHR 0x9A, CHR 0x80],
      [CHR 0xE2, CHR 0x80, CHR 0x80], [CHR 0xE2, CHR 0x80, CHR 0x81],
      [CHR 0xE2, CHR 0x80, CHR 0x82], [CHR 0xE2, CHR 0x80, CHR 0x83],
      [CHR 0xE2, CHR 0x80, CHR 0x84], [CHR 0xE2, CHR 0x80, CHR 0x85],
      [CHR 0xE2, CHR 0x80, CHR 0x86], [CHR 0xE2, CHR 0x80, CHR 0x87],
      [CHR 0xE2, CHR 0x80, CHR 0x88], [CHR 0xE2, CHR 0x80, CHR 0x89],
      [CHR 0xE2, CHR 0x80, CHR 0x8A], [CHR 0xE2, CHR 0x80, CHR 0xA8],
      [CHR 0xE2, CHR 0x80, CHR 0xA9], [CHR 0xE2, CHR 0x80, CHR 0xAF],
      [CHR 0xE2, CHR 0x81, CHR 0x9F], [CHR 0xE3, CHR 0x80, CHR 0x80]]"

text \<open>Drop leading pieces as long as one of \<open>ws\<close> is a prefix.\<close>

function drop_leading :: "string list \<Rightarrow> string \<Rightarrow> string" where
  "drop_leading ws s =
     (case find (\<lambda>w. w \<noteq> [] \<and> starts_with w s) ws of
        None \<Rightarrow> s
      | Some w \<Rightarrow> drop_leading ws (drop (length w) s))"
  by pat_completeness auto
termination
  by (relation "measure (\<lambda>(ws, s). length s)") (auto simp: find_Some_iff starts_with_iff)

declare drop_leading.simps [simp del]

definition trim_start :: "string \<Rightarrow> string" where
  "trim_start s = drop_leading white_space s"

definition trim_end :: "string \<Rightarrow> string" where
  "trim_end s = rev (drop_leading (map rev white_space) (rev s))"

definition trim :: "string \<Rightarrow> string" where
  "trim s = trim_end (trim_start s)"

lemma drop_leading_fixed:
  "(\<And>w. w \<in> set ws \<Longrightarrow> w \<noteq> [] \<Longrightarrow> \<not> starts_with w s) \<Longrightarrow> drop_leading ws s = s"
  by (subst drop_leading.simps) (auto split: option.splits simp: find_Some_iff)

lemma drop_leading_stop:
  "w \<in> set ws \<Longrightarrow> w \<noteq> [] \<Longrightarrow> \<not> starts_with w (drop_leading ws s)"
proof (induction ws s rule: drop_leading.induct)
  case (1 ws s)
  show ?case
  proof (cases "find (\<lambda>w. w \<noteq> [] \<and> starts_with w s) ws")
    case None
    then have "drop_leading ws s = s" by (simp add: drop_leading.simps[of ws s])
    with None "1.prems" show ?thesis by (auto simp: find_None_iff)
  next
    case (Some v)
    with "1.IH" "1.prems" show ?thesis
      by (subst drop_leading.simps) simp
  qed
qed

text \<open>\<open>chars().count()\<close>: bytes that are not UTF-8 continuation bytes.\<close>

definition is_continuation :: "char \<Rightarrow> bool" where
  "is_continuation c \<longleftrightarrow> 128 \<le> byte_of c \<and> byte_of c < 192"

definition chars_count :: "string \<Rightarrow> nat" where
  "chars_count s = length (filter (\<lambda>c. \<not> is_continuation c) s)"

lemma chars_count_le: "chars_count s \<le> length s"
  by (simp add: chars_count_def)


section \<open>Decimal printing\<close>

definition digit_char :: "nat \<Rightarrow> char" where
  "digit_char d = char_of (48 + d)"

fun show_nat :: "nat \<Rightarrow> string" where
  "show_nat n = (if n < 10 then [digit_char n] else show_nat (n div 10) @ [digit_char (n mod 10)])"

declare show_nat.simps [simp del]

definition show_int :: "int \<Rightarrow> string" where
  "show_int i = (if i < 0 then CHR ''-'' # show_nat (nat (- i)) else show_nat (nat i))"

fun read_nat_from :: "nat \<Rightarrow> string \<Rightarrow> nat" where
  "read_nat_from acc [] = acc"
| "read_nat_from acc (c # cs) = read_nat_from (10 * acc + (byte_of c - 48)) cs"

lemma byte_of_digit_char: "d < 10 \<Longrightarrow> byte_of (digit_char d) = 48 + d"
  by (simp add: digit_char_def)

lemma is_ascii_digit_digit_char [simp]: "d < 10 \<Longrightarrow> is_ascii_digit (digit_char d)"
  by (simp add: is_ascii_digit_def byte_of_digit_char)

lemma read_nat_from_snoc:
  "read_nat_from acc (s @ [c]) = 10 * read_nat_from acc s + (byte_of c - 48)"
  by (induction s arbitrary: acc) auto

lemma read_show_nat: "read_nat_from 0 (show_nat n) = n"
proof (induction n rule: show_nat.induct)
  case (1 n)
  then show ?case
    by (subst show_nat.simps) (auto simp: read_nat_from_snoc byte_of_digit_char)
qed

lemma show_nat_inject [simp]: "show_nat m = show_nat n \<longleftrightarrow> m = n"
  by (metis read_show_nat)

lemma show_nat_digits: "c \<in> set (show_nat n) \<Longrightarrow> is_ascii_digit c"
proof (induction n rule: show_nat.induct)
  case (1 n)
  from "1.prems" show ?case
    by (subst (asm) show_nat.simps) (auto split: if_splits dest: "1.IH")
qed

lemma show_nat_nonempty [simp]: "show_nat n \<noteq> []"
  by (subst show_nat.simps) simp

lemma show_nat_no_minus: "hd (show_nat n) \<noteq> CHR ''-''"
  using show_nat_digits[of "hd (show_nat n)" n] by (auto simp: is_ascii_digit_def)

lemma show_int_inject [simp]: "show_int i = show_int j \<longleftrightarrow> i = j"
  using show_nat_no_minus[of "nat i"] show_nat_no_minus[of "nat j"]
  by (auto simp: show_int_def split: if_splits) (metis list.sel(1))+


section \<open>Machine integers and time\<close>

text \<open>\<open>i64\<close> arithmetic wraps in release builds; \<open>i64::abs\<close> of \<open>i64::MIN\<close> is \<open>i64::MIN\<close>.\<close>

definition wrap_i64 :: "int \<Rightarrow> int" where
  "wrap_i64 x = (x + 2 ^ 63) mod 2 ^ 64 - 2 ^ 63"

definition in_i64 :: "int \<Rightarrow> bool" where
  "in_i64 x \<longleftrightarrow> - (2 ^ 63) \<le> x \<and> x < 2 ^ 63"

definition sub_i64 :: "int \<Rightarrow> int \<Rightarrow> int" where
  "sub_i64 a b = wrap_i64 (a - b)"

definition add_i64 :: "int \<Rightarrow> int \<Rightarrow> int" where
  "add_i64 a b = wrap_i64 (a + b)"

definition abs_i64 :: "int \<Rightarrow> int" where
  "abs_i64 a = wrap_i64 \<bar>a\<bar>"

lemma wrap_i64_id: "in_i64 x \<Longrightarrow> wrap_i64 x = x"
  by (simp add: wrap_i64_def in_i64_def)

text \<open>A Unix time far from the ends of \<open>i64\<close>, as every clock reading is for the next billion years.\<close>

definition clock_ok :: "int \<Rightarrow> bool" where
  "clock_ok now \<longleftrightarrow> 0 \<le> now \<and> now < 2 ^ 62"

lemma sub_i64_clock: "clock_ok now \<Longrightarrow> 0 \<le> d \<Longrightarrow> d < 2 ^ 62 \<Longrightarrow> sub_i64 now d = now - d"
  by (simp add: clock_ok_def sub_i64_def wrap_i64_id in_i64_def)

lemma add_i64_clock: "clock_ok now \<Longrightarrow> 0 \<le> d \<Longrightarrow> d < 2 ^ 62 \<Longrightarrow> add_i64 now d = now + d"
  by (simp add: clock_ok_def add_i64_def wrap_i64_id in_i64_def)

lemma in_i64_wrap: "in_i64 (wrap_i64 x)"
  by (simp add: wrap_i64_def in_i64_def)

definition in_u64 :: "int \<Rightarrow> bool" where
  "in_u64 x \<longleftrightarrow> 0 \<le> x \<and> x < 2 ^ 64"

definition from_secs :: "nat \<Rightarrow> nat" where
  "from_secs s = s * 1000000000"

lemma from_secs_mono [simp]: "from_secs a \<le> from_secs b \<longleftrightarrow> a \<le> b"
  by (simp add: from_secs_def)

text \<open>\<open>Instant::elapsed\<close>: zero when the clock has not passed \<open>since\<close>.\<close>

definition elapsed :: "nat \<Rightarrow> nat \<Rightarrow> nat" where
  "elapsed now since = now - since"


section \<open>UTF-8\<close>

text \<open>\<open>str::from_utf8\<close>: the well-formed byte sequences of Unicode, table 3-7.\<close>

definition cont_byte :: "char \<Rightarrow> bool" where
  "cont_byte c \<longleftrightarrow> 0x80 \<le> byte_of c \<and> byte_of c \<le> 0xBF"

definition utf8_two :: "char \<Rightarrow> char \<Rightarrow> bool" where
  "utf8_two a b \<longleftrightarrow> 0xC2 \<le> byte_of a \<and> byte_of a \<le> 0xDF \<and> cont_byte b"

definition utf8_three :: "char \<Rightarrow> char \<Rightarrow> char \<Rightarrow> bool" where
  "utf8_three a b c \<longleftrightarrow> 0xE0 \<le> byte_of a \<and> byte_of a \<le> 0xEF \<and> cont_byte b \<and> cont_byte c \<and>
     (byte_of a = 0xE0 \<longrightarrow> 0xA0 \<le> byte_of b) \<and> (byte_of a = 0xED \<longrightarrow> byte_of b \<le> 0x9F)"

definition utf8_four :: "char \<Rightarrow> char \<Rightarrow> char \<Rightarrow> char \<Rightarrow> bool" where
  "utf8_four a b c d \<longleftrightarrow> 0xF0 \<le> byte_of a \<and> byte_of a \<le> 0xF4 \<and> cont_byte b \<and> cont_byte c \<and> cont_byte d \<and>
     (byte_of a = 0xF0 \<longrightarrow> 0x90 \<le> byte_of b) \<and> (byte_of a = 0xF4 \<longrightarrow> byte_of b \<le> 0x8F)"

text \<open>The length of the well-formed sequence at the front, 0 if there is none.\<close>

definition utf8_front :: "bytes \<Rightarrow> nat" where
  "utf8_front s =
     (if s \<noteq> [] \<and> byte_of (s ! 0) < 0x80 then 1
      else if 2 \<le> length s \<and> utf8_two (s ! 0) (s ! 1) then 2
      else if 3 \<le> length s \<and> utf8_three (s ! 0) (s ! 1) (s ! 2) then 3
      else if 4 \<le> length s \<and> utf8_four (s ! 0) (s ! 1) (s ! 2) (s ! 3) then 4
      else 0)"

function from_utf8 :: "bytes \<Rightarrow> bool" where
  "from_utf8 s =
     (if s = [] then True
      else if utf8_front s = 0 then False
      else from_utf8 (drop (utf8_front s) s))"
  by pat_completeness auto
termination
  by (relation "measure length") (auto simp: utf8_front_def split: if_splits)

declare from_utf8.simps [simp del]

end
