(* ===== verification/Tables.thy ===== *)
theory Tables
  imports Text_Ops
begin

text \<open>
  Hash maps. The sources use \<open>HashMap\<close> for every in-memory index; \<open>hash_map\<close> is the part of its
  contract the components rely on, and \<open>table\<close> (an association list with distinct keys) is the
  executable representation, so that iteration, \<open>retain\<close> and \<open>len\<close> compute.
\<close>

section \<open>The interface\<close>

locale hash_map =
  fixes empty :: 'm
    and get :: "'m \<Rightarrow> 'k \<Rightarrow> 'v option"
    and insert :: "'k \<Rightarrow> 'v \<Rightarrow> 'm \<Rightarrow> 'm"
    and remove :: "'k \<Rightarrow> 'm \<Rightarrow> 'm"
    and retain :: "('k \<Rightarrow> 'v \<Rightarrow> bool) \<Rightarrow> 'm \<Rightarrow> 'm"
    and len :: "'m \<Rightarrow> nat"
    and ok :: "'m \<Rightarrow> bool"
  assumes get_empty: "get empty k = None"
    and get_insert: "get (insert k v m) k' = (if k' = k then Some v else get m k')"
    and get_remove: "get (remove k m) k' = (if k' = k then None else get m k')"
    and get_retain: "ok m \<Longrightarrow> get (retain P m) k =
        (case get m k of Some v \<Rightarrow> if P k v then Some v else None | None \<Rightarrow> None)"
    and len_dom: "ok m \<Longrightarrow> len m = card (dom (get m))"
    and finite_dom: "finite (dom (get m))"
    and ok_empty: "ok empty"
    and ok_insert: "ok m \<Longrightarrow> ok (insert k v m)"
    and ok_remove: "ok m \<Longrightarrow> ok (remove k m)"
    and ok_retain: "ok m \<Longrightarrow> ok (retain P m)"
begin

lemma len_empty: "len empty = 0"
proof -
  have "dom (get empty) = {}" by (auto simp: get_empty)
  then show ?thesis by (simp add: len_dom ok_empty)
qed

lemma dom_insert: "dom (get (insert k v m)) = Set.insert k (dom (get m))"
  by (auto simp: get_insert split: if_splits)

lemma dom_remove: "dom (get (remove k m)) = dom (get m) - {k}"
  by (auto simp: get_remove split: if_splits)

lemma dom_retain: "ok m \<Longrightarrow> dom (get (retain P m)) \<subseteq> dom (get m)"
  by (auto simp: get_retain split: option.splits if_splits)

lemma len_insert_le: "ok m \<Longrightarrow> len (insert k v m) \<le> Suc (len m)"
  by (simp add: len_dom ok_insert dom_insert card_insert_if finite_dom)

lemma len_insert_present: "ok m \<Longrightarrow> get m k \<noteq> None \<Longrightarrow> len (insert k v m) = len m"
  by (simp add: len_dom ok_insert dom_insert insert_absorb domIff)

lemma len_remove_present: "ok m \<Longrightarrow> get m k \<noteq> None \<Longrightarrow> Suc (len (remove k m)) = len m"
  using card_Suc_Diff1[OF finite_dom, of k m] by (simp add: len_dom ok_remove dom_remove domIff)

lemma len_retain_le: "ok m \<Longrightarrow> len (retain P m) \<le> len m"
  by (simp add: len_dom ok_retain card_mono finite_dom dom_retain)

text \<open>The pattern of every bounded cache of the node: drop what \<open>P\<close> refuses when the map is
  full, then one more entry if it still is, then insert. The bound holds afterwards.\<close>

lemma bounded_insert:
  assumes "ok m" "len m \<le> cap" "0 < cap"
    and m1: "m1 = (if cap \<le> len m then retain P m else m)"
    and m2: "m2 = (if cap \<le> len m1 then remove victim m1 else m1)"
    and victim: "cap \<le> len m1 \<Longrightarrow> get m1 victim \<noteq> None"
  shows "ok (insert k v m2) \<and> len (insert k v m2) \<le> cap"
proof -
  have ok1: "ok m1" using assms by (simp add: ok_retain)
  have le1: "len m1 \<le> cap" using assms len_retain_le[of m P] by auto
  have ok2: "ok m2" using ok1 m2 by (simp add: ok_remove)
  have "len m2 < cap"
  proof (cases "cap \<le> len m1")
    case True
    with victim ok1 m2 le1 len_remove_present[of m1 victim] show ?thesis by simp
  next
    case False
    with m2 show ?thesis by simp
  qed
  with ok2 len_insert_le[OF ok2, of k v] show ?thesis by (simp add: ok_insert)
qed

end


section \<open>Tables\<close>

type_synonym ('k, 'v) table = "('k \<times> 'v) list"

abbreviation tget :: "('k, 'v) table \<Rightarrow> 'k \<Rightarrow> 'v option" where
  "tget \<equiv> map_of"

definition tremove :: "'k \<Rightarrow> ('k, 'v) table \<Rightarrow> ('k, 'v) table" where
  "tremove k t = filter (\<lambda>p. fst p \<noteq> k) t"

definition tinsert :: "'k \<Rightarrow> 'v \<Rightarrow> ('k, 'v) table \<Rightarrow> ('k, 'v) table" where
  "tinsert k v t = (k, v) # tremove k t"

definition tretain :: "('k \<Rightarrow> 'v \<Rightarrow> bool) \<Rightarrow> ('k, 'v) table \<Rightarrow> ('k, 'v) table" where
  "tretain P t = filter (\<lambda>(k, v). P k v) t"

definition tvalues :: "('k, 'v) table \<Rightarrow> 'v list" where
  "tvalues t = map snd t"

definition tkeys :: "('k, 'v) table \<Rightarrow> 'k list" where
  "tkeys t = map fst t"

definition tcontains :: "('k, 'v) table \<Rightarrow> 'k \<Rightarrow> bool" where
  "tcontains t k \<longleftrightarrow> tget t k \<noteq> None"

definition wf_table :: "('k, 'v) table \<Rightarrow> bool" where
  "wf_table t \<longleftrightarrow> distinct (map fst t)"

lemma tget_tremove: "tget (tremove k t) k' = (if k' = k then None else tget t k')"
  by (induction t) (auto simp: tremove_def)

lemma tget_tinsert: "tget (tinsert k v t) k' = (if k' = k then Some v else tget t k')"
  by (simp add: tinsert_def tget_tremove)

lemma tget_tretain:
  "wf_table t \<Longrightarrow> tget (tretain P t) k =
     (case tget t k of Some v \<Rightarrow> if P k v then Some v else None | None \<Rightarrow> None)"
proof (induction t)
  case (Cons p t)
  obtain a b where p: "p = (a, b)" by force
  from Cons.prems p have "a \<notin> fst ` set t" "wf_table t" by (auto simp: wf_table_def)
  then have "tget (tretain P t) a = None"
    by (auto simp: map_of_eq_None_iff tretain_def)
  with Cons p \<open>wf_table t\<close> show ?case by (auto simp: tretain_def)
qed (simp add: tretain_def)

lemma wf_table_tremove: "wf_table t \<Longrightarrow> wf_table (tremove k t)"
  by (induction t) (auto simp: wf_table_def tremove_def)

lemma wf_table_tinsert: "wf_table t \<Longrightarrow> wf_table (tinsert k v t)"
  using wf_table_tremove[of t k] by (auto simp: wf_table_def tinsert_def tremove_def)

lemma wf_table_tretain: "wf_table t \<Longrightarrow> wf_table (tretain P t)"
  by (induction t) (auto simp: wf_table_def tretain_def)

lemma wf_table_Nil [simp]: "wf_table []"
  by (simp add: wf_table_def)

lemma length_table: "wf_table t \<Longrightarrow> length t = card (dom (tget t))"
  by (metis distinct_card dom_map_of_conv_image_fst length_map list.set_map wf_table_def)

interpretation tbl: hash_map "[]" tget tinsert tremove tretain length wf_table
  by unfold_locales
    (auto simp: tget_tremove tget_tinsert tget_tretain wf_table_tremove wf_table_tinsert
      wf_table_tretain length_table finite_dom_map_of)

lemmas table_simps = tget_tremove tget_tinsert
lemmas wf_table_intros = wf_table_tremove wf_table_tinsert wf_table_tretain

lemma in_tvalues: "wf_table t \<Longrightarrow> v \<in> set (tvalues t) \<longleftrightarrow> (\<exists>k. tget t k = Some v)"
  by (force simp: tvalues_def wf_table_def)

lemma in_tkeys: "k \<in> set (tkeys t) \<longleftrightarrow> tcontains t k"
  by (simp add: tkeys_def tcontains_def map_of_eq_None_iff)

text \<open>A fold that inserts the elements of a list: the last element with a key wins, as with
  repeated \<open>HashMap::insert\<close>.\<close>

fun tcollect :: "('a \<Rightarrow> ('k \<times> 'v) option) \<Rightarrow> 'a list \<Rightarrow> ('k, 'v) table \<Rightarrow> ('k, 'v) table" where
  "tcollect f [] t = t"
| "tcollect f (x # xs) t =
     tcollect f xs (case f x of None \<Rightarrow> t | Some (k, v) \<Rightarrow> tinsert k v t)"

lemma wf_tcollect: "wf_table t \<Longrightarrow> wf_table (tcollect f xs t)"
  by (induction f xs t rule: tcollect.induct) (auto simp: wf_table_tinsert split: option.splits)

lemma tget_tcollect_SomeD:
  "tget (tcollect f xs t) k = Some v \<Longrightarrow> (\<exists>x\<in>set xs. f x = Some (k, v)) \<or> tget t k = Some v"
  by (induction f xs t rule: tcollect.induct)
    (auto simp: table_simps split: option.splits if_splits prod.splits)

lemma tget_tcollect_notin:
  "(\<And>x v. x \<in> set xs \<Longrightarrow> f x \<noteq> Some (k, v)) \<Longrightarrow> tget (tcollect f xs t) k = tget t k"
  by (induction f xs t rule: tcollect.induct)
    (auto simp: table_simps split: option.splits if_splits prod.splits)

lemma tget_tcollect_in:
  assumes "x \<in> set xs" and "f x = Some (k, v)"
    and "\<And>y w. y \<in> set xs \<Longrightarrow> f y = Some (k, w) \<Longrightarrow> w = v"
  shows "tget (tcollect f xs t) k = Some v"
  using assms
proof (induction f xs t arbitrary: x rule: tcollect.induct)
  case (2 f y ys t)
  show ?case
  proof (cases "\<exists>z\<in>set ys. \<exists>w. f z = Some (k, w)")
    case True
    then obtain z w where z: "z \<in> set ys" "f z = Some (k, w)" by blast
    with "2.prems"(3)[of z w] have "f z = Some (k, v)" by simp
    with z(1) have "tget (tcollect f ys (case f y of None \<Rightarrow> t | Some (k, v) \<Rightarrow> tinsert k v t)) k
        = Some v"
      by (rule "2.IH") (use "2.prems"(3) in auto)
    then show ?thesis by simp
  next
    case False
    with "2.prems"(1,2) have "x = y" by auto
    with False "2.prems"(2) show ?thesis
      by (simp add: tget_tcollect_notin table_simps)
  qed
qed simp

lemma tget_tcollect_pairs: "tget (tcollect Some ps t) = map_of t ++ map_of (rev ps)"
  by (induction ps arbitrary: t)
    (auto simp: fun_eq_iff map_add_def table_simps map_of_append split: option.splits)

lemma map_of_rev_table: "wf_table t \<Longrightarrow> map_of (rev t) = tget t"
  by (subst map_of_inject_set) (simp_all add: wf_table_def rev_map[symmetric])

end
