(* ===== verification/Json.thy ===== *)
theory Json
  imports Tables
begin

text \<open>
  JSON values (\<open>serde_json::Value\<close>) and CBOR values (\<open>ciborium::Value\<close>) with the accessors the
  sources call. An object is an association list; \<open>obj_insert\<close> keeps it sorted by key, as the
  \<open>BTreeMap\<close> behind \<open>serde_json::Map\<close> does. A floating-point number is its IEEE 754 bit pattern.
\<close>

section \<open>JSON\<close>

datatype json =
    JNull
  | JBool bool
  | JInt int
  | JFloat "64 word"
  | JString string
  | JArray "json list"
  | JObject "(string \<times> json) list"

type_synonym json_map = "(string \<times> json) list"

fun json_get :: "string \<Rightarrow> json \<Rightarrow> json option" where
  "json_get k (JObject m) = map_of m k"
| "json_get k _ = None"

fun json_as_str :: "json \<Rightarrow> string option" where
  "json_as_str (JString s) = Some s"
| "json_as_str _ = None"

fun json_as_bool :: "json \<Rightarrow> bool option" where
  "json_as_bool (JBool b) = Some b"
| "json_as_bool _ = None"

fun json_as_array :: "json \<Rightarrow> json list option" where
  "json_as_array (JArray a) = Some a"
| "json_as_array _ = None"

fun json_as_object :: "json \<Rightarrow> json_map option" where
  "json_as_object (JObject m) = Some m"
| "json_as_object _ = None"

text \<open>\<open>v.get(key).and_then(Value::as_str)\<close>, the accessor the sources use most.\<close>

definition json_get_str :: "string \<Rightarrow> json \<Rightarrow> string option" where
  "json_get_str k v = Option.bind (json_get k v) json_as_str"

lemma json_as_str_eq_Some: "json_as_str v = Some s \<longleftrightarrow> v = JString s"
  by (cases v) auto

lemma json_as_object_eq_Some: "json_as_object v = Some m \<longleftrightarrow> v = JObject m"
  by (cases v) auto

lemma json_as_array_eq_Some: "json_as_array v = Some a \<longleftrightarrow> v = JArray a"
  by (cases v) auto

lemma json_get_str_eq_Some: "json_get_str k v = Some s \<longleftrightarrow> json_get k v = Some (JString s)"
  by (cases "json_get k v") (auto simp: json_get_str_def json_as_str_eq_Some)

fun obj_insert :: "string \<Rightarrow> json \<Rightarrow> json_map \<Rightarrow> json_map" where
  "obj_insert k v [] = [(k, v)]"
| "obj_insert k v ((a, b) # m) =
     (if k = a then (k, v) # m else if k < a then (k, v) # (a, b) # m else (a, b) # obj_insert k v m)"

definition obj_insert_opt :: "string \<Rightarrow> json option \<Rightarrow> json_map \<Rightarrow> json_map" where
  "obj_insert_opt k v m = (case v of None \<Rightarrow> m | Some x \<Rightarrow> obj_insert k x m)"

definition sorted_obj :: "json_map \<Rightarrow> bool" where
  "sorted_obj m \<longleftrightarrow> sorted_wrt (<) (map fst m)"

lemma map_of_obj_insert: "map_of (obj_insert k v m) = (map_of m)(k \<mapsto> v)"
  by (induction k v m rule: obj_insert.induct) (auto simp: fun_eq_iff)

lemma map_of_obj_insert_opt:
  "map_of (obj_insert_opt k v m) k' = (if k' = k \<and> v \<noteq> None then v else map_of m k')"
  by (auto simp: obj_insert_opt_def map_of_obj_insert split: option.splits)

lemma keys_obj_insert: "fst ` set (obj_insert k v m) = insert k (fst ` set m)"
  by (induction k v m rule: obj_insert.induct) auto

lemma keys_obj_insert_opt:
  "fst ` set (obj_insert_opt k v m) = (if v = None then {} else {k}) \<union> fst ` set m"
  by (auto simp: obj_insert_opt_def keys_obj_insert split: option.splits)

lemma sorted_obj_insert: "sorted_obj m \<Longrightarrow> sorted_obj (obj_insert k v m)"
proof (induction k v m rule: obj_insert.induct)
  case (2 k v a b m)
  then have "sorted_obj m" "\<forall>x\<in>fst ` set m. a < x" by (auto simp: sorted_obj_def)
  with 2 show ?case
    using keys_obj_insert[of k v m] by (auto simp: sorted_obj_def)
qed (simp add: sorted_obj_def)

lemma sorted_obj_insert_opt: "sorted_obj m \<Longrightarrow> sorted_obj (obj_insert_opt k v m)"
  by (simp add: obj_insert_opt_def sorted_obj_insert split: option.splits)

lemma sorted_obj_distinct: "sorted_obj m \<Longrightarrow> distinct (map fst m)"
  by (simp add: sorted_obj_def strict_sorted_iff)

lemma obj_insert_nonempty [simp]: "obj_insert k v m \<noteq> []"
  by (cases "(k, v, m)" rule: obj_insert.cases) auto

lemmas obj_simps = map_of_obj_insert map_of_obj_insert_opt keys_obj_insert keys_obj_insert_opt


section \<open>CBOR\<close>

datatype cbor =
    CInteger int
  | CBytes bytes
  | CFloat "64 word"
  | CText string
  | CBool bool
  | CNull
  | CTag nat cbor
  | CArray "cbor list"
  | CMap "(cbor \<times> cbor) list"

text \<open>\<open>Number::from_f64\<close> refuses infinities and NaN: an exponent of all ones.\<close>

definition f64_finite :: "64 word \<Rightarrow> bool" where
  "f64_finite w \<longleftrightarrow> (uint w div 2 ^ 52) mod 2048 \<noteq> 2047"

end
