(* ===== verification/Auth.thy ===== *)
theory Auth
  imports Json
begin

text \<open>
  CWT bearer-token verification (\<open>src/auth.rs\<close>): the key cache and its rate-limited refresh, the
  \<open>COSE_Sign1\<close> checks, the claims parser and the time, issuer and audience checks. The decoders and
  the signature scheme come from other crates and are the fields of \<open>auth_ext\<close>.
\<close>

section \<open>Data\<close>

definition CWT_TAG_PREFIX :: bytes where
  "CWT_TAG_PREFIX = [CHR 0xD8, CHR 0x3D]"

definition SKEW_SECS :: int where
  [simp]: "SKEW_SECS = 60"

definition PASSKEY_CREDENTIAL_TYP :: string where
  "PASSKEY_CREDENTIAL_TYP = ''arkavo-passkey-credential''"

definition DEVICECHECK_AUD :: string where
  "DEVICECHECK_AUD = ''arkavo:devicecheck''"

definition subject_id_bind :: "string \<Rightarrow> string" where
  "subject_id_bind s = (case strip_prefix ''arkavo:'' s of Some r \<Rightarrow> r | None \<Rightarrow> s)"

definition KEY_REFRESH_MIN_INTERVAL :: nat where
  "KEY_REFRESH_MIN_INTERVAL = from_secs 60"

datatype AuthError =
    Malformed
  | Algorithm
  | UnknownKid
  | Signature
  | Expired
  | NotYetValid
  | MissingClaim string
  | Issuer
  | Audience
  | DuplicateKey
  | KeySet string

datatype Aud = One string | Many "string list"

fun aud_contains :: "Aud \<Rightarrow> string \<Rightarrow> bool" where
  "aud_contains (One s) want = (s = want)"
| "aud_contains (Many v) want = list_ex (\<lambda>s. s = want) v"

fun aud_as_str :: "Aud \<Rightarrow> string option" where
  "aud_as_str (One s) = Some s"
| "aud_as_str (Many v) = (if length v = 1 then Some (v ! 0) else None)"

record VerifiedClaims =
  vc_iss :: string
  vc_sub :: string
  vc_aud :: Aud
  vc_exp :: int
  vc_iat :: int
  vc_nbf :: "int option"
  vc_cti :: bytes
  vc_kid :: "string option"
  vc_patreon_user_id :: "string option"
  vc_email :: "string option"
  vc_email_verified :: "bool option"
  vc_idp :: "string option"
  vc_arkavo_account_id :: "string option"
  vc_arkavo_roles :: "string list option"
  vc_arkavo_entitlements :: "string list"
  vc_client_id :: "string option"
  vc_arkavo_patreon :: "json option"

text \<open>A P-256 key is its SEC1 encoding.\<close>

type_synonym VerifyingKey = bytes

record KeyCache =
  kc_keys :: "(bytes, VerifyingKey) table"
  kc_last_fetch :: "nat option"

record CwtVerifier =
  cv_cose_keys_url :: "string option"
  cv_expected_iss :: "string option"
  cv_cache :: KeyCache

text \<open>The parts of \<open>coset\<close>'s types the code reads.\<close>

datatype cose_alg = ES256 | OtherAlg
datatype cose_label = LInt int | LText string
datatype cose_kty = EC2 | OtherKty
datatype cose_content_type = CtAssigned int | CtText string

record CoseSign1 =
  s1_alg :: "cose_alg option"
  s1_crit :: "string list"
  s1_key_id :: bytes
  s1_content_type :: "cose_content_type option"
  s1_payload :: "bytes option"
  s1_protected :: bytes
  s1_signature :: bytes

record CoseKey =
  ck_kty :: cose_kty
  ck_key_id :: bytes
  ck_params :: "(cose_label \<times> cbor) list"

text \<open>
  What the crates the verifier calls provide: the base64 alphabets, \<open>coset\<close> and \<open>ciborium\<close>
  decoding, the \<open>Sig_structure\<close> a message signs for an external AAD, and ECDSA over P-256.
\<close>

record auth_ext =
  b64url_decode :: "string \<Rightarrow> bytes option"
  b64url_encode :: "bytes \<Rightarrow> string"
  b64_encode :: "bytes \<Rightarrow> string"
  cose_sign1_from_slice :: "bytes \<Rightarrow> CoseSign1 option"
  sig_structure :: "CoseSign1 \<Rightarrow> bytes \<Rightarrow> bytes"
  cose_key_from_cbor :: "cbor \<Rightarrow> CoseKey option"
  cbor_from_reader :: "bytes \<Rightarrow> cbor option"
  signature_from_slice :: "bytes \<Rightarrow> bytes option"
  ecdsa_verify :: "VerifyingKey \<Rightarrow> bytes \<Rightarrow> bytes \<Rightarrow> bool"
  from_sec1_bytes :: "bytes \<Rightarrow> VerifyingKey option"
  cbor_debug :: "cbor \<Rightarrow> string"

text \<open>What a GET answers: it fails, or gives a status and a body that may fail to arrive.\<close>

datatype http_answer = Http_Failed string | Http_Answer nat "(bytes, string) result"

definition is_success :: "nat \<Rightarrow> bool" where
  "is_success status \<longleftrightarrow> 200 \<le> status \<and> status < 300"

text \<open>
  The environment of one verification: the external functions, the monotonic clock's reading, and
  what the identity provider's key-set endpoint answers if it is asked.
\<close>

record verify_env =
  ve_ext :: auth_ext
  ve_instant :: nat
  ve_key_set :: http_answer


section \<open>Claims\<close>

definition MAX_ENTITLEMENTS :: nat where
  [simp]: "MAX_ENTITLEMENTS = 500"

definition MAX_ENTITLEMENT_BYTES :: nat where
  [simp]: "MAX_ENTITLEMENT_BYTES = 256"

fun entitlement :: "cbor \<Rightarrow> string option" where
  "entitlement (CText s) = (if length s \<le> MAX_ENTITLEMENT_BYTES then Some s else None)"
| "entitlement _ = None"

definition entitlements :: "cbor list \<Rightarrow> string list" where
  "entitlements a =
     (if length a > MAX_ENTITLEMENTS then []
      else (case those (map entitlement a) of Some ss \<Rightarrow> ss | None \<Rightarrow> []))"

fun cbor_text :: "cbor \<Rightarrow> (string, AuthError) result" where
  "cbor_text (CText s) = Ok s"
| "cbor_text _ = Err Malformed"

definition text_array :: "cbor list \<Rightarrow> (string list, AuthError) result" where
  "text_array a = map_result cbor_text a"

fun cbor_int_to_json :: "int \<Rightarrow> json" where
  "cbor_int_to_json i =
     (if in_i64 i then JInt i else if in_u64 i then JInt i else JString (show_int i))"

fun cbor_to_json :: "auth_ext \<Rightarrow> cbor \<Rightarrow> json" where
  "cbor_to_json x (CText s) = JString s"
| "cbor_to_json x (CInteger n) = cbor_int_to_json n"
| "cbor_to_json x (CBool b) = JBool b"
| "cbor_to_json x CNull = JNull"
| "cbor_to_json x (CFloat f) = (if f64_finite f then JFloat f else JNull)"
| "cbor_to_json x (CBytes b) = JString (b64_encode x b)"
| "cbor_to_json x (CArray a) = JArray (map (cbor_to_json x) a)"
| "cbor_to_json x (CMap m) =
     JObject (fold (\<lambda>(k, val) obj. case k of
        CText key \<Rightarrow> obj_insert key (cbor_to_json x val) obj | _ \<Rightarrow> obj) m [])"
| "cbor_to_json x (CTag t v) = JString (cbor_debug x (CTag t v))"

text \<open>\<open>parse_cnf_kid\<close>: the loop's locals, one iteration, and the whole function.\<close>

record cnf_state =
  cn_seen :: "string list"
  cn_kid_bytes :: "bytes option"
  cn_cose_kid :: "bytes option"

definition cnf_step ::
  "auth_ext \<Rightarrow> cbor \<times> cbor \<Rightarrow> cnf_state \<Rightarrow> (cnf_state, AuthError) result" where
  "cnf_step x e s = (case e of (k, v) \<Rightarrow> (case k of
      CInteger i \<Rightarrow>
        (let key_id = ''i:'' @ show_int i in
         if key_id \<in> set (cn_seen s) then Err DuplicateKey
         else let s = s\<lparr>cn_seen := key_id # cn_seen s\<rparr> in
           (if (i = 2 \<or> i = 3) \<and> (case v of CBytes _ \<Rightarrow> True | _ \<Rightarrow> False)
            then (case v of CBytes b \<Rightarrow> Ok (s\<lparr>cn_kid_bytes := Some b\<rparr>) | _ \<Rightarrow> Ok s)
            else if i = 1
            then (case cose_key_from_cbor x v of
                    Some key \<Rightarrow> if ck_key_id key \<noteq> [] then Ok (s\<lparr>cn_cose_kid := Some (ck_key_id key)\<rparr>)
                                else Ok s
                  | None \<Rightarrow> Ok s)
            else Ok s))
    | _ \<Rightarrow> Ok s))"

definition parse_cnf_kid ::
  "auth_ext \<Rightarrow> (cbor \<times> cbor) list \<Rightarrow> (string option, AuthError) result" where
  "parse_cnf_kid x m =
     and_then (fold_result (cnf_step x) m \<lparr>cn_seen = [], cn_kid_bytes = None, cn_cose_kid = None\<rparr>)
       (\<lambda>s. let b = (case cn_kid_bytes s of Some b \<Rightarrow> Some b | None \<Rightarrow> cn_cose_kid s) in
          Ok (case b of Some b \<Rightarrow> if b = [] then None else Some (b64url_encode x b) | None \<Rightarrow> None))"

text \<open>\<open>parse_claims\<close>: the loop's locals.\<close>

record claims_state =
  cs_seen :: "string list"
  cs_iss :: "string option"
  cs_sub :: "string option"
  cs_aud :: "Aud option"
  cs_exp :: "int option"
  cs_iat :: "int option"
  cs_nbf :: "int option"
  cs_cti :: "bytes option"
  cs_kid :: "string option"
  cs_patreon_user_id :: "string option"
  cs_email :: "string option"
  cs_email_verified :: "bool option"
  cs_idp :: "string option"
  cs_arkavo_account_id :: "string option"
  cs_arkavo_roles :: "string list option"
  cs_arkavo_entitlements :: "string list"
  cs_client_id :: "string option"
  cs_arkavo_patreon :: "json option"

definition claims_start :: claims_state where
  "claims_start = \<lparr>cs_seen = [], cs_iss = None, cs_sub = None, cs_aud = None, cs_exp = None,
     cs_iat = None, cs_nbf = None, cs_cti = None, cs_kid = None, cs_patreon_user_id = None,
     cs_email = None, cs_email_verified = None, cs_idp = None, cs_arkavo_account_id = None,
     cs_arkavo_roles = None, cs_arkavo_entitlements = [], cs_client_id = None,
     cs_arkavo_patreon = None\<rparr>"

definition i64_try_from :: "int \<Rightarrow> int option" where
  "i64_try_from n = (if in_i64 n then Some n else None)"

fun aud_member :: "cbor \<Rightarrow> (string, AuthError) result" where
  "aud_member (CText s) = (if s = [] then Err Malformed else Ok s)"
| "aud_member _ = Err Malformed"

definition aud_many :: "cbor list \<Rightarrow> (Aud, AuthError) result" where
  "aud_many a = and_then (map_result aud_member a)
     (\<lambda>members. if members = [] then Err (MissingClaim ''aud'') else Ok (Many members))"

definition claim_integer ::
  "auth_ext \<Rightarrow> int \<Rightarrow> cbor \<Rightarrow> claims_state \<Rightarrow> (claims_state, AuthError) result" where
  "claim_integer x key v s =
     (if key = 1 then (case v of CText t \<Rightarrow> Ok (s\<lparr>cs_iss := Some t\<rparr>) | _ \<Rightarrow> Ok s)
      else if key = 2 then (case v of CText t \<Rightarrow> Ok (s\<lparr>cs_sub := Some t\<rparr>) | _ \<Rightarrow> Ok s)
      else if key = 3 then (case v of
          CText t \<Rightarrow> Ok (s\<lparr>cs_aud := Some (One t)\<rparr>)
        | CArray a \<Rightarrow> and_then (aud_many a) (\<lambda>aud. Ok (s\<lparr>cs_aud := Some aud\<rparr>))
        | _ \<Rightarrow> Ok s)
      else if key = 4 then (case v of CInteger n \<Rightarrow> Ok (s\<lparr>cs_exp := i64_try_from n\<rparr>) | _ \<Rightarrow> Ok s)
      else if key = 6 then (case v of CInteger n \<Rightarrow> Ok (s\<lparr>cs_iat := i64_try_from n\<rparr>) | _ \<Rightarrow> Ok s)
      else if key = 5 then (case v of
          CInteger n \<Rightarrow> and_then (ok_or Malformed (i64_try_from n)) (\<lambda>n. Ok (s\<lparr>cs_nbf := Some n\<rparr>))
        | _ \<Rightarrow> Err Malformed)
      else if key = 7 then (case v of CBytes b \<Rightarrow> Ok (s\<lparr>cs_cti := Some b\<rparr>) | _ \<Rightarrow> Ok s)
      else if key = 8 then (case v of
          CMap m \<Rightarrow> and_then (parse_cnf_kid x m) (\<lambda>kid. Ok (s\<lparr>cs_kid := kid\<rparr>))
        | _ \<Rightarrow> Ok s)
      else Ok s)"

definition claim_text ::
  "auth_ext \<Rightarrow> string \<Rightarrow> cbor \<Rightarrow> claims_state \<Rightarrow> (claims_state, AuthError) result" where
  "claim_text x key v s =
     (if key = ''typ'' then Err Malformed
      else if key = ''email'' then (case v of CText t \<Rightarrow> Ok (s\<lparr>cs_email := Some t\<rparr>) | _ \<Rightarrow> Ok s)
      else if key = ''email_verified''
        then (case v of CBool b \<Rightarrow> Ok (s\<lparr>cs_email_verified := Some b\<rparr>) | _ \<Rightarrow> Ok s)
      else if key = ''idp'' then (case v of CText t \<Rightarrow> Ok (s\<lparr>cs_idp := Some t\<rparr>) | _ \<Rightarrow> Ok s)
      else if key = ''arkavo_account_id''
        then (case v of CText t \<Rightarrow> Ok (s\<lparr>cs_arkavo_account_id := Some t\<rparr>) | _ \<Rightarrow> Ok s)
      else if key = ''client_id'' then (case v of CText t \<Rightarrow> Ok (s\<lparr>cs_client_id := Some t\<rparr>) | _ \<Rightarrow> Ok s)
      else if key = ''arkavo_roles'' then (case v of
          CArray a \<Rightarrow> and_then (text_array a) (\<lambda>roles. Ok (s\<lparr>cs_arkavo_roles := Some roles\<rparr>))
        | _ \<Rightarrow> Ok s)
      else if key = ''arkavo_entitlements''
        then (case v of CArray a \<Rightarrow> Ok (s\<lparr>cs_arkavo_entitlements := entitlements a\<rparr>) | _ \<Rightarrow> Ok s)
      else if key = ''arkavo_patreon'' then (case v of
          CMap m \<Rightarrow>
            (let json = cbor_to_json x (CMap m) in
             Ok (s\<lparr>cs_patreon_user_id := json_get_str ''patreon_user_id'' json,
                   cs_arkavo_patreon := Some json\<rparr>))
        | _ \<Rightarrow> Ok s)
      else Ok s)"

fun claim_key_id :: "cbor \<Rightarrow> string option" where
  "claim_key_id (CInteger i) = Some (''i:'' @ show_int i)"
| "claim_key_id (CText t) = Some (''t:'' @ t)"
| "claim_key_id _ = None"

definition claim_step ::
  "auth_ext \<Rightarrow> cbor \<times> cbor \<Rightarrow> claims_state \<Rightarrow> (claims_state, AuthError) result" where
  "claim_step x e s = (case e of (k, v) \<Rightarrow>
     and_then (ok_or Malformed (claim_key_id k)) (\<lambda>key_id.
       if key_id \<in> set (cs_seen s) then Err DuplicateKey
       else let s = s\<lparr>cs_seen := key_id # cs_seen s\<rparr> in
         (case k of
            CInteger key \<Rightarrow> claim_integer x key v s
          | CText key \<Rightarrow> claim_text x key v s
          | _ \<Rightarrow> Ok s)))"

definition non_empty :: "string option \<Rightarrow> string \<Rightarrow> (string, AuthError) result" where
  "non_empty v name = (case v of Some s \<Rightarrow> if s \<noteq> [] then Ok s else Err (MissingClaim name)
                                | None \<Rightarrow> Err (MissingClaim name))"

definition claims_finish :: "claims_state \<Rightarrow> (VerifiedClaims, AuthError) result" where
  "claims_finish s =
     (if cs_aud s = Some (One []) then Err (MissingClaim ''aud'')
      else and_then (non_empty (cs_iss s) ''iss'') (\<lambda>iss.
        and_then (non_empty (cs_sub s) ''sub'') (\<lambda>sub.
        and_then (ok_or (MissingClaim ''aud'') (cs_aud s)) (\<lambda>aud.
        and_then (ok_or (MissingClaim ''exp'') (cs_exp s)) (\<lambda>exp.
        and_then (ok_or (MissingClaim ''iat'') (cs_iat s)) (\<lambda>iat.
        and_then (non_empty (cs_cti s) ''cti'') (\<lambda>cti.
          Ok \<lparr>vc_iss = iss, vc_sub = sub, vc_aud = aud, vc_exp = exp, vc_iat = iat,
              vc_nbf = cs_nbf s, vc_cti = cti, vc_kid = cs_kid s,
              vc_patreon_user_id = cs_patreon_user_id s, vc_email = cs_email s,
              vc_email_verified = cs_email_verified s, vc_idp = cs_idp s,
              vc_arkavo_account_id = cs_arkavo_account_id s, vc_arkavo_roles = cs_arkavo_roles s,
              vc_arkavo_entitlements = cs_arkavo_entitlements s, vc_client_id = cs_client_id s,
              vc_arkavo_patreon = cs_arkavo_patreon s\<rparr>)))))))"

definition parse_claims :: "auth_ext \<Rightarrow> bytes \<Rightarrow> (VerifiedClaims, AuthError) result" where
  "parse_claims x payload =
     and_then (ok_or Malformed (cbor_from_reader x payload)) (\<lambda>value. case value of
         CMap entries \<Rightarrow> and_then (fold_result (claim_step x) entries claims_start) claims_finish
       | _ \<Rightarrow> Err Malformed)"


section \<open>Key set and verifier\<close>

record ec2_state =
  ec_x :: "bytes option"
  ec_y :: "bytes option"
  ec_crv_ok :: bool

definition ec2_step :: "cose_label \<times> cbor \<Rightarrow> ec2_state \<Rightarrow> ec2_state" where
  "ec2_step e s = (case e of (label, v) \<Rightarrow>
     (if label = LInt (-1) then s\<lparr>ec_crv_ok := (v = CInteger 1)\<rparr>
      else if label = LInt (-2) then (case v of CBytes b \<Rightarrow> s\<lparr>ec_x := Some b\<rparr> | _ \<Rightarrow> s)
      else if label = LInt (-3) then (case v of CBytes b \<Rightarrow> s\<lparr>ec_y := Some b\<rparr> | _ \<Rightarrow> s)
      else s))"

definition p256_from_cose_key :: "auth_ext \<Rightarrow> CoseKey \<Rightarrow> (VerifyingKey, string) result" where
  "p256_from_cose_key x key =
     (if ck_kty key \<noteq> EC2 then Err ''kty is not EC2''
      else let s = fold ec2_step (ck_params key) \<lparr>ec_x = None, ec_y = None, ec_crv_ok = False\<rparr> in
        if \<not> ec_crv_ok s then Err ''crv is not P-256''
        else and_then (ok_or ''missing x'' (ec_x s)) (\<lambda>px.
          and_then (ok_or ''missing y'' (ec_y s)) (\<lambda>py.
            if length px \<noteq> 32 \<or> length py \<noteq> 32 then Err ''x/y are not 32 bytes''
            else ok_or ''invalid point'' (from_sec1_bytes x ([CHR 0x04] @ px @ py)))))"

fun cose_key_entries :: "auth_ext \<Rightarrow> cbor list \<Rightarrow> (bytes \<times> VerifyingKey) list" where
  "cose_key_entries x [] = []"
| "cose_key_entries x (entry # rest) =
     (case cose_key_from_cbor x entry of
        None \<Rightarrow> cose_key_entries x rest
      | Some key \<Rightarrow>
          (case p256_from_cose_key x key of
             Ok vk \<Rightarrow> if ck_key_id key \<noteq> [] then (ck_key_id key, vk) # cose_key_entries x rest
                      else cose_key_entries x rest
           | Err e \<Rightarrow> cose_key_entries x rest))"

definition parse_cose_key_set :: "auth_ext \<Rightarrow> bytes \<Rightarrow> ((bytes \<times> VerifyingKey) list, string) result" where
  "parse_cose_key_set x b =
     and_then (ok_or ''invalid CBOR'' (cbor_from_reader x b)) (\<lambda>value. case value of
         CArray entries \<Rightarrow>
           (let out = cose_key_entries x entries in
            if out = [] then Err ''no usable P-256 keys in key set'' else Ok out)
       | _ \<Rightarrow> Err ''key set is not a CBOR array'')"

text \<open>\<open>CwtVerifier::new\<close>, \<open>with_static_keys\<close> and \<open>with_expected_issuer\<close>.\<close>

definition cwt_new :: "string \<Rightarrow> string option \<Rightarrow> CwtVerifier" where
  "cwt_new url iss = \<lparr>cv_cose_keys_url = Some url, cv_expected_iss = iss,
     cv_cache = \<lparr>kc_keys = [], kc_last_fetch = None\<rparr>\<rparr>"

definition with_static_keys :: "(bytes \<times> VerifyingKey) list \<Rightarrow> CwtVerifier" where
  "with_static_keys keys = \<lparr>cv_cose_keys_url = None, cv_expected_iss = None,
     cv_cache = \<lparr>kc_keys = tcollect Some keys [], kc_last_fetch = None\<rparr>\<rparr>"

definition with_expected_issuer :: "CwtVerifier \<Rightarrow> string \<Rightarrow> CwtVerifier" where
  "with_expected_issuer v iss = v\<lparr>cv_expected_iss := Some iss\<rparr>"

definition key_lookup :: "CwtVerifier \<Rightarrow> bytes \<Rightarrow> VerifyingKey option" where
  "key_lookup v kid = tget (kc_keys (cv_cache v)) kid"

text \<open>The fetch itself: the answer's status, its body, then the key set.\<close>

definition fetch_keys :: "verify_env \<Rightarrow> string \<Rightarrow> ((bytes \<times> VerifyingKey) list, AuthError) result" where
  "fetch_keys env url = (case ve_key_set env of
       Http_Failed e \<Rightarrow> Err (KeySet (''GET '' @ url @ '': '' @ e))
     | Http_Answer status body \<Rightarrow>
         if \<not> is_success status then Err (KeySet (''GET '' @ url @ '': HTTP '' @ show_nat status))
         else and_then (map_err (\<lambda>e. KeySet (''read body: '' @ e)) body) (\<lambda>b.
           map_err (\<lambda>e. KeySet (''parse key set: '' @ e)) (parse_cose_key_set (ve_ext env) b)))"

definition refresh_limited :: "verify_env \<Rightarrow> CwtVerifier \<Rightarrow> bool" where
  "refresh_limited env v = (case kc_last_fetch (cv_cache v) of
       Some since \<Rightarrow> elapsed (ve_instant env) since < KEY_REFRESH_MIN_INTERVAL
     | None \<Rightarrow> False)"

definition refresh_keys :: "verify_env \<Rightarrow> (CwtVerifier, unit, AuthError) io" where
  "refresh_keys env v = (case cv_cose_keys_url v of
       None \<Rightarrow> (Ok (), v)
     | Some url \<Rightarrow>
         if refresh_limited env v then (Ok (), v)
         else let v = v\<lparr>cv_cache := (cv_cache v)\<lparr>kc_last_fetch := Some (ve_instant env)\<rparr>\<rparr> in
           (case fetch_keys env url of
              Err e \<Rightarrow> (Err e, v)
            | Ok keys \<Rightarrow> (Ok (), v\<lparr>cv_cache := (cv_cache v)\<lparr>kc_keys := tcollect Some keys []\<rparr>\<rparr>)))"

definition verify_signature :: "auth_ext \<Rightarrow> CoseSign1 \<Rightarrow> VerifyingKey \<Rightarrow> bool" where
  "verify_signature x sign1 key = (case signature_from_slice x (s1_signature sign1) of
       None \<Rightarrow> False
     | Some sig \<Rightarrow> ecdsa_verify x key (sig_structure x sign1 []) sig)"

definition find_key :: "verify_env \<Rightarrow> bytes \<Rightarrow> (CwtVerifier, VerifyingKey, AuthError) io" where
  "find_key env kid v = (case key_lookup v kid of
       Some k \<Rightarrow> (Ok k, v)
     | None \<Rightarrow> io_bind (refresh_keys env) (\<lambda>_. \<lambda>v. (ok_or UnknownKid (key_lookup v kid), v)) v)"

definition verify_sign1 :: "verify_env \<Rightarrow> CoseSign1 \<Rightarrow> (CwtVerifier, unit, AuthError) io" where
  "verify_sign1 env sign1 =
     (if s1_alg sign1 \<noteq> Some ES256 then io_fail Algorithm
      else if s1_crit sign1 \<noteq> [] then io_fail Malformed
      else if s1_key_id sign1 = [] then io_fail UnknownKid
      else io_bind (find_key env (s1_key_id sign1)) (\<lambda>key.
        io_lift (ensure (verify_signature (ve_ext env) sign1 key) Signature)))"

text \<open>The checks on parsed claims, in the order of \<open>verify_with\<close>.\<close>

definition check_claims ::
  "string option \<Rightarrow> string option \<Rightarrow> int \<Rightarrow> VerifiedClaims \<Rightarrow> (VerifiedClaims, AuthError) result" where
  "check_claims expected_iss expected_aud now c =
     (if (case expected_iss of Some e \<Rightarrow> vc_iss c \<noteq> e | None \<Rightarrow> False) then Err Issuer
      else if (case expected_aud of Some want \<Rightarrow> \<not> aud_contains (vc_aud c) want | None \<Rightarrow> False)
        then Err Audience
      else if vc_iat c > vc_exp c then Err Malformed
      else if vc_exp c \<le> sub_i64 now SKEW_SECS then Err Expired
      else if vc_iat c > add_i64 now SKEW_SECS then Err NotYetValid
      else if (case vc_nbf c of Some nbf \<Rightarrow> nbf > add_i64 now SKEW_SECS | None \<Rightarrow> False)
        then Err NotYetValid
      else Ok c)"

definition decode_cwt :: "auth_ext \<Rightarrow> string \<Rightarrow> (CoseSign1, AuthError) result" where
  "decode_cwt x token =
     and_then (ok_or Malformed (b64url_decode x (trim token))) (\<lambda>b.
     and_then (ok_or Malformed (strip_prefix CWT_TAG_PREFIX b)) (\<lambda>inner.
     and_then (ok_or Malformed (cose_sign1_from_slice x inner)) (\<lambda>sign1.
       if s1_content_type sign1 \<noteq> None then Err Malformed else Ok sign1)))"

definition verify_with ::
  "verify_env \<Rightarrow> string \<Rightarrow> int \<Rightarrow> string option \<Rightarrow> (CwtVerifier, VerifiedClaims, AuthError) io" where
  "verify_with env token now expected_aud =
     io_bind (io_lift (decode_cwt (ve_ext env) token)) (\<lambda>sign1.
     io_bind (verify_sign1 env sign1) (\<lambda>_.
     io_bind (io_lift (ok_or Malformed (s1_payload sign1))) (\<lambda>payload.
     io_bind (io_lift (parse_claims (ve_ext env) payload)) (\<lambda>claims. \<lambda>v.
       (check_claims (cv_expected_iss v) expected_aud now claims, v)))))"

definition verify :: "verify_env \<Rightarrow> string \<Rightarrow> int \<Rightarrow> (CwtVerifier, VerifiedClaims, AuthError) io" where
  "verify env token now = verify_with env token now None"

definition verify_device ::
  "verify_env \<Rightarrow> string \<Rightarrow> int \<Rightarrow> (CwtVerifier, VerifiedClaims, AuthError) io" where
  "verify_device env token now =
     io_bind (verify_with env token now (Some DEVICECHECK_AUD)) (\<lambda>claims.
       io_lift (if vc_kid claims = None \<or> vc_kid claims = Some [] then Err (MissingClaim ''kid'')
                else Ok claims))"



section \<open>The claims loop\<close>

lemma claim_key_id_inject:
  "claim_key_id a = Some s \<Longrightarrow> claim_key_id b = Some s \<Longrightarrow> a = b"
  by (cases a; cases b) auto

lemmas claim_step_defs = claim_step_def claim_integer_def claim_text_def Let_def

lemma claim_integer_seen: "claim_integer x k v s = Ok t \<Longrightarrow> cs_seen t = cs_seen s"
  by (auto simp: claim_integer_def result_simps split: if_splits cbor.splits)

lemma claim_text_seen: "claim_text x k v s = Ok t \<Longrightarrow> cs_seen t = cs_seen s"
  by (auto simp: claim_text_def Let_def result_simps split: if_splits cbor.splits)

lemma claim_step_seen:
  "claim_step x (k, v) s = Ok t \<Longrightarrow>
   \<exists>i. claim_key_id k = Some i \<and> i \<notin> set (cs_seen s) \<and> cs_seen t = i # cs_seen s"
  by (auto simp: claim_step_def Let_def result_simps split: if_splits cbor.splits
      dest: claim_integer_seen claim_text_seen)

text \<open>No key occurs twice among the entries the loop accepts.\<close>

lemma claims_loop_distinct:
  assumes "fold_result (claim_step x) es s = Ok t"
  shows "distinct (map fst es) \<and>
         (\<forall>k\<in>fst ` set es. \<exists>i. claim_key_id k = Some i \<and> i \<in> set (cs_seen t) - set (cs_seen s))
         \<and> set (cs_seen s) \<subseteq> set (cs_seen t)"
  using assms
proof (induction es arbitrary: s)
  case (Cons e es)
  obtain k v where e: "e = (k, v)" by force
  from Cons.prems obtain u where u: "claim_step x (k, v) s = Ok u" "fold_result (claim_step x) es u = Ok t"
    by (auto simp: e result_simps)
  obtain i where i: "claim_key_id k = Some i" "i \<notin> set (cs_seen s)" "cs_seen u = i # cs_seen s"
    using claim_step_seen[OF u(1)] by blast
  have "k \<notin> fst ` set es"
    using Cons.IH[OF u(2)] i by force
  with Cons.IH[OF u(2)] i show ?case by (auto simp: e)
qed auto

text \<open>
  A local of the loop that one key sets: after the loop its value is the one the payload has under
  that key.
\<close>

locale claim_field =
  fixes get :: "claims_state \<Rightarrow> 'a option" and key :: cbor and val :: "'a \<Rightarrow> cbor"
  assumes start: "get claims_start = None"
    and step: "claim_step x (k, v) s = Ok t \<Longrightarrow>
       get t = get s \<or> k = key \<and> (\<forall>a. get t = Some a \<longrightarrow> v = val a)"
begin

lemma loop_value:
  assumes "fold_result (claim_step x) es claims_start = Ok t" and "get t = Some a"
  shows "map_of es key = Some (val a)"
proof -
  have "get t = Some a \<longrightarrow> (key, val a) \<in> set es"
    by (rule fold_result_invariant[OF assms(1), where I = "\<lambda>pre s. get s = Some a \<longrightarrow> (key, val a) \<in> set pre"])
      (use step in \<open>force simp: start\<close>)+
  with assms(2) claims_loop_distinct[OF assms(1)] show ?thesis by simp
qed

end

text \<open>A local whose key the loop never accepts with another type of value.\<close>

locale strict_claim_field = claim_field +
  assumes strict: "claim_step x (key, v) s = Ok t \<Longrightarrow> \<exists>a. v = val a \<and> get t = Some a"
begin

lemma loop_enforced:
  assumes "fold_result (claim_step x) es claims_start = Ok t" and "(key, w) \<in> set es"
  shows "\<exists>a. w = val a \<and> get t = Some a"
proof -
  from assms(2) obtain pre post where es: "es = pre @ (key, w) # post"
    by (auto simp: in_set_conv_decomp)
  with assms(1) obtain s u where u: "claim_step x (key, w) s = Ok u" "fold_result (claim_step x) post u = Ok t"
    by (auto simp: fold_result_append result_simps)
  have "key \<notin> fst ` set post" using claims_loop_distinct[OF assms(1)] es by simp
  then have "get t = get u" using u(2)
  proof (induction post arbitrary: u)
    case (Cons e post)
    obtain k v where e: "e = (k, v)" by force
    with Cons.prems obtain u' where "claim_step x (k, v) u = Ok u'" "fold_result (claim_step x) post u' = Ok t"
      by (auto simp: result_simps)
    with Cons.IH[of u'] Cons.prems e step[of x k v u u'] show ?case by auto
  qed simp
  with strict[OF u(1)] show ?thesis by simp
qed

end

interpretation iss_field: claim_field cs_iss "CInteger 1" CText
  by unfold_locales
    (auto simp: claims_start_def claim_step_defs result_simps split: if_splits cbor.splits)

interpretation sub_field: claim_field cs_sub "CInteger 2" CText
  by unfold_locales
    (auto simp: claims_start_def claim_step_defs result_simps split: if_splits cbor.splits)

interpretation exp_field: claim_field cs_exp "CInteger 4" CInteger
  by unfold_locales
    (auto simp: claims_start_def claim_step_defs result_simps i64_try_from_def split: if_splits cbor.splits)

interpretation nbf_field: strict_claim_field cs_nbf "CInteger 5" CInteger
  by unfold_locales
    (auto simp: claims_start_def claim_step_defs result_simps i64_try_from_def split: if_splits cbor.splits)

interpretation iat_field: claim_field cs_iat "CInteger 6" CInteger
  by unfold_locales
    (auto simp: claims_start_def claim_step_defs result_simps i64_try_from_def split: if_splits cbor.splits)

interpretation cti_field: claim_field cs_cti "CInteger 7" CBytes
  by unfold_locales
    (auto simp: claims_start_def claim_step_defs result_simps split: if_splits cbor.splits)

interpretation email_field: claim_field cs_email "CText ''email''" CText
  by unfold_locales
    (auto simp: claims_start_def claim_step_defs result_simps split: if_splits cbor.splits)

interpretation account_field: claim_field cs_arkavo_account_id "CText ''arkavo_account_id''" CText
  by unfold_locales
    (auto simp: claims_start_def claim_step_defs result_simps split: if_splits cbor.splits)



section \<open>Verification\<close>

lemma decode_cwt_Ok:
  "decode_cwt x token = Ok sign1 \<longleftrightarrow>
   (\<exists>inner. b64url_decode x (trim token) = Some (CWT_TAG_PREFIX @ inner) \<and>
      cose_sign1_from_slice x inner = Some sign1 \<and> s1_content_type sign1 = None)"
  by (auto simp: decode_cwt_def result_simps str_simps split: if_splits)

lemma refresh_keys_cases:
  "snd (refresh_keys env v) = v \<or>
   \<not> refresh_limited env v \<and> kc_last_fetch (cv_cache (snd (refresh_keys env v))) = Some (ve_instant env)"
  by (auto simp: refresh_keys_def Let_def split: option.splits result.splits)

lemma refresh_keys_expected_iss: "cv_expected_iss (snd (refresh_keys env v)) = cv_expected_iss v"
  by (auto simp: refresh_keys_def Let_def split: option.splits result.splits)

lemma find_key_state: "snd (find_key env kid v) = v \<or> snd (find_key env kid v) = snd (refresh_keys env v)"
  by (auto simp: find_key_def io_bind_def split: option.splits prod.splits result.splits)

lemma find_key_Ok_lookup: "find_key env kid v = (Ok key, v') \<Longrightarrow> key_lookup v' kid = Some key"
  by (auto simp: find_key_def io_bind_def result_simps split: option.splits prod.splits result.splits)

lemma verify_sign1_Ok:
  "verify_sign1 env sign1 v = (Ok (), v') \<longleftrightarrow>
   s1_alg sign1 = Some ES256 \<and> s1_crit sign1 = [] \<and> s1_key_id sign1 \<noteq> [] \<and>
   (\<exists>key. find_key env (s1_key_id sign1) v = (Ok key, v') \<and> verify_signature (ve_ext env) sign1 key)"
  by (auto simp: verify_sign1_def io_Ok_iffs ensure_def split: if_splits)

lemma verify_sign1_state:
  "snd (verify_sign1 env sign1 v) = v \<or> snd (verify_sign1 env sign1 v) = snd (refresh_keys env v)"
  using find_key_state[of env "s1_key_id sign1" v]
  by (auto simp: verify_sign1_def io_defs split: prod.splits result.splits)

lemma verify_with_state:
  "snd (verify_with env token now aud v) = v \<or>
   snd (verify_with env token now aud v) = snd (refresh_keys env v)"
proof (cases "decode_cwt (ve_ext env) token")
  case (Ok sign1)
  then show ?thesis
    using verify_sign1_state[of env sign1 v]
    by (auto simp: verify_with_def io_defs split: prod.splits result.splits)
qed (simp add: verify_with_def io_defs)

lemma check_claims_Ok:
  assumes "clock_ok now"
  shows "check_claims iss aud now c = Ok c' \<longleftrightarrow> c' = c \<and>
    (\<forall>e. iss = Some e \<longrightarrow> vc_iss c = e) \<and> (\<forall>a. aud = Some a \<longrightarrow> aud_contains (vc_aud c) a) \<and>
    vc_iat c \<le> vc_exp c \<and> now < vc_exp c + 60 \<and> vc_iat c \<le> now + 60 \<and>
    (\<forall>n. vc_nbf c = Some n \<longrightarrow> n \<le> now + 60)"
  using assms
  by (auto simp: check_claims_def sub_i64_clock add_i64_clock split: option.splits)

lemma verify_with_Ok:
  assumes "verify_with env token now aud v = (Ok c, v')"
  obtains sign1 key payload where "decode_cwt (ve_ext env) token = Ok sign1"
    and "verify_sign1 env sign1 v = (Ok (), v')" and "s1_payload sign1 = Some payload"
    and "parse_claims (ve_ext env) payload = Ok c"
    and "check_claims (cv_expected_iss v) aud now c = Ok c"
proof -
  from assms obtain sign1 payload where *: "decode_cwt (ve_ext env) token = Ok sign1"
    "verify_sign1 env sign1 v = (Ok (), v')" "s1_payload sign1 = Some payload"
    "parse_claims (ve_ext env) payload = Ok c" "check_claims (cv_expected_iss v') aud now c = Ok c"
    by (auto simp: verify_with_def io_Ok_iffs result_simps check_claims_def split: if_splits)
  moreover have "cv_expected_iss v' = cv_expected_iss v"
    using verify_sign1_state[of env sign1 v] refresh_keys_expected_iss[of env v] *(2) by auto
  ultimately show thesis using that by simp
qed

text \<open>C3: A bearer token is accepted exactly when it is tagged base64url holding a
  \<open>COSE_Sign1\<close> without content type, signed with ES256 under no critical header and with a key the
  verifier holds (or obtains by its one refresh) for the message's non-empty \<open>kid\<close>, whose payload
  parses to the returned claims, and the claims name the pinned issuer, contain the wanted audience
  and are inside their validity window with the 60 seconds of skew.\<close>

theorem verify_with_accepts_iff:
  assumes "clock_ok now"
  shows "fst (verify_with env token now aud v) = Ok c \<longleftrightarrow>
    (\<exists>inner sign1 payload key.
       b64url_decode (ve_ext env) (trim token) = Some (CWT_TAG_PREFIX @ inner) \<and>
       cose_sign1_from_slice (ve_ext env) inner = Some sign1 \<and> s1_content_type sign1 = None \<and>
       s1_alg sign1 = Some ES256 \<and> s1_crit sign1 = [] \<and> s1_key_id sign1 \<noteq> [] \<and>
       fst (find_key env (s1_key_id sign1) v) = Ok key \<and>
       verify_signature (ve_ext env) sign1 key \<and>
       s1_payload sign1 = Some payload \<and> parse_claims (ve_ext env) payload = Ok c) \<and>
    (\<forall>e. cv_expected_iss v = Some e \<longrightarrow> vc_iss c = e) \<and>
    (\<forall>a. aud = Some a \<longrightarrow> aud_contains (vc_aud c) a) \<and>
    vc_iat c \<le> vc_exp c \<and> now < vc_exp c + 60 \<and> vc_iat c \<le> now + 60 \<and>
    (\<forall>n. vc_nbf c = Some n \<longrightarrow> n \<le> now + 60)"
    (is "?l \<longleftrightarrow> ?r")
proof
  assume ?l
  then obtain v' where "verify_with env token now aud v = (Ok c, v')" by (metis prod.collapse)
  then show ?r
    using check_claims_Ok[OF assms]
    by (elim verify_with_Ok) (fastforce simp: decode_cwt_Ok verify_sign1_Ok)
next
  assume r: ?r
  then obtain sign1 payload key v' where
    s: "decode_cwt (ve_ext env) token = Ok sign1" "s1_payload sign1 = Some payload"
      "parse_claims (ve_ext env) payload = Ok c" "verify_sign1 env sign1 v = (Ok (), v')"
    by (auto simp: decode_cwt_Ok verify_sign1_Ok) (metis prod.collapse)
  have "cv_expected_iss v' = cv_expected_iss v"
    using verify_sign1_state[of env sign1 v] refresh_keys_expected_iss[of env v] s(4) by auto
  with r s check_claims_Ok[OF assms] show ?l
    by (simp add: verify_with_def fst_io_bind_Ok_iff io_lift_def)
qed


lemma claim_step_not_typ: "claim_step x (k, v) s = Ok u \<Longrightarrow> k \<noteq> CText ''typ''"
  by (auto simp: claim_step_def claim_text_def Let_def result_simps split: if_splits)

lemma claims_loop_no_typ:
  "fold_result (claim_step x) es s = Ok t \<Longrightarrow> CText ''typ'' \<notin> fst ` set es"
proof (induction es arbitrary: s)
  case (Cons e es)
  then obtain u where "claim_step x (fst e, snd e) s = Ok u" "fold_result (claim_step x) es u = Ok t"
    by (auto simp: result_simps)
  then show ?case using Cons.IH[of u] claim_step_not_typ[of x "fst e" "snd e" s u] by auto
qed simp

lemma claims_finish_Ok:
  "claims_finish s = Ok c \<Longrightarrow>
   cs_iss s = Some (vc_iss c) \<and> vc_iss c \<noteq> [] \<and> cs_sub s = Some (vc_sub c) \<and> vc_sub c \<noteq> [] \<and>
   cs_aud s = Some (vc_aud c) \<and> cs_exp s = Some (vc_exp c) \<and> cs_iat s = Some (vc_iat c) \<and>
   cs_nbf s = vc_nbf c \<and> cs_cti s = Some (vc_cti c) \<and> vc_cti c \<noteq> [] \<and>
   cs_arkavo_entitlements s = vc_arkavo_entitlements c \<and> cs_email s = vc_email c"
  by (auto simp: claims_finish_def non_empty_def result_simps split: if_splits option.splits)

lemma parse_claims_Ok:
  assumes "parse_claims x payload = Ok c"
  obtains es s where "cbor_from_reader x payload = Some (CMap es)"
    and "fold_result (claim_step x) es claims_start = Ok s" and "claims_finish s = Ok c"
proof -
  from assms obtain w where "cbor_from_reader x payload = Some w"
    by (auto simp: parse_claims_def result_simps)
  with assms that show thesis by (cases w) (auto simp: parse_claims_def result_simps)
qed


text \<open>The calls of a running verifier, and the instants at which they ask for the key set.\<close>

fun fetch_times ::
  "(verify_env \<times> string \<times> int \<times> string option) list \<Rightarrow> CwtVerifier \<Rightarrow> nat list" where
  "fetch_times [] v = []"
| "fetch_times ((env, token, now, aud) # calls) v =
     (let v' = snd (verify_with env token now aud v) in
      (if kc_last_fetch (cv_cache v') \<noteq> kc_last_fetch (cv_cache v) then [ve_instant env] else [])
      @ fetch_times calls v')"

lemma fetch_times_spaced:
  assumes "sorted (map (\<lambda>c. ve_instant (fst c)) calls)"
  shows "sorted_wrt (\<lambda>a b. a + KEY_REFRESH_MIN_INTERVAL \<le> b) (fetch_times calls v) \<and>
    (\<forall>t\<in>set (fetch_times calls v).
       (\<forall>l. kc_last_fetch (cv_cache v) = Some l \<longrightarrow> l + KEY_REFRESH_MIN_INTERVAL \<le> t))"
  using assms
proof (induction calls v rule: fetch_times.induct)
  case (2 env token now aud calls v)
  let ?v = "snd (verify_with env token now aud v)"
  have ih: "sorted_wrt (\<lambda>a b. a + KEY_REFRESH_MIN_INTERVAL \<le> b) (fetch_times calls ?v)"
    "\<forall>t\<in>set (fetch_times calls ?v). \<forall>l. kc_last_fetch (cv_cache ?v) = Some l \<longrightarrow> l + KEY_REFRESH_MIN_INTERVAL \<le> t"
    using "2.IH"[OF refl] "2.prems" by auto
  consider "?v = v"
    | "\<not> refresh_limited env v" "kc_last_fetch (cv_cache ?v) = Some (ve_instant env)"
    using verify_with_state[of env token now aud v] refresh_keys_cases[of env v] by metis
  then show ?case
  proof cases
    case 2
    have old: "l + KEY_REFRESH_MIN_INTERVAL \<le> ve_instant env" if "kc_last_fetch (cv_cache v) = Some l" for l
      using 2(1) that by (auto simp: refresh_limited_def elapsed_def KEY_REFRESH_MIN_INTERVAL_def from_secs_def)
    have new: "ve_instant env + KEY_REFRESH_MIN_INTERVAL \<le> t" if "t \<in> set (fetch_times calls ?v)" for t
      using ih(2) 2(2) that by blast
    have "l + KEY_REFRESH_MIN_INTERVAL \<le> t"
      if "kc_last_fetch (cv_cache v) = Some l" "t \<in> set (fetch_times calls ?v)" for l t
      using old[OF that(1)] new[OF that(2)] by linarith
    with old new ih(1) show ?thesis by (simp add: Let_def)
  qed (use ih in \<open>simp add: Let_def\<close>)
qed simp




section \<open>Key sets, devices, entitlements\<close>

lemma refresh_keys_Err_keys:
  "fst (refresh_keys env v) = Err e \<Longrightarrow> kc_keys (cv_cache (snd (refresh_keys env v))) = kc_keys (cv_cache v)"
  by (auto simp: refresh_keys_def Let_def split: option.splits if_splits result.splits)

lemma refresh_keys_Ok_keys:
  assumes "cv_cose_keys_url v = Some url" and "\<not> refresh_limited env v" and "fetch_keys env url = Ok keys"
  shows "fst (refresh_keys env v) = Ok ()"
    and "kc_keys (cv_cache (snd (refresh_keys env v))) = tcollect Some keys []"
  using assms by (auto simp: refresh_keys_def Let_def)

text \<open>A failing key-set endpoint never takes a key away: after a refresh that fails, every key
  the verifier held still answers, without another request.\<close>

theorem failed_refresh_keeps_keys:
  assumes "fst (refresh_keys env v) = Err e" and "key_lookup v kid = Some key"
  shows "find_key env' kid (snd (refresh_keys env v)) = (Ok key, snd (refresh_keys env v))"
  using refresh_keys_Err_keys[OF assms(1)] assms(2) by (simp add: find_key_def key_lookup_def)

lemma p256_from_cose_key_Ok:
  "p256_from_cose_key x key = Ok vk \<Longrightarrow>
   \<exists>px py. length px = 32 \<and> length py = 32 \<and> from_sec1_bytes x ([CHR 0x04] @ px @ py) = Some vk"
  by (auto simp: p256_from_cose_key_def Let_def result_simps split: if_splits)

lemma cose_key_entries_usable:
  "(kid, vk) \<in> set (cose_key_entries x entries) \<Longrightarrow>
   kid \<noteq> [] \<and> (\<exists>px py. length px = 32 \<and> length py = 32 \<and>
     from_sec1_bytes x ([CHR 0x04] @ px @ py) = Some vk)"
proof (induction entries)
  case (Cons e entries)
  then show ?case
    using p256_from_cose_key_Ok[of x _ vk]
    by (auto split: option.splits result.splits if_splits)
qed simp

lemma verify_device_Ok:
  assumes "verify_device env token now v = (Ok c, v')"
  shows "verify_with env token now (Some DEVICECHECK_AUD) v = (Ok c, v')"
    and "\<exists>k. vc_kid c = Some k \<and> k \<noteq> []"
  using assms by (auto simp: verify_device_def io_Ok_iffs split: if_splits)

lemma those_map_entitlement:
  "those (map entitlement a) = Some ss \<longleftrightarrow> a = map CText ss \<and> (\<forall>s\<in>set ss. length s \<le> MAX_ENTITLEMENT_BYTES)"
proof (induction a arbitrary: ss)
  case (Cons v a)
  then show ?case by (cases v; cases ss) auto
qed auto

lemma entitlements_bounds:
  "length (entitlements a) \<le> 500 \<and> (\<forall>s\<in>set (entitlements a). length s \<le> 256) \<and>
   (entitlements a \<noteq> [] \<longrightarrow> a = map CText (entitlements a))"
proof (cases "those (map entitlement a)")
  case (Some ss)
  then show ?thesis
    using those_map_entitlement[of a ss] by (simp add: entitlements_def)
qed (simp add: entitlements_def)

lemma claim_integer_entitlements:
  "claim_integer x k v s = Ok t \<Longrightarrow> cs_arkavo_entitlements t = cs_arkavo_entitlements s"
  by (auto simp: claim_integer_def result_simps split: if_splits cbor.splits)

lemma claim_text_entitlements:
  "claim_text x k v s = Ok t \<Longrightarrow>
   cs_arkavo_entitlements t = cs_arkavo_entitlements s \<or> (\<exists>a. cs_arkavo_entitlements t = entitlements a)"
  by (auto simp: claim_text_def Let_def result_simps split: if_splits cbor.splits)

lemma claim_step_entitlements:
  "claim_step x (k, v) s = Ok t \<Longrightarrow>
   cs_arkavo_entitlements t = cs_arkavo_entitlements s \<or> (\<exists>a. cs_arkavo_entitlements t = entitlements a)"
  by (cases k) (auto simp: claim_step_def Let_def result_simps split: if_splits
      dest!: claim_integer_entitlements claim_text_entitlements)

lemma claims_loop_entitlements:
  assumes "fold_result (claim_step x) es claims_start = Ok t"
  shows "\<exists>a. cs_arkavo_entitlements t = entitlements a"
proof (rule fold_result_invariant[OF assms, where I = "\<lambda>_ s. \<exists>a. cs_arkavo_entitlements s = entitlements a"])
  show "\<exists>a. cs_arkavo_entitlements claims_start = entitlements a"
    by (intro exI[of _ "[]"]) (simp add: claims_start_def entitlements_def)
  show "\<exists>a. cs_arkavo_entitlements v = entitlements a"
    if "\<exists>a. cs_arkavo_entitlements u = entitlements a" "claim_step x e u = Ok v" for e u v
    using that claim_step_entitlements[of x "fst e" "snd e" u v] by auto
qed

text \<open>The forwarding conversion drops a map entry whose key is not text.\<close>

lemma cbor_to_json_drops_integer_keys: "cbor_to_json x (CMap [(CInteger n, v)]) = JObject []"
  by simp

lemma cbor_to_json_integer_inject:
  "cbor_to_json x (CInteger a) = cbor_to_json x (CInteger b) \<longleftrightarrow> a = b"
  by auto


section \<open>A sample environment\<close>

text \<open>
  Concrete decoders and keys under which tokens verify: a token is \<open>T.\<close> and its payload, a message is its
  payload signed by key \<open>k1\<close>, and three payloads decode: a person's, a device's and an operator's.
\<close>

definition sample_person :: "(cbor \<times> cbor) list" where
  "sample_person = [(CInteger 1, CText ''idp''), (CInteger 2, CText ''alice''), (CInteger 3, CText ''node''),
     (CInteger 4, CInteger 2000), (CInteger 6, CInteger 1000), (CInteger 5, CInteger 1000),
     (CInteger 7, CBytes ''id'')]"

definition sample_device :: "(cbor \<times> cbor) list" where
  "sample_device = [(CInteger 1, CText ''idp''), (CInteger 2, CText ''arkavo:alice''),
     (CInteger 3, CArray [CText ''arkavo:devicecheck'', CText ''platform'']),
     (CInteger 4, CInteger 2000), (CInteger 6, CInteger 1000), (CInteger 7, CBytes ''id''),
     (CInteger 8, CMap [(CInteger 3, CBytes ''dk'')])]"

definition sample_operator :: "(cbor \<times> cbor) list" where
  "sample_operator = [(CInteger 1, CText ''idp''), (CInteger 2, CText ''client:mod''), (CInteger 3, CText ''mod''),
     (CInteger 4, CInteger 2000), (CInteger 6, CInteger 1000), (CInteger 7, CBytes ''id''),
     (CText ''arkavo_roles'', CArray [CText ''service-account''])]"

definition sample_ext :: auth_ext where
  "sample_ext = \<lparr>b64url_decode = (\<lambda>s. map_option ((@) CWT_TAG_PREFIX) (strip_prefix ''T.'' s)), b64url_encode = id, b64_encode = id,
     cose_sign1_from_slice = (\<lambda>b. Some \<lparr>s1_alg = Some ES256, s1_crit = [], s1_key_id = ''k1'',
       s1_content_type = None, s1_payload = Some b, s1_protected = [], s1_signature = ''sig''\<rparr>),
     sig_structure = (\<lambda>s aad. case s1_payload s of Some p \<Rightarrow> p | None \<Rightarrow> []),
     cose_key_from_cbor = (\<lambda>_. None),
     cbor_from_reader = (\<lambda>b. if b = ''person'' then Some (CMap sample_person)
                             else if b = ''device'' then Some (CMap sample_device)
                             else if b = ''operator'' then Some (CMap sample_operator) else None),
     signature_from_slice = Some, ecdsa_verify = (\<lambda>key data sig. key = ''pub'' \<and> sig = ''sig''),
     from_sec1_bytes = Some, cbor_debug = (\<lambda>_. [])\<rparr>"

definition sample_env :: verify_env where
  "sample_env = \<lparr>ve_ext = sample_ext, ve_instant = 7, ve_key_set = Http_Failed ''refused''\<rparr>"

definition sample_verifier :: CwtVerifier where
  "sample_verifier = with_expected_issuer (with_static_keys [(''k1'', ''pub'')]) ''idp''"

definition sample_token :: "string \<Rightarrow> string" where
  "sample_token payload = ''T.'' @ payload"

definition sample_claims :: VerifiedClaims where
  "sample_claims = \<lparr>vc_iss = ''idp'', vc_sub = ''alice'', vc_aud = One ''node'', vc_exp = 2000,
     vc_iat = 1000, vc_nbf = Some 1000, vc_cti = ''id'', vc_kid = None, vc_patreon_user_id = None,
     vc_email = None, vc_email_verified = None, vc_idp = None, vc_arkavo_account_id = None,
     vc_arkavo_roles = None, vc_arkavo_entitlements = [], vc_client_id = None, vc_arkavo_patreon = None\<rparr>"

definition sample_device_claims :: VerifiedClaims where
  "sample_device_claims = sample_claims\<lparr>vc_sub := ''arkavo:alice'',
     vc_aud := Many [''arkavo:devicecheck'', ''platform''], vc_nbf := None, vc_kid := Some ''dk''\<rparr>"

lemma sample_parse_person: "parse_claims sample_ext ''person'' = Ok sample_claims"
  by code_simp

lemma sample_verify_person:
  "verify_with sample_env (sample_token ''person'') 1500 None sample_verifier = (Ok sample_claims, sample_verifier)"
  by code_simp

lemma sample_verify_device:
  "verify_device sample_env (sample_token ''device'') 1500 sample_verifier = (Ok sample_device_claims, sample_verifier)"
  by code_simp

theorem verify_with_accepts_iff_witness:
  "clock_ok 1500 \<and>
   (\<exists>inner. b64url_decode sample_ext (trim (sample_token ''person'')) = Some (CWT_TAG_PREFIX @ inner)) \<and>
   vc_iss sample_claims = ''idp'' \<and> (1500::int) < vc_exp sample_claims + 60"
proof -
  have c: "clock_ok 1500" by (simp add: clock_ok_def)
  have e: "ve_ext sample_env = sample_ext" "vc_iss sample_claims = ''idp''" by (simp_all add: sample_env_def sample_claims_def)
  show ?thesis
    using verify_with_accepts_iff[OF c, of sample_env "sample_token ''person''" None sample_verifier sample_claims] c
    by (auto simp: sample_verify_person e)
qed




theorem failed_refresh_keeps_keys_witness:
  "find_key sample_env ''k1'' (snd (refresh_keys sample_env (sample_verifier\<lparr>cv_cose_keys_url := Some ''u''\<rparr>)))
   = (Ok ''pub'', snd (refresh_keys sample_env (sample_verifier\<lparr>cv_cose_keys_url := Some ''u''\<rparr>)))"
proof -
  have r: "fst (refresh_keys sample_env (sample_verifier\<lparr>cv_cose_keys_url := Some ''u''\<rparr>))
      = Err (KeySet ''GET u: refused'')" by code_simp
  have k: "key_lookup (sample_verifier\<lparr>cv_cose_keys_url := Some ''u''\<rparr>) ''k1'' = Some ''pub''" by code_simp
  show ?thesis by (rule failed_refresh_keeps_keys[OF r k])
qed

end
