(* ===== verification/Authz.thy ===== *)
theory Authz
  imports Json
begin

text \<open>
  Decision requests and the two decision-service clients (\<open>src/authz.rs\<close>): the OpenTDF v2 client and
  the AuthZEN client with its discovery, batching and pairing of answers. HTTP, the response
  decoders, and URL and address parsing are the fields of \<open>authz_net\<close>. Monotonic instants are
  unbounded, so adding a lifetime to one never overflows.
\<close>

section \<open>Requests and decisions\<close>

datatype EntityKind = Subject | Device | Environment

record ChainEntity =
  ce_kind :: EntityKind
  ce_token :: "string option"
  ce_claims :: json

definition is_subject :: "ChainEntity \<Rightarrow> bool" where
  "is_subject e \<longleftrightarrow> ce_kind e = Subject"

datatype ResourceType = CatalogItem | Publisher

fun resource_type_str :: "ResourceType \<Rightarrow> string" where
  "resource_type_str CatalogItem = ''catalog_item''"
| "resource_type_str Publisher = ''publisher''"

type_synonym resource = "string \<times> string list"

record DecisionRequest =
  dr_chain :: "ChainEntity list"
  dr_action :: string
  dr_resource_type :: ResourceType
  dr_resources :: "resource list"

type_synonym Decisions = "(string, bool) table"

datatype EntityMode = Claims | Token

definition entity_mode_from_str :: "string \<Rightarrow> (EntityMode, string) result" where
  "entity_mode_from_str s =
     (let l = to_ascii_lowercase s in
      if l = ''claims'' \<or> l = [] then Ok Claims
      else if l = ''token'' then Ok Token
      else Err (''invalid entity_mode '' @ l))"

datatype AuthzProtocol = OpentdfV2 | Authzen

definition authz_protocol_from_str :: "string \<Rightarrow> (AuthzProtocol, string) result" where
  "authz_protocol_from_str s =
     (let l = to_ascii_lowercase s in
      if l = ''authzen'' \<or> l = [] then Ok Authzen
      else if l = ''opentdf-v2'' then Ok OpentdfV2
      else Err (''invalid protocol '' @ l))"

datatype ServiceCredential =
    Static string
  | ClientCredentials string string string
  | NoCredential

definition TOKEN_REFRESH_MARGIN :: nat where
  "TOKEN_REFRESH_MARGIN = from_secs 60"

record CachedToken =
  ct_token :: string
  ct_expires_at :: nat

record EvaluationEntry =
  ee_decision :: bool
  ee_context :: "json option"

record ResourceDecision =
  rd_ephemeral_resource_id :: string
  rd_decision :: string

text \<open>The parts of a parsed URL the code compares.\<close>

record url_parts =
  url_scheme :: string
  url_host :: "string option"
  url_port :: "nat option"

text \<open>What a request answers: a transport failure, or a status and a body.\<close>

datatype reply = Reply_Failed string | Reply nat bytes

definition reply_success :: "nat \<Rightarrow> bool" where
  "reply_success status \<longleftrightarrow> 200 \<le> status \<and> status < 300"

record authz_net =
  az_get :: "string \<Rightarrow> reply"
  az_post :: "string \<Rightarrow> json \<Rightarrow> string option \<Rightarrow> reply"
  az_token_post :: "string \<Rightarrow> string \<Rightarrow> string \<Rightarrow> reply"
  az_decode_token :: "bytes \<Rightarrow> (string \<times> nat) option"
  az_decode_discovery :: "bytes \<Rightarrow> string option option"
  az_decode_evaluations :: "bytes \<Rightarrow> EvaluationEntry list option"
  az_decode_multi :: "bytes \<Rightarrow> ResourceDecision list option"
  az_url_parse :: "string \<Rightarrow> url_parts option"
  az_loopback_ip :: "string \<Rightarrow> bool"
  az_instant :: nat
  az_minted :: nat

definition trim_end_char :: "char \<Rightarrow> string \<Rightarrow> string" where
  "trim_end_char c s = rev (dropWhile (\<lambda>d. d = c) (rev s))"

definition trim_start_char :: "char \<Rightarrow> string \<Rightarrow> string" where
  "trim_start_char c s = dropWhile (\<lambda>d. d = c) s"

text \<open>The \<open>json!\<close> object literal.\<close>

definition obj :: "json_map \<Rightarrow> json" where
  "obj kvs = JObject (fold (\<lambda>(k, v) m. obj_insert k v m) kvs [])"


section \<open>Service credential\<close>

definition service_bearer ::
  "authz_net \<Rightarrow> ServiceCredential \<Rightarrow> (CachedToken option, string option, string) io" where
  "service_bearer net credential cache = (case credential of
       NoCredential \<Rightarrow> (Ok None, cache)
     | Static token \<Rightarrow> (Ok (Some token), cache)
     | ClientCredentials token_url client_id client_secret \<Rightarrow>
         if (case cache of Some c \<Rightarrow> az_instant net < ct_expires_at c | None \<Rightarrow> False)
         then (Ok (map_option ct_token cache), cache)
         else (case az_token_post net token_url client_id client_secret of
             Reply_Failed e \<Rightarrow> (Err (''token POST '' @ token_url), cache)
           | Reply status body \<Rightarrow>
               if \<not> reply_success status then (Err (''token endpoint returned '' @ show_nat status), cache)
               else (case az_decode_token net body of
                   None \<Rightarrow> (Err ''token JSON parse'', cache)
                 | Some (access_token, expires_in) \<Rightarrow>
                     (let ttl = from_secs (max expires_in 120);
                          expires_at = az_minted net + (ttl - TOKEN_REFRESH_MARGIN) in
                      (Ok (Some access_token),
                       Some \<lparr>ct_token = access_token, ct_expires_at = expires_at\<rparr>)))))"


section \<open>The OpenTDF v2 client\<close>

record ConnectAuthzClient =
  co_endpoint :: string
  co_credential :: ServiceCredential
  co_entity_mode :: EntityMode
  co_token_cache :: "CachedToken option"

definition connect_new :: "string \<Rightarrow> ServiceCredential \<Rightarrow> EntityMode \<Rightarrow> ConnectAuthzClient" where
  "connect_new endpoint credential mode =
     \<lparr>co_endpoint = trim_end_char (CHR ''/'') endpoint, co_credential = credential,
      co_entity_mode = mode, co_token_cache = None\<rparr>"

definition connect_bearer ::
  "authz_net \<Rightarrow> (ConnectAuthzClient, string option, string) io" where
  "connect_bearer net c =
     (case service_bearer net (co_credential c) (co_token_cache c) of
        (r, cache) \<Rightarrow> (r, c\<lparr>co_token_cache := cache\<rparr>))"

definition connect_entity :: "nat \<Rightarrow> ChainEntity \<Rightarrow> json" where
  "connect_entity i e = obj
     [(''ephemeralId'', JString (''e'' @ show_nat i)),
      (''category'', JString (if is_subject e then ''CATEGORY_SUBJECT'' else ''CATEGORY_ENVIRONMENT'')),
      (''claims'', obj [(''@type'', JString ''type.googleapis.com/google.protobuf.Struct''),
                        (''value'', ce_claims e)])]"

definition build_request :: "ConnectAuthzClient \<Rightarrow> DecisionRequest \<Rightarrow> (json, string) result" where
  "build_request c req =
     and_then (ok_or ''decision request has no subject entity'' (find is_subject (dr_chain req))) (\<lambda>pe.
     and_then (case co_entity_mode c of
         Token \<Rightarrow> and_then (ok_or ''subject entity has no token (entity_mode = token)'' (ce_token pe))
           (\<lambda>pe_token. Ok (obj [(''token'', obj [(''ephemeralId'', JString ''pe''), (''jwt'', JString pe_token)])]))
       | Claims \<Rightarrow> Ok (obj [(''entityChain'', obj [(''ephemeralId'', JString ''chain''),
           (''entities'', JArray (map (\<lambda>(i, e). connect_entity i e) (enumerate 0 (dr_chain req))))])]))
       (\<lambda>entity_identifier. Ok (obj
         [(''entityIdentifier'', entity_identifier),
          (''action'', obj [(''name'', JString (dr_action req))]),
          (''resources'', JArray (map (\<lambda>(id, fqns). obj
             [(''ephemeralId'', JString id),
              (''attributeValues'', obj [(''fqns'', JArray (map JString fqns))])]) (dr_resources req)))])))"

definition connect_url :: "ConnectAuthzClient \<Rightarrow> string" where
  "connect_url c = co_endpoint c @ ''/authorization.v2.AuthorizationService/GetDecisionMultiResource''"

definition connect_decide ::
  "authz_net \<Rightarrow> DecisionRequest \<Rightarrow> (ConnectAuthzClient, Decisions, string) io" where
  "connect_decide net req c =
     io_bind (io_lift (build_request c req)) (\<lambda>body.
     io_bind (connect_bearer net) (\<lambda>token.
       io_lift (case az_post net (connect_url c) body token of
           Reply_Failed e \<Rightarrow> Err (''authorization POST '' @ connect_url c)
         | Reply status text \<Rightarrow>
             if \<not> reply_success status
             then Err (''authorization service returned '' @ show_nat status @ '': '' @ text)
             else and_then (ok_or ''authorization response JSON parse'' (az_decode_multi net text))
               (\<lambda>ds. Ok (tcollect Some (map (\<lambda>d. (rd_ephemeral_resource_id d,
                                                      rd_decision d = ''DECISION_PERMIT'')) ds) []))))) c"


section \<open>The AuthZEN request\<close>

definition PATREON_ALLOWED :: "string list" where
  "PATREON_ALLOWED = [''role'', ''patreon_user_id'', ''memberships'', ''verified_at'', ''cache_expires_at'']"

definition sanitize_patreon :: "json \<Rightarrow> json" where
  "sanitize_patreon p = (case json_as_object p of
       None \<Rightarrow> JObject []
     | Some m \<Rightarrow>
         (let out = fold (\<lambda>k out. obj_insert_opt k (map_of m k) out) PATREON_ALLOWED [] in
          JObject (if Option.bind (map_of m ''role'') json_as_str = Some ''creator''
                   then obj_insert_opt ''campaign_id'' (map_of m ''campaign_id'') out else out)))"

definition insert_claim :: "json \<Rightarrow> string \<Rightarrow> json_map \<Rightarrow> json_map" where
  "insert_claim claims key out = obj_insert_opt key (json_get key claims) out"

definition authzen_subject :: "ChainEntity \<Rightarrow> json" where
  "authzen_subject pe =
     (let properties = fold (insert_claim (ce_claims pe))
            [''iss'', ''email'', ''email_verified'', ''idp'', ''arkavo_account_id'', ''arkavo_roles'',
             ''arkavo_entitlements'', ''client_id''] [];
          properties = obj_insert_opt ''arkavo_patreon''
            (map_option sanitize_patreon (json_get ''arkavo_patreon'' (ce_claims pe))) properties in
      obj [(''type'', JString ''identity''),
           (''id'', (case json_get ''sub'' (ce_claims pe) of Some v \<Rightarrow> v | None \<Rightarrow> JNull)),
           (''properties'', JObject properties)])"

definition str_or_empty :: "string \<Rightarrow> json \<Rightarrow> json" where
  "str_or_empty k claims = JString (case json_get_str k claims of Some s \<Rightarrow> s | None \<Rightarrow> [])"

definition allowlist_device :: "ChainEntity \<Rightarrow> json" where
  "allowlist_device device =
     (let claims = ce_claims device in
      obj ([(''sub'', str_or_empty ''sub'' claims), (''iss'', str_or_empty ''iss'' claims),
            (''aud'', str_or_empty ''aud'' claims), (''kid'', str_or_empty ''kid'' claims)]
           @ (case ce_token device of Some token \<Rightarrow> [(''token'', JString token)] | None \<Rightarrow> [])))"

definition allowlist_environment :: "json \<Rightarrow> json" where
  "allowlist_environment claims = JObject (case json_as_object claims of
       None \<Rightarrow> []
     | Some m \<Rightarrow> obj_insert_opt ''kind'' (map_of m ''kind'') (obj_insert_opt ''region'' (map_of m ''region'') []))"

definition authzen_context :: "ChainEntity list \<Rightarrow> json" where
  "authzen_context chain =
     (let devices = filter (\<lambda>e. ce_kind e = Device) chain;
          ctx = (case devices of
              [] \<Rightarrow> []
            | [d] \<Rightarrow> obj_insert ''device'' (allowlist_device d) []
            | _ \<Rightarrow> obj_insert ''devices'' (JArray (map allowlist_device devices)) []);
          ctx = (case find (\<lambda>e. ce_kind e = Environment) chain of
              Some env \<Rightarrow> obj_insert ''environment'' (allowlist_environment (ce_claims env)) ctx
            | None \<Rightarrow> ctx) in
      JObject (obj_insert ''pep'' (obj [(''fulfillable_obligation_fqns'', JArray [])]) ctx))"

definition build_authzen_request :: "DecisionRequest \<Rightarrow> (json, string) result" where
  "build_authzen_request req =
     and_then (ok_or ''decision request has no subject entity'' (find is_subject (dr_chain req))) (\<lambda>pe.
       if dr_resources req = [] then Err ''empty resources must not be posted''
       else Ok (obj
         [(''subject'', authzen_subject pe),
          (''action'', obj [(''name'', JString (dr_action req))]),
          (''context'', authzen_context (dr_chain req)),
          (''evaluations'', JArray (map (\<lambda>(id, fqns). obj [(''resource'', obj
             [(''type'', JString (resource_type_str (dr_resource_type req))),
              (''id'', JString id),
              (''properties'', obj [(''attribute_value_fqns'', JArray (map JString fqns))])])])
             (dr_resources req))),
          (''options'', obj [(''evaluations_semantic'', JString ''execute_all'')])]))"


section \<open>The AuthZEN client\<close>

record AuthZenClient =
  zc_endpoint :: string
  zc_credential :: ServiceCredential
  zc_token_cache :: "CachedToken option"
  zc_evaluations_url :: "string option"

definition authzen_new :: "string \<Rightarrow> ServiceCredential \<Rightarrow> AuthZenClient" where
  "authzen_new endpoint credential =
     \<lparr>zc_endpoint = trim_end_char (CHR ''/'') endpoint, zc_credential = credential,
      zc_token_cache = None, zc_evaluations_url = None\<rparr>"

definition authzen_bearer :: "authz_net \<Rightarrow> (AuthZenClient, string option, string) io" where
  "authzen_bearer net c =
     (case service_bearer net (zc_credential c) (zc_token_cache c) of
        (r, cache) \<Rightarrow> (r, c\<lparr>zc_token_cache := cache\<rparr>))"

definition MAX_EVALUATIONS :: nat where
  "MAX_EVALUATIONS = 500"

definition https_or_loopback :: "authz_net \<Rightarrow> string \<Rightarrow> bool" where
  "https_or_loopback net url = (case az_url_parse net url of
       None \<Rightarrow> False
     | Some u \<Rightarrow>
         if url_scheme u = ''https'' then True
         else if url_scheme u = ''http'' then
           (case url_host u of
              None \<Rightarrow> False
            | Some h \<Rightarrow> h = ''localhost'' \<or>
                az_loopback_ip net (trim_end_char (CHR '']'') (trim_start_char (CHR ''['') h)))
         else False)"

definition same_origin :: "authz_net \<Rightarrow> string \<Rightarrow> string \<Rightarrow> bool" where
  "same_origin net url base = (case (az_url_parse net url, az_url_parse net base) of
       (Some u, Some b) \<Rightarrow> url_scheme u = url_scheme b \<and> url_host u = url_host b \<and> url_port u = url_port b
     | _ \<Rightarrow> False)"

definition evaluations_endpoint :: "authz_net \<Rightarrow> (AuthZenClient, string, string) io" where
  "evaluations_endpoint net c = (case zc_evaluations_url c of
       Some url \<Rightarrow> (Ok url, c)
     | None \<Rightarrow>
         (let well_known = zc_endpoint c @ ''/.well-known/authzen-configuration'' in
          case az_get net well_known of
            Reply_Failed e \<Rightarrow> (Err (''AuthZEN discovery GET '' @ well_known), c)
          | Reply status body \<Rightarrow>
              if \<not> reply_success status then (Err (''AuthZEN discovery returned '' @ show_nat status), c)
              else (case az_decode_discovery net body of
                  None \<Rightarrow> (Err ''AuthZEN discovery JSON'', c)
                | Some ep \<Rightarrow>
                    (case ep of
                       None \<Rightarrow> (Err ''discovery missing access_evaluations_endpoint'', c)
                     | Some url \<Rightarrow>
                         if url = [] then (Err ''discovery missing access_evaluations_endpoint'', c)
                         else if \<not> same_origin net url (zc_endpoint c)
                         then (Err (''discovered access_evaluations_endpoint '' @ url @ '' is not on '' @ zc_endpoint c), c)
                         else if \<not> https_or_loopback net url
                         then (Err (''discovered access_evaluations_endpoint '' @ url @ '' is not https''), c)
                         else (Ok url, c\<lparr>zc_evaluations_url := Some url\<rparr>)))))"

definition required_obligations_nonempty :: "json option \<Rightarrow> bool" where
  "required_obligations_nonempty context =
     (case Option.bind (Option.bind context (json_get ''obligations'')) (json_get ''required'') of
        None \<Rightarrow> False
      | Some (JArray a) \<Rightarrow> a \<noteq> []
      | Some _ \<Rightarrow> True)"

definition evaluation_entitled :: "bool \<Rightarrow> json option \<Rightarrow> bool" where
  "evaluation_entitled decision context \<longleftrightarrow> decision \<and> \<not> required_obligations_nonempty context"

definition map_evaluations :: "resource list \<Rightarrow> EvaluationEntry list \<Rightarrow> (Decisions, string) result" where
  "map_evaluations resources evaluations =
     (if length evaluations \<noteq> length resources
      then Err (''AuthZEN returned '' @ show_nat (length evaluations) @ '' evaluations for '' @
                show_nat (length resources) @ '' resources'')
      else Ok (tcollect Some (map (\<lambda>((id, _), e). (id, evaluation_entitled (ee_decision e) (ee_context e)))
                 (zip resources evaluations)) []))"

definition decide_batch ::
  "authz_net \<Rightarrow> string \<Rightarrow> DecisionRequest \<Rightarrow> (AuthZenClient, Decisions, string) io" where
  "decide_batch net url req =
     io_bind (io_lift (build_authzen_request req)) (\<lambda>body.
     io_bind (authzen_bearer net) (\<lambda>token.
       io_lift (case az_post net url body token of
           Reply_Failed e \<Rightarrow> Err (''AuthZEN POST '' @ url)
         | Reply status text \<Rightarrow>
             if \<not> reply_success status then Err (''AuthZEN evaluations returned '' @ show_nat status)
             else and_then (ok_or ''AuthZEN response JSON'' (az_decode_evaluations net text))
               (map_evaluations (dr_resources req)))))"

text \<open>\<open>slice::chunks\<close>.\<close>

function chunks :: "nat \<Rightarrow> 'a list \<Rightarrow> 'a list list" where
  "chunks n xs = (if n = 0 \<or> xs = [] then [] else take n xs # chunks n (drop n xs))"
  by pat_completeness auto
termination by (relation "measure (length \<circ> snd)") auto

declare chunks.simps [simp del]

fun decide_chunks ::
  "authz_net \<Rightarrow> string \<Rightarrow> DecisionRequest \<Rightarrow> resource list list \<Rightarrow> Decisions \<Rightarrow>
   (AuthZenClient, Decisions, string) io" where
  "decide_chunks net url req [] decisions = io_return decisions"
| "decide_chunks net url req (chunk # rest) decisions =
     io_bind (decide_batch net url (req\<lparr>dr_resources := chunk\<rparr>)) (\<lambda>part.
       decide_chunks net url req rest (tcollect Some part decisions))"

definition authzen_decide ::
  "authz_net \<Rightarrow> DecisionRequest \<Rightarrow> (AuthZenClient, Decisions, string) io" where
  "authzen_decide net req =
     (if dr_resources req = [] then io_return []
      else io_bind (evaluations_endpoint net) (\<lambda>url.
        decide_chunks net url req (chunks MAX_EVALUATIONS (dr_resources req)) []))"



section \<open>Allowlists\<close>

lemma json_get_obj_insert_opts:
  "map_of (fold (\<lambda>k out. obj_insert_opt k (f k) out) ks out) k =
   (if k \<in> set ks \<and> f k \<noteq> None then f k else map_of out k)"
  by (induction ks arbitrary: out) (auto simp: map_of_obj_insert_opt)

text \<open>The Patreon claim forwarded to the decision service has exactly the allowlisted fields of
  the verified claim, unchanged, and \<open>campaign_id\<close> only for a creator; anything else an issuer adds
  is dropped.\<close>

theorem sanitize_patreon_fields:
  "json_get k (sanitize_patreon p) =
     (if k \<in> {''role'', ''patreon_user_id'', ''memberships'', ''verified_at'', ''cache_expires_at''} \<or>
         (k = ''campaign_id'' \<and> json_get_str ''role'' p = Some ''creator'')
      then json_get k p else None)"
proof (cases p)
  case (JObject m)
  let ?out = "fold (\<lambda>k out. obj_insert_opt k (map_of m k) out) PATREON_ALLOWED []"
  have "map_of ?out k = (if k \<in> set PATREON_ALLOWED then map_of m k else None)" for k
    by (auto simp: json_get_obj_insert_opts)
  then show ?thesis
    by (auto simp: JObject sanitize_patreon_def Let_def map_of_obj_insert_opt json_get_str_def PATREON_ALLOWED_def)
qed (auto simp: sanitize_patreon_def)


section \<open>Batches\<close>

lemma chunks_concat: "0 < n \<Longrightarrow> concat (chunks n xs) = xs"
  by (induction n xs rule: chunks.induct) (subst chunks.simps, simp)

lemma chunks_members: "c \<in> set (chunks n xs) \<Longrightarrow> c \<noteq> [] \<and> length c \<le> n"
proof (induction n xs rule: chunks.induct)
  case (1 n xs)
  then show ?case by (subst (asm) (2) chunks.simps) (auto split: if_splits)
qed

text \<open>What a permit of the AuthZEN client rests on: an answered request about a batch of the
  resources, with one evaluation per resource, whose evaluation at the resource's position says yes
  and requires no obligation.\<close>

definition authzen_granted :: "authz_net \<Rightarrow> string \<Rightarrow> DecisionRequest \<Rightarrow> string \<Rightarrow> bool" where
  "authzen_granted net url req rid \<longleftrightarrow>
     (\<exists>chunk body token status answer evs i.
        set chunk \<subseteq> set (dr_resources req) \<and> length chunk \<le> MAX_EVALUATIONS \<and>
        build_authzen_request (req\<lparr>dr_resources := chunk\<rparr>) = Ok body \<and>
        az_post net url body token = Reply status answer \<and> reply_success status \<and>
        az_decode_evaluations net answer = Some evs \<and> length evs = length chunk \<and>
        i < length chunk \<and> fst (chunk ! i) = rid \<and> ee_decision (evs ! i) \<and>
        \<not> required_obligations_nonempty (ee_context (evs ! i)))"

lemma map_evaluations_True:
  assumes "map_evaluations rs evs = Ok ds" and "tget ds rid = Some True"
  shows "length evs = length rs \<and> (\<exists>i<length rs. fst (rs ! i) = rid \<and> ee_decision (evs ! i) \<and>
           \<not> required_obligations_nonempty (ee_context (evs ! i)))"
proof -
  let ?f = "\<lambda>((rid, _), e). (rid, evaluation_entitled (ee_decision e) (ee_context e))"
  have len: "length evs = length rs" and ds: "ds = tcollect Some (map ?f (zip rs evs)) []"
    using assms(1) by (auto simp: map_evaluations_def split: if_splits)
  obtain p where "p \<in> set (zip rs evs)" "?f p = (rid, True)"
    using tget_tcollect_SomeD[OF assms(2)[unfolded ds]] by auto
  then obtain i where "i < length rs" "?f (rs ! i, evs ! i) = (rid, True)"
    using len in_set_zip[of p rs evs] by (metis (no_types, lifting) prod.collapse)
  with len show ?thesis by (auto simp: evaluation_entitled_def split: prod.splits)
qed

lemma decide_batch_Ok:
  assumes "decide_batch net url req c = (Ok ds, c')"
  obtains body token status answer evs where "build_authzen_request req = Ok body"
    and "az_post net url body token = Reply status answer" and "reply_success status"
    and "az_decode_evaluations net answer = Some evs" and "map_evaluations (dr_resources req) evs = Ok ds"
proof -
  from assms obtain body token where "build_authzen_request req = Ok body" and
    "(case az_post net url body token of
        Reply_Failed e \<Rightarrow> Err (''AuthZEN POST '' @ url)
      | Reply status answer \<Rightarrow>
          if \<not> reply_success status then Err (''AuthZEN evaluations returned '' @ show_nat status)
          else and_then (ok_or ''AuthZEN response JSON'' (az_decode_evaluations net answer))
            (map_evaluations (dr_resources req))) = Ok ds"
    by (auto simp: decide_batch_def io_Ok_iffs result_simps)
  with that show thesis
    by (cases "az_post net url body token") (auto simp: result_simps split: if_splits)
qed

lemma decide_batch_True:
  assumes "decide_batch net url (req\<lparr>dr_resources := chunk\<rparr>) c = (Ok ds, c')" and "tget ds rid = Some True"
    and "set chunk \<subseteq> set (dr_resources req)" and "length chunk \<le> MAX_EVALUATIONS"
  shows "authzen_granted net url req rid"
  using assms(1)
proof (rule decide_batch_Ok)
  fix body token status answer evs
  assume "build_authzen_request (req\<lparr>dr_resources := chunk\<rparr>) = Ok body"
    "az_post net url body token = Reply status answer" "reply_success status"
    "az_decode_evaluations net answer = Some evs"
    "map_evaluations (dr_resources (req\<lparr>dr_resources := chunk\<rparr>)) evs = Ok ds"
  moreover from this obtain i where "length evs = length chunk" "i < length chunk" "fst (chunk ! i) = rid"
    "ee_decision (evs ! i)" "\<not> required_obligations_nonempty (ee_context (evs ! i))"
    using map_evaluations_True[of chunk evs ds rid] assms(2) by auto
  ultimately show ?thesis
    unfolding authzen_granted_def using assms(3,4) by blast
qed

lemma decide_batch_wf: "decide_batch net url req c = (Ok ds, c') \<Longrightarrow> wf_table ds"
  by (erule decide_batch_Ok) (auto simp: map_evaluations_def wf_tcollect wf_table_Nil split: if_splits)

lemma decide_chunks_True:
  assumes "decide_chunks net url req cs acc c = (Ok ds, c')" and "tget ds rid = Some True"
    and "\<forall>k\<in>set cs. set k \<subseteq> set (dr_resources req) \<and> length k \<le> MAX_EVALUATIONS"
    and "tget acc rid = Some True \<Longrightarrow> authzen_granted net url req rid"
  shows "authzen_granted net url req rid"
  using assms
proof (induction net url req cs acc arbitrary: c rule: decide_chunks.induct)
  case (2 net url req chunk rest acc)
  then obtain part t where p: "decide_batch net url (req\<lparr>dr_resources := chunk\<rparr>) c = (Ok part, t)"
    "decide_chunks net url req rest (tcollect Some part acc) t = (Ok ds, c')"
    by (auto simp: io_Ok_iffs)
  have "authzen_granted net url req rid" if "tget (tcollect Some part acc) rid = Some True"
  proof -
    have "tget part rid = Some True \<or> tget acc rid = Some True"
      using that decide_batch_wf[OF p(1)]
      by (auto simp: tget_tcollect_pairs map_of_rev_table map_add_def split: option.splits)
    with decide_batch_True[OF p(1)] 2 show ?thesis by auto
  qed
  with "2.IH"[OF p(2)] 2 show ?case by auto
qed (auto simp: io_Ok_iffs)

text \<open>The endpoint a client has discovered is on the configured origin and not in the clear.\<close>

definition authzen_client_ok :: "authz_net \<Rightarrow> AuthZenClient \<Rightarrow> bool" where
  "authzen_client_ok net c \<longleftrightarrow> (\<forall>url. zc_evaluations_url c = Some url \<longrightarrow>
     same_origin net url (zc_endpoint c) \<and> https_or_loopback net url)"

lemma authzen_new_ok: "authzen_client_ok net (authzen_new endpoint credential)"
  by (simp add: authzen_client_ok_def authzen_new_def)

lemma keeps_evaluations_endpoint: "keeps (authzen_client_ok net) (evaluations_endpoint net)"
  by (rule keepsI)
    (auto simp: evaluations_endpoint_def authzen_client_ok_def Let_def
      split: option.splits reply.splits if_splits)

lemma keeps_authzen_bearer: "keeps (authzen_client_ok net) (authzen_bearer net)"
  by (rule keepsI) (auto simp: authzen_bearer_def authzen_client_ok_def split: prod.splits)

lemma keeps_decide_batch: "keeps (authzen_client_ok net) (decide_batch net url req)"
  unfolding decide_batch_def by (intro keeps_intros keeps_authzen_bearer)

lemma keeps_decide_chunks: "keeps (authzen_client_ok net) (decide_chunks net url req cs acc)"
  by (induction net url req cs acc rule: decide_chunks.induct)
    (simp_all add: keeps_lift keeps_bind keeps_decide_batch)

lemma keeps_authzen_decide: "keeps (authzen_client_ok net) (authzen_decide net req)"
  unfolding authzen_decide_def
  by (intro keeps_intros keeps_evaluations_endpoint keeps_decide_chunks)

lemma evaluations_endpoint_Ok:
  "evaluations_endpoint net c = (Ok url, c') \<Longrightarrow> authzen_client_ok net c \<Longrightarrow>
   same_origin net url (zc_endpoint c) \<and> https_or_loopback net url"
  by (auto simp: evaluations_endpoint_def authzen_client_ok_def Let_def
      split: option.splits reply.splits if_splits)

section \<open>Batching is transparent\<close>

text \<open>A service that decides each resource on its own: it answers any batch it accepts with the
  verdicts of the batch's resources, in order.\<close>

definition pointwise_service ::
  "authz_net \<Rightarrow> string \<Rightarrow> DecisionRequest \<Rightarrow> (resource \<Rightarrow> EvaluationEntry) \<Rightarrow> bool" where
  "pointwise_service net url req verdict \<longleftrightarrow>
     (\<forall>rs body token. build_authzen_request (req\<lparr>dr_resources := rs\<rparr>) = Ok body \<longrightarrow>
        length rs \<le> MAX_EVALUATIONS \<longrightarrow>
        (\<exists>status answer. az_post net url body token = Reply status answer \<and> reply_success status \<and>
           az_decode_evaluations net answer = Some (map verdict rs)))"

definition bearer_available :: "authz_net \<Rightarrow> ServiceCredential \<Rightarrow> bool" where
  "bearer_available net credential \<longleftrightarrow> (\<forall>cache. is_ok (fst (service_bearer net credential cache)))"

definition entitled_pair :: "(resource \<Rightarrow> EvaluationEntry) \<Rightarrow> resource \<Rightarrow> string \<times> bool" where
  "entitled_pair verdict r =
     (fst r, evaluation_entitled (ee_decision (verdict r)) (ee_context (verdict r)))"

lemma map_evaluations_pointwise:
  "map_evaluations rs (map verdict rs) = Ok (tcollect Some (map (entitled_pair verdict) rs) [])"
proof -
  have "zip rs (map verdict rs) = map (\<lambda>r. (r, verdict r)) rs" by (induction rs) auto
  then show ?thesis by (simp add: map_evaluations_def entitled_pair_def[abs_def] o_def case_prod_beta)
qed

lemma authzen_bearer_available:
  assumes "bearer_available net (zc_credential c)"
  shows "\<exists>token c'. authzen_bearer net c = (Ok token, c') \<and> zc_credential c' = zc_credential c"
proof -
  obtain r cache where r: "service_bearer net (zc_credential c) (zc_token_cache c) = (r, cache)" by force
  with assms have "is_ok r" unfolding bearer_available_def by (metis fst_conv)
  with r show ?thesis by (cases r) (auto simp: authzen_bearer_def)
qed

lemma build_authzen_request_Ok:
  "find is_subject (dr_chain req) \<noteq> None \<Longrightarrow> rs \<noteq> [] \<Longrightarrow>
   \<exists>body. build_authzen_request (req\<lparr>dr_resources := rs\<rparr>) = Ok body"
  by (auto simp: build_authzen_request_def)

lemma decide_batch_pointwise:
  assumes "pointwise_service net url req verdict" and "bearer_available net (zc_credential c)"
    and "find is_subject (dr_chain req) \<noteq> None" and "rs \<noteq> []" and "length rs \<le> MAX_EVALUATIONS"
  shows "\<exists>c'. decide_batch net url (req\<lparr>dr_resources := rs\<rparr>) c =
      (Ok (tcollect Some (map (entitled_pair verdict) rs) []), c') \<and> zc_credential c' = zc_credential c"
proof -
  obtain body where b: "build_authzen_request (req\<lparr>dr_resources := rs\<rparr>) = Ok body"
    using build_authzen_request_Ok assms(3,4) by blast
  obtain token c' where t: "authzen_bearer net c = (Ok token, c')" "zc_credential c' = zc_credential c"
    using authzen_bearer_available[OF assms(2)] by blast
  obtain status answer where "az_post net url body token = Reply status answer" "reply_success status"
    "az_decode_evaluations net answer = Some (map verdict rs)"
    using assms(1,5) b unfolding pointwise_service_def by blast
  with b t show ?thesis by (simp add: decide_batch_def io_defs map_evaluations_pointwise)
qed

lemma decide_chunks_pointwise:
  assumes "pointwise_service net url req verdict" and "bearer_available net (zc_credential c)"
    and "find is_subject (dr_chain req) \<noteq> None"
    and "\<forall>rs\<in>set cs. rs \<noteq> [] \<and> length rs \<le> MAX_EVALUATIONS"
  shows "\<exists>ds c'. decide_chunks net url req cs acc c = (Ok ds, c') \<and>
      tget ds = tget acc ++ map_of (rev (map (entitled_pair verdict) (concat cs)))"
  using assms
proof (induction cs arbitrary: acc c)
  case (Cons rs cs)
  let ?part = "tcollect Some (map (entitled_pair verdict) rs) []"
  obtain c' where b: "decide_batch net url (req\<lparr>dr_resources := rs\<rparr>) c = (Ok ?part, c')"
    "zc_credential c' = zc_credential c"
    using decide_batch_pointwise[OF Cons.prems(1-3), of rs] Cons.prems(4) by auto
  obtain ds c'' where d: "decide_chunks net url req cs (tcollect Some ?part acc) c' = (Ok ds, c'')"
    "tget ds = tget (tcollect Some ?part acc) ++ map_of (rev (map (entitled_pair verdict) (concat cs)))"
    using Cons.IH[of c' "tcollect Some ?part acc"] Cons.prems b(2) by auto
  have "tget (tcollect Some ?part acc) = tget acc ++ map_of (rev (map (entitled_pair verdict) rs))"
    by (simp add: tget_tcollect_pairs[of ?part] map_of_rev_table wf_tcollect wf_table_Nil)
      (simp add: tget_tcollect_pairs)
  with b d show ?case by (simp add: io_bind_def map_add_assoc)
qed (simp add: io_lift_def)

text \<open>C18: Splitting a large request into batches of 500 changes nothing: against a service that
  decides each resource on its own, the client answers, and every resource gets the verdict one
  unbatched request would give it.\<close>

theorem authzen_batching_transparent:
  assumes "pointwise_service net url req verdict" and "bearer_available net (zc_credential c)"
    and "zc_evaluations_url c = Some url" and "find is_subject (dr_chain req) \<noteq> None"
  shows "\<exists>ds c'. authzen_decide net req c = (Ok ds, c') \<and>
    tget ds = map_of (rev (map (entitled_pair verdict) (dr_resources req)))"
proof (cases "dr_resources req = []")
  case False
  let ?cs = "chunks MAX_EVALUATIONS (dr_resources req)"
  have "concat ?cs = dr_resources req" by (simp add: chunks_concat MAX_EVALUATIONS_def)
  moreover have "\<forall>rs\<in>set ?cs. rs \<noteq> [] \<and> length rs \<le> MAX_EVALUATIONS" using chunks_members by blast
  ultimately obtain ds c' where "decide_chunks net url req ?cs [] c = (Ok ds, c')"
    "tget ds = map_of (rev (map (entitled_pair verdict) (dr_resources req)))"
    using decide_chunks_pointwise[OF assms(1,2,4), of ?cs "[]"] by auto
  with False assms(3) show ?thesis
    by (simp add: authzen_decide_def evaluations_endpoint_def io_bind_def)
qed (simp add: authzen_decide_def io_lift_def)


section \<open>Decision providers\<close>

text \<open>
  The \<open>DecisionProvider\<close> trait as its callers rely on it: a permit rests on something the service
  said about that request, and the provider's own state stays well formed.
\<close>

locale decision_provider =
  fixes decide :: "DecisionRequest \<Rightarrow> ('p, Decisions, string) io"
    and inv :: "'p \<Rightarrow> bool"
    and granted :: "'p \<Rightarrow> DecisionRequest \<Rightarrow> string \<Rightarrow> bool"
  assumes sound: "inv p \<Longrightarrow> decide req p = (Ok ds, p') \<Longrightarrow> tget ds rid = Some True \<Longrightarrow> granted p req rid"
    and keep: "keeps inv (decide req)"

definition authzen_permits :: "authz_net \<Rightarrow> AuthZenClient \<Rightarrow> DecisionRequest \<Rightarrow> string \<Rightarrow> bool" where
  "authzen_permits net c req rid \<longleftrightarrow>
     (\<exists>url. same_origin net url (zc_endpoint c) \<and> https_or_loopback net url \<and> authzen_granted net url req rid)"

definition connect_permits :: "authz_net \<Rightarrow> ConnectAuthzClient \<Rightarrow> DecisionRequest \<Rightarrow> string \<Rightarrow> bool" where
  "connect_permits net c req rid \<longleftrightarrow>
     (\<exists>body token status answer ds. build_request c req = Ok body \<and>
        az_post net (connect_url c) body token = Reply status answer \<and> reply_success status \<and>
        az_decode_multi net answer = Some ds \<and>
        (\<exists>d\<in>set ds. rd_ephemeral_resource_id d = rid \<and> rd_decision d = ''DECISION_PERMIT''))"

lemma authzen_decide_permits:
  assumes "authzen_client_ok net c" and "authzen_decide net req c = (Ok ds, c')" and "tget ds rid = Some True"
  shows "authzen_permits net c req rid"
proof -
  from assms(2,3) obtain url t where u: "evaluations_endpoint net c = (Ok url, t)"
    "decide_chunks net url req (chunks MAX_EVALUATIONS (dr_resources req)) [] t = (Ok ds, c')"
    by (auto simp: authzen_decide_def io_Ok_iffs split: if_splits)
  have "set k \<subseteq> set (dr_resources req) \<and> length k \<le> MAX_EVALUATIONS"
    if "k \<in> set (chunks MAX_EVALUATIONS (dr_resources req))" for k
    using chunks_members[OF that] that chunks_concat[of MAX_EVALUATIONS "dr_resources req"]
    by (metis MAX_EVALUATIONS_def UN_upper set_concat zero_less_numeral)
  then have "authzen_granted net url req rid"
    using decide_chunks_True[OF u(2) assms(3)] by simp
  with evaluations_endpoint_Ok[OF u(1) assms(1)] show ?thesis
    unfolding authzen_permits_def by blast
qed

lemma connect_decide_permits:
  assumes "connect_decide net req c = (Ok ds, c')" and "tget ds rid = Some True"
  shows "connect_permits net c req rid"
proof -
  from assms(1) obtain body token where b: "build_request c req = Ok body" and
    r: "(case az_post net (connect_url c) body token of
        Reply_Failed e \<Rightarrow> Err (''authorization POST '' @ connect_url c)
      | Reply status answer \<Rightarrow>
          if \<not> reply_success status
          then Err (''authorization service returned '' @ show_nat status @ '': '' @ answer)
          else and_then (ok_or ''authorization response JSON parse'' (az_decode_multi net answer))
            (\<lambda>ds. Ok (tcollect Some (map (\<lambda>d. (rd_ephemeral_resource_id d,
                                                   rd_decision d = ''DECISION_PERMIT'')) ds) []))) = Ok ds"
    by (auto simp: connect_decide_def io_Ok_iffs)
  then obtain status answer es where "az_post net (connect_url c) body token = Reply status answer"
    "reply_success status" "az_decode_multi net answer = Some es"
    "ds = tcollect Some (map (\<lambda>d. (rd_ephemeral_resource_id d, rd_decision d = ''DECISION_PERMIT'')) es) []"
    by (cases "az_post net (connect_url c) body token") (auto simp: result_simps split: if_splits)
  with b tget_tcollect_SomeD[of Some _ "[]" rid True] assms(2) show ?thesis
    unfolding connect_permits_def by fastforce
qed

interpretation authzen: decision_provider "authzen_decide net" "authzen_client_ok net" "authzen_permits net"
  for net
  by unfold_locales (auto intro: authzen_decide_permits keeps_authzen_decide)

interpretation connect: decision_provider "connect_decide net" "\<lambda>_. True" "connect_permits net"
  for net
  by unfold_locales (auto intro: connect_decide_permits keepsI)


text \<open>C17: A permit of the AuthZEN client is never made up: the service answered a batch posted to a
  URL on the configured origin, over https or to loopback, with exactly one evaluation per
  resource, and the evaluation at the resource's own position says yes with no obligation left.
  The client's discovered URL stays trustworthy whatever the request's outcome.\<close>

theorem authzen_permit_sound:
  assumes "authzen_client_ok net c" and "authzen_decide net req c = (Ok ds, c')" and "tget ds rid = Some True"
  shows "(\<exists>url. same_origin net url (zc_endpoint c) \<and> https_or_loopback net url \<and>
           authzen_granted net url req rid) \<and> authzen_client_ok net c'"
  using authzen.sound[OF assms] keepsD'[OF authzen.keep assms(1,2)] by (simp add: authzen_permits_def)


section \<open>A sample service\<close>

text \<open>A service on \<open>https://pdp\<close> that permits everything, answering as many entries as it is asked.\<close>

definition sample_net :: authz_net where
  "sample_net = \<lparr>az_get = (\<lambda>_. Reply 200 []),
     az_post = (\<lambda>_ body _. case json_get ''evaluations'' body of
        Some (JArray a) \<Rightarrow> Reply 200 (map (\<lambda>_. CHR ''y'') a) | _ \<Rightarrow> Reply 400 []),
     az_token_post = (\<lambda>_ _ _. Reply_Failed []), az_decode_token = (\<lambda>_. None),
     az_decode_discovery = (\<lambda>_. Some (Some ''https://pdp/evals'')),
     az_decode_evaluations = (\<lambda>b. Some (map (\<lambda>_. \<lparr>ee_decision = True, ee_context = None\<rparr>) b)),
     az_decode_multi = (\<lambda>_. None),
     az_url_parse = (\<lambda>_. Some \<lparr>url_scheme = ''https'', url_host = Some ''pdp'', url_port = Some 443\<rparr>),
     az_loopback_ip = (\<lambda>_. False), az_instant = 0, az_minted = 0\<rparr>"

definition sample_subject :: ChainEntity where
  "sample_subject = \<lparr>ce_kind = Subject, ce_token = None, ce_claims = obj [(''sub'', JString ''alice'')]\<rparr>"

definition sample_request :: DecisionRequest where
  "sample_request = \<lparr>dr_chain = [sample_subject], dr_action = ''read'', dr_resource_type = CatalogItem,
     dr_resources = [(''r1'', [''a'']), (''r2'', [''b''])]\<rparr>"

definition sample_client :: AuthZenClient where
  "sample_client = authzen_new ''https://pdp/'' (Static ''svc'')"

lemma sample_decide:
  "fst (authzen_decide sample_net sample_request sample_client) = Ok [(''r1'', True), (''r2'', True)]"
  by (simp add: sample_net_def sample_request_def sample_client_def authzen_decide_def io_defs
      evaluations_endpoint_def authzen_new_def reply_success_def same_origin_def https_or_loopback_def
      chunks.simps MAX_EVALUATIONS_def decide_batch_def build_authzen_request_def sample_subject_def
      is_subject_def authzen_bearer_def service_bearer_def obj_def map_evaluations_def
      evaluation_entitled_def required_obligations_nonempty_def tinsert_def tremove_def)

theorem authzen_permit_sound_witness:
  "\<exists>url. same_origin sample_net url (zc_endpoint sample_client) \<and> https_or_loopback sample_net url \<and>
     authzen_granted sample_net url sample_request ''r1''"
proof -
  obtain c' where d: "authzen_decide sample_net sample_request sample_client =
      (Ok [(''r1'', True), (''r2'', True)], c')"
    using sample_decide by (metis prod.collapse)
  have "authzen_client_ok sample_net sample_client" by (simp add: sample_client_def authzen_new_ok)
  from authzen_permit_sound[OF this d, of "''r1''"] show ?thesis by simp
qed

theorem authzen_batching_transparent_witness:
  "\<exists>ds c'. authzen_decide sample_net sample_request
      (sample_client\<lparr>zc_evaluations_url := Some ''https://pdp/evals''\<rparr>) = (Ok ds, c') \<and>
    tget ds ''r2'' = Some True"
proof -
  let ?v = "\<lambda>_. \<lparr>ee_decision = True, ee_context = None\<rparr>"
  have 1: "pointwise_service sample_net ''https://pdp/evals'' sample_request ?v"
    by (auto simp: pointwise_service_def build_authzen_request_def result_simps sample_net_def obj_def
        reply_success_def sample_request_def split: if_splits)
  have 2: "bearer_available sample_net (zc_credential (sample_client\<lparr>zc_evaluations_url := Some ''https://pdp/evals''\<rparr>))"
    by (simp add: bearer_available_def sample_client_def authzen_new_def service_bearer_def)
  have 3: "find is_subject (dr_chain sample_request) \<noteq> None"
    by (simp add: sample_request_def sample_subject_def is_subject_def)
  from authzen_batching_transparent[OF 1 2 _ 3] show ?thesis
    by (auto simp: sample_request_def entitled_pair_def evaluation_entitled_def required_obligations_nonempty_def)
qed

end
