(* ===== verification/Http.thy ===== *)
theory Http
  imports Text_Ops
begin

text \<open>Headers and error responses of the HTTP handlers.\<close>

section \<open>Headers\<close>

text \<open>A header map lists its values in order, under lower-case names.\<close>

type_synonym headers = "(string \<times> bytes) list"

definition header_get_all :: "headers \<Rightarrow> string \<Rightarrow> bytes list" where
  "header_get_all h name = map snd (filter (\<lambda>(n, _). n = name) h)"

definition header_get :: "headers \<Rightarrow> string \<Rightarrow> bytes option" where
  "header_get h name = map_of h name"

text \<open>\<open>HeaderValue::to_str\<close>: visible ASCII, space and tab only.\<close>

definition header_to_str :: "bytes \<Rightarrow> string option" where
  "header_to_str v =
     (if list_all (\<lambda>c. (32 \<le> byte_of c \<and> byte_of c < 127) \<or> byte_of c = 9) v then Some v else None)"

section \<open>Status codes\<close>

type_synonym http_error = "nat \<times> string"

definition BAD_REQUEST :: nat where "BAD_REQUEST = 400"
definition UNAUTHORIZED :: nat where "UNAUTHORIZED = 401"
definition FORBIDDEN :: nat where "FORBIDDEN = 403"
definition NOT_FOUND :: nat where "NOT_FOUND = 404"
definition CONFLICT :: nat where "CONFLICT = 409"
definition PRECONDITION_FAILED :: nat where "PRECONDITION_FAILED = 412"
definition UNPROCESSABLE_ENTITY :: nat where "UNPROCESSABLE_ENTITY = 422"
definition INTERNAL_SERVER_ERROR :: nat where "INTERNAL_SERVER_ERROR = 500"
definition BAD_GATEWAY :: nat where "BAD_GATEWAY = 502"
definition SERVICE_UNAVAILABLE :: nat where "SERVICE_UNAVAILABLE = 503"

lemmas status_defs = BAD_REQUEST_def UNAUTHORIZED_def FORBIDDEN_def NOT_FOUND_def CONFLICT_def
  PRECONDITION_FAILED_def UNPROCESSABLE_ENTITY_def INTERNAL_SERVER_ERROR_def BAD_GATEWAY_def SERVICE_UNAVAILABLE_def

end
