(* ===== verification/Entity_Chain.thy ===== *)
theory Entity_Chain
  imports Auth Authz Http
begin

text \<open>
  The entity chain a decision is asked about (\<open>src/entity_chain.rs\<close>): the verified person, each
  attested device bound to them, then the environment the node asserts.
\<close>

definition MAX_CHAIN_ENTITIES :: nat where
  "MAX_CHAIN_ENTITIES = 8"

definition entity_tokens :: "headers \<Rightarrow> string list" where
  "entity_tokens headers = List.map_filter header_to_str (header_get_all headers ''x-entity-token'')"

definition check_length :: "nat \<Rightarrow> bool \<Rightarrow> (unit, http_error) result" where
  "check_length devices environment =
     (if 1 + devices + of_bool environment > MAX_CHAIN_ENTITIES then Err (BAD_REQUEST, ''too many entities'')
      else Ok ())"

definition json_strings :: "string list \<Rightarrow> json" where
  "json_strings ss = JArray (map JString ss)"

definition subject_claims :: "VerifiedClaims \<Rightarrow> json_map" where
  "subject_claims pe =
     (let m = obj_insert ''sub'' (JString (vc_sub pe)) [];
          m = obj_insert ''iss'' (JString (vc_iss pe)) m;
          m = obj_insert_opt ''patreon_user_id'' (map_option JString (vc_patreon_user_id pe)) m;
          m = obj_insert_opt ''email'' (map_option JString (vc_email pe)) m;
          m = obj_insert_opt ''email_verified'' (map_option JBool (vc_email_verified pe)) m;
          m = obj_insert_opt ''idp'' (map_option JString (vc_idp pe)) m;
          m = obj_insert_opt ''arkavo_account_id'' (map_option JString (vc_arkavo_account_id pe)) m;
          m = obj_insert_opt ''arkavo_roles'' (map_option json_strings (vc_arkavo_roles pe)) m;
          m = (if vc_arkavo_entitlements pe \<noteq> []
               then obj_insert ''arkavo_entitlements'' (json_strings (vc_arkavo_entitlements pe)) m else m);
          m = obj_insert_opt ''client_id'' (map_option JString (vc_client_id pe)) m in
      obj_insert_opt ''arkavo_patreon'' (vc_arkavo_patreon pe) m)"

definition subject_entity :: "VerifiedClaims \<Rightarrow> string option \<Rightarrow> ChainEntity" where
  "subject_entity pe token = \<lparr>ce_kind = Subject, ce_token = token, ce_claims = JObject (subject_claims pe)\<rparr>"

definition device_entity :: "string \<Rightarrow> VerifiedClaims \<Rightarrow> string \<Rightarrow> ChainEntity" where
  "device_entity token claims kid =
     \<lparr>ce_kind = Device, ce_token = Some (trim token),
      ce_claims = obj [(''sub'', JString (vc_sub claims)), (''iss'', JString (vc_iss claims)),
                       (''aud'', JString DEVICECHECK_AUD), (''kid'', JString kid)]\<rparr>"

fun verified_devices ::
  "verify_env \<Rightarrow> string list \<Rightarrow> string \<Rightarrow> int \<Rightarrow> (CwtVerifier, ChainEntity list, http_error) io" where
  "verified_devices env [] pe_sub now = io_return []"
| "verified_devices env (token # tokens) pe_sub now =
     io_bind (io_map_err (\<lambda>_. (UNAUTHORIZED, ''invalid entity token'')) (verify_device env token now)) (\<lambda>claims.
       if subject_id_bind (vc_sub claims) \<noteq> subject_id_bind pe_sub
       then io_fail (UNAUTHORIZED, ''entity token subject does not match bearer subject'')
       else (case vc_kid claims of
           None \<Rightarrow> io_fail (UNAUTHORIZED, ''invalid entity token'')
         | Some kid \<Rightarrow>
             if kid = [] then io_fail (UNAUTHORIZED, ''invalid entity token'')
             else io_bind (verified_devices env tokens pe_sub now) (\<lambda>devices.
               io_return (device_entity token claims kid # devices))))"

definition environment_entity :: "json \<Rightarrow> ChainEntity" where
  "environment_entity environment = \<lparr>ce_kind = Environment, ce_token = None, ce_claims = environment\<rparr>"

definition person_chain ::
  "verify_env \<Rightarrow> VerifiedClaims \<Rightarrow> string \<Rightarrow> headers \<Rightarrow> json option \<Rightarrow> int \<Rightarrow>
   (CwtVerifier, ChainEntity list, http_error) io" where
  "person_chain env pe pe_token headers environment now =
     (let npe_tokens = entity_tokens headers in
      io_bind (io_lift (check_length (length npe_tokens) (environment \<noteq> None))) (\<lambda>_.
      io_bind (verified_devices env npe_tokens (vc_sub pe) now) (\<lambda>devices.
        io_return (subject_entity pe (Some pe_token) # devices @
          (case environment of Some e \<Rightarrow> [environment_entity e] | None \<Rightarrow> [])))))"


section \<open>The person\<close>

lemma map_of_subject_claims_sub: "map_of (subject_claims pe) ''sub'' = Some (JString (vc_sub pe))"
  by (simp add: subject_claims_def Let_def obj_simps)

lemma subject_entity_sub: "json_get_str ''sub'' (ce_claims (subject_entity pe token)) = Some (vc_sub pe)"
  by (simp add: subject_entity_def json_get_str_def map_of_subject_claims_sub)

lemma subject_claims_entitlements:
  "map_of (subject_claims pe) ''arkavo_entitlements'' =
   (if vc_arkavo_entitlements pe = [] then None else Some (json_strings (vc_arkavo_entitlements pe)))"
  by (simp add: subject_claims_def Let_def obj_simps)

lemma subject_entity_is_subject [simp]: "is_subject (subject_entity pe token)"
  by (simp add: is_subject_def subject_entity_def)


section \<open>The devices\<close>

text \<open>The key cache as a request sees it: as it was, or after the one refresh its instant allows.\<close>

definition request_states :: "verify_env \<Rightarrow> CwtVerifier \<Rightarrow> CwtVerifier set" where
  "request_states env v = {v, snd (refresh_keys env v)}"

lemma refresh_keys_limited: "refresh_limited env v \<Longrightarrow> snd (refresh_keys env v) = v"
  by (simp add: refresh_keys_def split: option.splits)

lemma refresh_keys_idem: "snd (refresh_keys env (snd (refresh_keys env v))) = snd (refresh_keys env v)"
proof (cases "snd (refresh_keys env v) = v")
  case False
  then have "refresh_limited env (snd (refresh_keys env v))"
    using refresh_keys_cases[of env v]
    by (auto simp: refresh_limited_def elapsed_def KEY_REFRESH_MIN_INTERVAL_def from_secs_def)
  then show ?thesis by (rule refresh_keys_limited)
qed simp

lemma verify_with_request_states:
  "w \<in> request_states env v \<Longrightarrow> snd (verify_with env token now aud w) \<in> request_states env v"
  using verify_with_state[of env token now aud w] refresh_keys_idem[of env v]
  by (auto simp: request_states_def)

lemma verify_device_request_states:
  "w \<in> request_states env v \<Longrightarrow> snd (verify_device env token now w) \<in> request_states env v"
  using verify_with_request_states[of w env v token now "Some DEVICECHECK_AUD"]
  by (auto simp: verify_device_def io_defs split: prod.splits result.splits)

text \<open>A device of the chain: its token verified for the DeviceCheck audience, with the person's
  subject and a confirmation key, under the keys the request had.\<close>

definition device_attested ::
  "verify_env \<Rightarrow> CwtVerifier \<Rightarrow> int \<Rightarrow> string \<Rightarrow> string \<Rightarrow> ChainEntity \<Rightarrow> bool" where
  "device_attested env v now pe_sub token e \<longleftrightarrow>
     (\<exists>w\<in>request_states env v. \<exists>c kid.
        fst (verify_with env token now (Some DEVICECHECK_AUD) w) = Ok c \<and>
        subject_id_bind (vc_sub c) = subject_id_bind pe_sub \<and>
        vc_kid c = Some kid \<and> kid \<noteq> [] \<and> e = device_entity token c kid)"

lemma verified_devices_attested:
  assumes "verified_devices env tokens pe_sub now w = (Ok ds, w')" and "w \<in> request_states env v"
  shows "list_all2 (device_attested env v now pe_sub) tokens ds"
  using assms
proof (induction tokens arbitrary: w ds)
  case (Cons token tokens)
  from Cons.prems(1) obtain c t where c: "verify_device env token now w = (Ok c, t)"
    and b: "subject_id_bind (vc_sub c) = subject_id_bind pe_sub"
    and r: "(case vc_kid c of
        None \<Rightarrow> io_fail (UNAUTHORIZED, ''invalid entity token'')
      | Some kid \<Rightarrow>
          if kid = [] then io_fail (UNAUTHORIZED, ''invalid entity token'')
          else io_bind (verified_devices env tokens pe_sub now) (\<lambda>devices.
            io_return (device_entity token c kid # devices))) t = (Ok ds, w')"
    by (auto simp: io_Ok_iffs split: if_splits)
  from r obtain kid ds' where k: "vc_kid c = Some kid" "kid \<noteq> []" "ds = device_entity token c kid # ds'"
    "verified_devices env tokens pe_sub now t = (Ok ds', w')"
    by (cases "vc_kid c") (auto simp: io_Ok_iffs split: if_splits)
  have "t \<in> request_states env v"
    using verify_device_request_states[OF Cons.prems(2), of token now] c by simp
  then have "list_all2 (device_attested env v now pe_sub) tokens ds'" using Cons.IH k(4) by blast
  moreover have "device_attested env v now pe_sub token (device_entity token c kid)"
    unfolding device_attested_def using verify_device_Ok(1)[OF c] Cons.prems(2) b k(1,2)
    by (metis fst_conv)
  ultimately show ?case by (simp add: k(3))
qed (simp add: io_Ok_iffs)

lemma person_chain_parts:
  assumes "person_chain env pe pe_token headers environment now v = (Ok chain, v')"
  shows "\<exists>devices. chain = subject_entity pe (Some pe_token) # devices @
           (case environment of Some e \<Rightarrow> [environment_entity e] | None \<Rightarrow> []) \<and>
         list_all2 (device_attested env v now (vc_sub pe)) (entity_tokens headers) devices \<and>
         length chain \<le> 8"
proof -
  from assms obtain devices where
    d: "check_length (length (entity_tokens headers)) (environment \<noteq> None) = Ok ()"
      "verified_devices env (entity_tokens headers) (vc_sub pe) now v = (Ok devices, v')"
      "chain = subject_entity pe (Some pe_token) # devices @
         (case environment of Some e \<Rightarrow> [environment_entity e] | None \<Rightarrow> [])"
    by (auto simp: person_chain_def Let_def io_Ok_iffs)
  have a: "list_all2 (device_attested env v now (vc_sub pe)) (entity_tokens headers) devices"
    using verified_devices_attested[OF d(2)] by (simp add: request_states_def)
  then have "length devices = length (entity_tokens headers)" by (simp add: list_all2_lengthD)
  with d(1,3) have "length chain \<le> 8"
    by (auto simp: check_length_def MAX_CHAIN_ENTITIES_def split: if_splits option.splits)
  with a d(3) show ?thesis by blast
qed


text \<open>A decision's chain is one person, then the devices, one per readable entity token and in
  order, each attested and bound to that person, then the node's own environment: at most eight
  entities, and no readable entity token is left out.\<close>

theorem person_chain_shape:
  assumes "person_chain env pe pe_token headers environment now v = (Ok chain, v')"
  shows "\<exists>devices. chain = subject_entity pe (Some pe_token) # devices @
           (case environment of Some e \<Rightarrow> [environment_entity e] | None \<Rightarrow> []) \<and>
         list_all2 (device_attested env v now (vc_sub pe)) (entity_tokens headers) devices \<and>
         length chain \<le> 8"
  by (rule person_chain_parts[OF assms])

text \<open>A header value that is not visible ASCII shortens the chain instead of failing it.\<close>

lemma entity_tokens_unreadable: "entity_tokens [(''x-entity-token'', [CHR 0xFF])] = []"
  by code_simp

lemma sample_chain:
  "person_chain sample_env sample_claims ''t'' [(''x-entity-token'', sample_token ''device'')]
     (Some JNull) 1500 sample_verifier =
   (Ok [subject_entity sample_claims (Some ''t''),
        device_entity (sample_token ''device'') sample_device_claims ''dk'', environment_entity JNull],
    sample_verifier)"
  by code_simp

theorem person_chain_shape_witness:
  "\<exists>devices. [subject_entity sample_claims (Some ''t''),
      device_entity (sample_token ''device'') sample_device_claims ''dk'', environment_entity JNull] =
      subject_entity sample_claims (Some ''t'') # devices @ [environment_entity JNull] \<and>
    list_all2 (device_attested sample_env sample_verifier 1500 ''alice'')
      (entity_tokens [(''x-entity-token'', sample_token ''device'')]) devices"
  using person_chain_shape[OF sample_chain] by (auto simp: sample_claims_def)

end
