(* ===== verification/Publish_Decision.thy ===== *)
theory Publish_Decision
  imports Entity_Chain
begin

text \<open>
  Whether a chain may publish, asked of the decision service (\<open>src/publish_decision.rs\<close>). The
  provider is a parameter of the decider, as in the code; what a permit means is proved in the
  locale \<open>decision_provider\<close> and holds for both clients.
\<close>

datatype PublishDecisions = Local | Shadow | Pdp

datatype Verdict = Permit | Deny | Unavailable

record StoredEntity =
  se_kind :: EntityKind
  se_claims :: json

definition strip_tokens :: "ChainEntity list \<Rightarrow> StoredEntity list" where
  "strip_tokens chain = map (\<lambda>e. \<lparr>se_kind = ce_kind e, se_claims = ce_claims e\<rparr>) chain"

record 'p PublishDecider =
  pd_mode :: PublishDecisions
  pd_provider :: "(DecisionRequest \<Rightarrow> ('p, Decisions, string) io) option"
  pd_entitlement :: string
  pd_environment :: "json option"

definition DEFAULT_PUBLISH_ENTITLEMENT :: string where
  "DEFAULT_PUBLISH_ENTITLEMENT = ''https://patreon.arkavo.com/attr/arkavo-creator/value/publish''"

definition decider_default :: "'p PublishDecider" where
  "decider_default = \<lparr>pd_mode = Local, pd_provider = None,
     pd_entitlement = DEFAULT_PUBLISH_ENTITLEMENT, pd_environment = None\<rparr>"

definition decider_new ::
  "PublishDecisions \<Rightarrow> (DecisionRequest \<Rightarrow> ('p, Decisions, string) io) option \<Rightarrow> string \<Rightarrow>
   json option \<Rightarrow> ('p PublishDecider, string) result" where
  "decider_new mode provider ent environment =
     (if mode = Local \<or> provider \<noteq> None
      then Ok \<lparr>pd_mode = mode, pd_provider = provider, pd_entitlement = ent,
               pd_environment = environment\<rparr>
      else Err ''[publishing] decisions needs [catalog.authz] endpoint'')"

definition asks :: "'p PublishDecider \<Rightarrow> bool" where
  "asks d \<longleftrightarrow> pd_mode d \<noteq> Local"

definition chain_subject :: "ChainEntity list \<Rightarrow> string option" where
  "chain_subject chain = Option.bind (find is_subject chain) (\<lambda>e. json_get_str ''sub'' (ce_claims e))"

definition publish_request :: "'p PublishDecider \<Rightarrow> ChainEntity list \<Rightarrow> string \<Rightarrow> DecisionRequest" where
  "publish_request d chain sub =
     \<lparr>dr_chain = chain, dr_action = ''publish'', dr_resource_type = Publisher,
      dr_resources = [(sub, [pd_entitlement d])]\<rparr>"

definition ask :: "'p PublishDecider \<Rightarrow> ChainEntity list \<Rightarrow> 'p \<Rightarrow> Verdict \<times> 'p" where
  "ask d chain p = (case pd_provider d of
       None \<Rightarrow> (Unavailable, p)
     | Some decide \<Rightarrow>
         (case chain_subject chain of
            None \<Rightarrow> (Unavailable, p)
          | Some sub \<Rightarrow>
              (case decide (publish_request d chain sub) p of
                 (Ok ds, p') \<Rightarrow> (if tget ds sub = Some True then Permit else Deny, p')
               | (Err e, p') \<Rightarrow> (Unavailable, p'))))"

text \<open>The shadow comparison: what is logged, never what is enforced.\<close>

definition shadow_agrees :: "bool \<Rightarrow> Verdict \<Rightarrow> bool" where
  "shadow_agrees local_permits pdp \<longleftrightarrow> (local_permits, pdp) \<in> {(True, Permit), (False, Deny)}"


section \<open>Lemmas\<close>

lemma strip_tokens_length [simp]: "length (strip_tokens chain) = length chain"
  by (simp add: strip_tokens_def)

context decision_provider
begin

lemma ask_permit:
  assumes "pd_provider d = Some decide" and "inv p" and "ask d chain p = (Permit, p')"
  shows "\<exists>sub. chain_subject chain = Some sub \<and> granted p (publish_request d chain sub) sub"
    and "inv p'"
proof -
  from assms(1,3) obtain sub ds where s: "chain_subject chain = Some sub"
    "decide (publish_request d chain sub) p = (Ok ds, p')" "tget ds sub = Some True"
    by (auto simp: ask_def split: option.splits prod.splits result.splits if_splits)
  then show "\<exists>sub. chain_subject chain = Some sub \<and> granted p (publish_request d chain sub) sub"
    using sound[OF assms(2) s(2,3)] by blast
  show "inv p'" using keepsD'[OF keep assms(2) s(2)] .
qed

lemma ask_inv: "pd_provider d = Some decide \<Longrightarrow> inv p \<Longrightarrow> inv (snd (ask d chain p))"
  using keepsD'[OF keep] by (auto simp: ask_def split: option.splits prod.splits result.splits)

end

lemma ask_no_provider: "pd_provider d = None \<Longrightarrow> ask d chain p = (Unavailable, p)"
  by (simp add: ask_def)

lemma chain_subject_person: "chain_subject (subject_entity pe token # rest) = Some (vc_sub pe)"
  by (simp add: chain_subject_def subject_entity_sub)


definition sample_decider :: "AuthZenClient PublishDecider" where
  "sample_decider = \<lparr>pd_mode = Pdp, pd_provider = Some (authzen_decide sample_net),
     pd_entitlement = DEFAULT_PUBLISH_ENTITLEMENT, pd_environment = None\<rparr>"

lemma sample_ask: "fst (ask sample_decider [sample_subject] sample_client) = Permit"
  by (simp add: ask_def sample_decider_def chain_subject_def sample_subject_def is_subject_def
      json_get_str_def obj_def publish_request_def
      sample_net_def sample_client_def authzen_decide_def io_defs
      evaluations_endpoint_def authzen_new_def reply_success_def same_origin_def https_or_loopback_def
      chunks.simps MAX_EVALUATIONS_def decide_batch_def build_authzen_request_def
      authzen_bearer_def service_bearer_def map_evaluations_def
      evaluation_entitled_def required_obligations_nonempty_def tinsert_def tremove_def)


end
