(* ===== verification/Moderation.thy ===== *)
theory Moderation
  imports Publish_Decision
begin

text \<open>
  Moderation records and the in-memory view every gate reads (\<open>src/moderation.rs\<close>, lines 47--470).
  The record store is the trait \<open>ModerationStore\<close>: a record of operations here, with its laws in the
  locale \<open>moderation_store\<close>, interpreted on the in-memory store of the sources. \<open>serde_json\<close>'s
  reading and writing of the records are the fields of \<open>mod_codec\<close>.
\<close>

section \<open>Subjects, hashes, records\<close>

definition SUSPENSIONS :: string where "SUSPENSIONS = ''suspensions''"
definition BLOCKS :: string where "BLOCKS = ''blocks''"
definition CATALOG_BLOCKS :: string where "CATALOG_BLOCKS = ''catalog-blocks''"
definition AUDIT :: string where "AUDIT = ''audit''"
definition SESSIONS :: string where "SESSIONS = ''sessions''"
definition MAX_REASON_CHARS :: nat where "MAX_REASON_CHARS = 1000"

lemmas kind_defs = SUSPENSIONS_def BLOCKS_def CATALOG_BLOCKS_def AUDIT_def SESSIONS_def

definition canonical_subject :: "string \<Rightarrow> string" where
  "canonical_subject sub = subject_id_bind sub"

definition valid_subject :: "string \<Rightarrow> bool" where
  "valid_subject s \<longleftrightarrow> 1 \<le> length s \<and> length s \<le> 248 \<and> s \<noteq> ''.'' \<and> \<not> str_contains ''..'' s \<and>
     list_all (\<lambda>b. is_ascii_alphanumeric b \<or> b \<in> set '':._@-'') s"

definition valid_hash :: "string \<Rightarrow> bool" where
  "valid_hash h \<longleftrightarrow> length h = 64 \<and> list_all is_ascii_hexdigit h"

record Suspension =
  sp_subject :: string
  sp_reason :: string
  sp_report_id :: "string option"
  sp_hide_catalog :: bool
  sp_by :: string
  sp_at :: int
  sp_lifted_by :: "string option"
  sp_lifted_at :: "int option"

record Block =
  bl_hash :: string
  bl_reason :: string
  bl_report_id :: "string option"
  bl_by :: string
  bl_at :: int
  bl_lifted_by :: "string option"
  bl_lifted_at :: "int option"

record CatalogBlock =
  cb_subject :: string
  cb_reason :: string
  cb_report_id :: "string option"
  cb_by :: string
  cb_at :: int
  cb_lifted_by :: "string option"
  cb_lifted_at :: "int option"

record BlobOwner =
  bo_hash :: string
  bo_subject :: string
  bo_endpoint_id :: string
  bo_at :: int

record mod_codec =
  suspension_to_vec :: "Suspension \<Rightarrow> bytes"
  suspension_from_slice :: "bytes \<Rightarrow> Suspension option"
  block_to_vec :: "Block \<Rightarrow> bytes"
  block_from_slice :: "bytes \<Rightarrow> Block option"
  catalog_block_to_vec :: "CatalogBlock \<Rightarrow> bytes"
  catalog_block_from_slice :: "bytes \<Rightarrow> CatalogBlock option"


section \<open>The record store\<close>

record 's mod_store =
  ms_list_records :: "string \<Rightarrow> ('s, bytes list, string) io"
  ms_put_record :: "string \<Rightarrow> string \<Rightarrow> bytes \<Rightarrow> ('s, unit, string) io"

text \<open>
  What the callers rely on, over the contents \<open>objects s kind key\<close>: a listing returns the records of
  its kind and changes nothing, a successful write is exactly that write, and a failed one may or
  may not have happened but touches nothing else.
\<close>

definition moderation_kinds :: "string list" where
  "moderation_kinds = [SUSPENSIONS, BLOCKS, CATALOG_BLOCKS, AUDIT, SESSIONS]"

locale moderation_store =
  fixes st :: "'s mod_store" and inv :: "'s \<Rightarrow> bool"
    and objects :: "'s \<Rightarrow> string \<Rightarrow> string \<Rightarrow> bytes option"
  assumes list_ok: "kind \<in> set moderation_kinds \<Longrightarrow> inv s \<Longrightarrow>
      ms_list_records st kind s = (Ok raws, s') \<Longrightarrow> set raws = ran (objects s kind)"
    and list_state: "kind \<in> set moderation_kinds \<Longrightarrow> objects (snd (ms_list_records st kind s)) = objects s"
    and list_inv: "keeps inv (ms_list_records st kind)"
    and put_ok: "kind \<in> set moderation_kinds \<Longrightarrow> ms_put_record st kind key body s = (Ok (), s') \<Longrightarrow>
      objects s' = (objects s)(kind := (objects s kind)(key \<mapsto> body))"
    and put_err: "kind \<in> set moderation_kinds \<Longrightarrow> ms_put_record st kind key body s = (Err e, s') \<Longrightarrow>
      objects s' = objects s \<or> objects s' = (objects s)(kind := (objects s kind)(key \<mapsto> body))"
    and put_inv: "keeps inv (ms_put_record st kind key body)"

text \<open>The in-memory store: one table under \<open>kind/key\<close>, and a switch that fails every call.\<close>

record MemModeration =
  mm_records :: "(string, bytes) table"
  mm_fail :: bool
  mm_session_gets :: nat

definition mem_list_records :: "string \<Rightarrow> (MemModeration, bytes list, string) io" where
  "mem_list_records kind m =
     (if mm_fail m then Err ''down''
      else Ok (map snd (filter (\<lambda>(k, _). starts_with (kind @ ''/'') k) (mm_records m))), m)"

definition mem_put_record :: "string \<Rightarrow> string \<Rightarrow> bytes \<Rightarrow> (MemModeration, unit, string) io" where
  "mem_put_record kind key body m =
     (if mm_fail m then (Err ''down'', m)
      else (Ok (), m\<lparr>mm_records := tinsert (kind @ ''/'' @ key) body (mm_records m)\<rparr>))"

definition mem_get_session :: "string \<Rightarrow> (MemModeration, bytes option, string) io" where
  "mem_get_session endpoint m =
     (let m = m\<lparr>mm_session_gets := mm_session_gets m + 1\<rparr> in
      (if mm_fail m then Err ''down'' else Ok (tget (mm_records m) (SESSIONS @ ''/'' @ endpoint)), m))"

definition mem_store :: "MemModeration mod_store" where
  "mem_store = \<lparr>ms_list_records = mem_list_records, ms_put_record = mem_put_record\<rparr>"


section \<open>The view\<close>

record Moderation =
  mv_suspensions :: "(string, Suspension) table"
  mv_blocks :: "(string, Block) table"
  mv_catalog_blocks :: "(string, CatalogBlock) table"

definition moderation_default :: Moderation where
  "moderation_default = \<lparr>mv_suspensions = [], mv_blocks = [], mv_catalog_blocks = []\<rparr>"

definition suspension :: "Moderation \<Rightarrow> string \<Rightarrow> Suspension option" where
  "suspension v subject = tget (mv_suspensions v) (canonical_subject subject)"

definition is_suspended :: "Moderation \<Rightarrow> string \<Rightarrow> bool" where
  "is_suspended v subject \<longleftrightarrow> suspension v subject \<noteq> None"

definition is_blocked :: "Moderation \<Rightarrow> string \<Rightarrow> bool" where
  "is_blocked v hash_hex \<longleftrightarrow> tcontains (mv_blocks v) (to_ascii_lowercase hash_hex)"

definition catalog_hidden :: "Moderation \<Rightarrow> string \<Rightarrow> bool" where
  "catalog_hidden v subject =
     (let subject = canonical_subject subject in
      tcontains (mv_catalog_blocks v) subject \<or>
      (case suspension v subject of Some s \<Rightarrow> sp_hide_catalog s | None \<Rightarrow> False))"

definition active_catalog_blocks :: "Moderation \<Rightarrow> CatalogBlock list" where
  "active_catalog_blocks v = sort_key cb_subject (tvalues (mv_catalog_blocks v))"

definition active_suspensions :: "Moderation \<Rightarrow> Suspension list" where
  "active_suspensions v = sort_key sp_subject (tvalues (mv_suspensions v))"

definition active_blocks :: "Moderation \<Rightarrow> Block list" where
  "active_blocks v = sort_key bl_hash (tvalues (mv_blocks v))"

text \<open>The step the three \<open>apply_*\<close> methods share: a lifted record leaves, any other one enters.\<close>

definition apply_record :: "('r \<Rightarrow> string) \<Rightarrow> ('r \<Rightarrow> bool) \<Rightarrow> 'r \<Rightarrow> (string, 'r) table \<Rightarrow> (string, 'r) table" where
  "apply_record key lifted r t = (if lifted r then tremove (key r) t else tinsert (key r) r t)"

abbreviation sp_lifted :: "Suspension \<Rightarrow> bool" where "sp_lifted s \<equiv> sp_lifted_at s \<noteq> None"
abbreviation bl_lifted :: "Block \<Rightarrow> bool" where "bl_lifted b \<equiv> bl_lifted_at b \<noteq> None"
abbreviation cb_lifted :: "CatalogBlock \<Rightarrow> bool" where "cb_lifted b \<equiv> cb_lifted_at b \<noteq> None"

definition apply_suspension :: "Suspension \<Rightarrow> Moderation \<Rightarrow> Moderation" where
  "apply_suspension s v = v\<lparr>mv_suspensions := apply_record sp_subject sp_lifted s (mv_suspensions v)\<rparr>"

definition apply_block :: "Block \<Rightarrow> Moderation \<Rightarrow> Moderation" where
  "apply_block b v = v\<lparr>mv_blocks := apply_record bl_hash bl_lifted b (mv_blocks v)\<rparr>"

definition apply_catalog_block :: "CatalogBlock \<Rightarrow> Moderation \<Rightarrow> Moderation" where
  "apply_catalog_block b v = v\<lparr>mv_catalog_blocks := apply_record cb_subject cb_lifted b (mv_catalog_blocks v)\<rparr>"

text \<open>One loop of \<open>reload\<close>: unreadable and lifted records are skipped.\<close>

definition load_records ::
  "('r \<Rightarrow> string) \<Rightarrow> ('r \<Rightarrow> bool) \<Rightarrow> (bytes \<Rightarrow> 'r option) \<Rightarrow> bytes list \<Rightarrow> (string, 'r) table" where
  "load_records key lifted decode raws =
     tcollect (\<lambda>raw. case decode raw of
         Some r \<Rightarrow> if lifted r then None else Some (key r, r)
       | None \<Rightarrow> None) raws []"

definition load_view :: "mod_codec \<Rightarrow> 's mod_store \<Rightarrow> ('s, Moderation, string) io" where
  "load_view cx st =
     io_bind (ms_list_records st SUSPENSIONS) (\<lambda>suspensions.
     io_bind (ms_list_records st BLOCKS) (\<lambda>blocks.
     io_bind (ms_list_records st CATALOG_BLOCKS) (\<lambda>catalog_blocks.
       io_return \<lparr>mv_suspensions = load_records sp_subject sp_lifted (suspension_from_slice cx) suspensions,
                  mv_blocks = load_records bl_hash bl_lifted (block_from_slice cx) blocks,
                  mv_catalog_blocks =
                    load_records cb_subject cb_lifted (catalog_block_from_slice cx) catalog_blocks\<rparr>)))"

definition reload :: "mod_codec \<Rightarrow> 's mod_store \<Rightarrow> ('s \<times> Moderation, unit, string) io" where
  "reload cx st sv = (case load_view cx st (fst sv) of
       (Ok v, s) \<Rightarrow> (Ok (), (s, v))
     | (Err e, s) \<Rightarrow> (Err e, (s, snd sv)))"



text \<open>One tick of the periodic refresh (\<open>spawn_refresh\<close>): a failed reload is only logged.\<close>

definition refresh_tick :: "mod_codec \<Rightarrow> 's mod_store \<Rightarrow> 's \<times> Moderation \<Rightarrow> 's \<times> Moderation" where
  "refresh_tick cx st sv = snd (reload cx st sv)"


section \<open>The in-memory store is a moderation store\<close>

definition mem_objects :: "MemModeration \<Rightarrow> string \<Rightarrow> string \<Rightarrow> bytes option" where
  "mem_objects m kind key =
     (if kind \<in> set moderation_kinds then tget (mm_records m) (kind @ ''/'' @ key) else None)"

lemma moderation_kinds_no_slash: "k \<in> set moderation_kinds \<Longrightarrow> CHR ''/'' \<notin> set k"
  by (auto simp: moderation_kinds_def kind_defs)

lemma kind_key_inject:
  assumes "k \<in> set moderation_kinds" and "k' \<in> set moderation_kinds"
  shows "k @ ''/'' @ a = k' @ ''/'' @ b \<longleftrightarrow> k = k' \<and> a = b"
proof -
  have t: "takeWhile (\<lambda>c. c \<noteq> CHR ''/'') (k @ ''/'' @ a) = k" if "CHR ''/'' \<notin> set k" for k a
    using that by (subst takeWhile_append2) auto
  show ?thesis
    using t[OF moderation_kinds_no_slash[OF assms(1)], of a] t[OF moderation_kinds_no_slash[OF assms(2)], of b]
    by auto
qed

lemma mem_list_ran:
  assumes "wf_table (mm_records m)" and "kind \<in> set moderation_kinds"
  shows "set (map snd (filter (\<lambda>(k, _). starts_with (kind @ ''/'') k) (mm_records m))) = ran (mem_objects m kind)"
  using assms
  by (force simp: ran_def mem_objects_def wf_table_def starts_with_def str_simps map_of_eq_Some_iff
      split: prod.splits)

lemma mem_put_objects:
  assumes "kind \<in> set moderation_kinds"
  shows "mem_objects (m\<lparr>mm_records := tinsert (kind @ ''/'' @ key) body (mm_records m)\<rparr>) =
         (mem_objects m)(kind := (mem_objects m kind)(key \<mapsto> body))"
  using kind_key_inject[OF _ assms] assms
  by (auto simp: fun_eq_iff mem_objects_def table_simps)

interpretation mem: moderation_store mem_store "\<lambda>m. wf_table (mm_records m)" mem_objects
  by unfold_locales
    (auto simp: mem_store_def mem_list_records_def mem_put_record_def mem_put_objects[simplified] keeps_def
      wf_table_tinsert simp del: set_map simp flip: mem_list_ran split: if_splits)



section \<open>The view's invariant\<close>

lemma tget_apply_record:
  "tget (apply_record key lifted r t) k =
   (if k = key r then if lifted r then None else Some r else tget t k)"
  by (simp add: apply_record_def table_simps)

text \<open>Each table holds active records only, under their own key.\<close>

definition table_active :: "('r \<Rightarrow> string) \<Rightarrow> ('r \<Rightarrow> bool) \<Rightarrow> (string, 'r) table \<Rightarrow> bool" where
  "table_active key lifted t \<longleftrightarrow>
     wf_table t \<and> (\<forall>k r. tget t k = Some r \<longrightarrow> key r = k \<and> \<not> lifted r)"

definition view_ok :: "Moderation \<Rightarrow> bool" where
  "view_ok v \<longleftrightarrow> table_active sp_subject sp_lifted (mv_suspensions v) \<and>
     table_active bl_hash bl_lifted (mv_blocks v) \<and> table_active cb_subject cb_lifted (mv_catalog_blocks v)"

lemma table_active_apply: "table_active key lifted t \<Longrightarrow> table_active key lifted (apply_record key lifted r t)"
  by (auto simp: table_active_def tget_apply_record)
    (auto simp: apply_record_def wf_table_tinsert wf_table_tremove)

lemma table_active_load: "table_active key lifted (load_records key lifted decode raws)"
  by (auto simp: table_active_def load_records_def wf_tcollect
      dest!: tget_tcollect_SomeD split: option.splits if_splits)

lemma view_ok_default: "view_ok moderation_default"
  by (simp add: view_ok_def moderation_default_def table_active_def)

lemma view_ok_apply [intro]:
  "view_ok v \<Longrightarrow> view_ok (apply_suspension s v)"
  "view_ok v \<Longrightarrow> view_ok (apply_block b v)"
  "view_ok v \<Longrightarrow> view_ok (apply_catalog_block c v)"
  by (auto simp: view_ok_def apply_suspension_def apply_block_def apply_catalog_block_def table_active_apply)

lemma load_view_ok: "load_view cx st s = (Ok v, s') \<Longrightarrow> view_ok v"
  by (auto simp: load_view_def io_Ok_iffs view_ok_def table_active_load)

lemma keeps_reload: "keeps (\<lambda>sv. view_ok (snd sv)) (reload cx st)"
  by (rule keepsI) (auto simp: reload_def load_view_ok split: prod.splits result.splits)

lemma canonical_subject_prefix [simp]: "canonical_subject (''arkavo:'' @ u) = u"
  unfolding canonical_subject_def subject_id_bind_def by (simp only: strip_prefix_append option.case)


section \<open>Reloading\<close>

text \<open>What a kind's contents say is active under a key.\<close>

definition active_record ::
  "('r \<Rightarrow> bool) \<Rightarrow> (bytes \<Rightarrow> 'r option) \<Rightarrow> (string \<Rightarrow> bytes option) \<Rightarrow> string \<Rightarrow> 'r option" where
  "active_record lifted decode contents k =
     Option.bind (Option.bind (contents k) decode) (\<lambda>r. if lifted r then None else Some r)"

definition well_keyed ::
  "('r \<Rightarrow> string) \<Rightarrow> (bytes \<Rightarrow> 'r option) \<Rightarrow> (string \<Rightarrow> bytes option) \<Rightarrow> bool" where
  "well_keyed key decode contents \<longleftrightarrow>
     (\<forall>k raw r. contents k = Some raw \<longrightarrow> decode raw = Some r \<longrightarrow> key r = k)"

lemma load_records_active:
  assumes "set raws = ran contents" and "well_keyed key decode contents"
  shows "tget (load_records key lifted decode raws) k = active_record lifted decode contents k"
proof -
  let ?f = "\<lambda>raw. case decode raw of Some r \<Rightarrow> if lifted r then None else Some (key r, r) | None \<Rightarrow> None"
  have f: "?f raw = Some (k, r) \<longleftrightarrow> decode raw = Some r \<and> \<not> lifted r \<and> key r = k" for raw k r
    by (auto split: option.splits)
  have spec: "raw \<in> set raws \<and> ?f raw = Some (k, r) \<Longrightarrow> active_record lifted decode contents k = Some r" for raw r
    using assms by (auto simp: f active_record_def well_keyed_def ran_def)
  show ?thesis
  proof (cases "active_record lifted decode contents k")
    case None
    then have "?f raw \<noteq> Some (k, r)" if "raw \<in> set raws" for raw r using spec that by fastforce
    then show ?thesis
      using None unfolding load_records_def by (simp add: tget_tcollect_notin)
  next
    case (Some r)
    then obtain raw where raw: "contents k = Some raw" "decode raw = Some r" "\<not> lifted r"
      by (auto simp: active_record_def bind_eq_Some_conv split: if_splits)
    then have "raw \<in> set raws" "?f raw = Some (k, r)"
      using assms by (auto simp: f well_keyed_def ran_def)
    then have "tget (tcollect ?f raws []) k = Some r"
      by (rule tget_tcollect_in) (use spec Some in fastforce)
    then show ?thesis by (simp add: load_records_def Some)
  qed
qed

lemma load_records_refines:
  "set raws = ran contents \<Longrightarrow> well_keyed key decode contents \<Longrightarrow>
   tget (load_records key lifted decode raws) = active_record lifted decode contents"
  by (rule ext) (rule load_records_active)

definition store_well_keyed :: "mod_codec \<Rightarrow> (string \<Rightarrow> string \<Rightarrow> bytes option) \<Rightarrow> bool" where
  "store_well_keyed cx contents \<longleftrightarrow>
     well_keyed sp_subject (suspension_from_slice cx) (contents SUSPENSIONS) \<and>
     well_keyed bl_hash (block_from_slice cx) (contents BLOCKS) \<and>
     well_keyed cb_subject (catalog_block_from_slice cx) (contents CATALOG_BLOCKS)"

definition view_refines :: "mod_codec \<Rightarrow> (string \<Rightarrow> string \<Rightarrow> bytes option) \<Rightarrow> Moderation \<Rightarrow> bool" where
  "view_refines cx contents v \<longleftrightarrow>
     tget (mv_suspensions v) = active_record sp_lifted (suspension_from_slice cx) (contents SUSPENSIONS) \<and>
     tget (mv_blocks v) = active_record bl_lifted (block_from_slice cx) (contents BLOCKS) \<and>
     tget (mv_catalog_blocks v) =
       active_record cb_lifted (catalog_block_from_slice cx) (contents CATALOG_BLOCKS)"

lemma kinds_in [simp]:
  "SUSPENSIONS \<in> set moderation_kinds" "BLOCKS \<in> set moderation_kinds"
  "CATALOG_BLOCKS \<in> set moderation_kinds" "AUDIT \<in> set moderation_kinds" "SESSIONS \<in> set moderation_kinds"
  by (simp_all add: moderation_kinds_def)

lemma kinds_distinct [simp]: "SUSPENSIONS \<noteq> AUDIT" "BLOCKS \<noteq> AUDIT" "CATALOG_BLOCKS \<noteq> AUDIT" "SESSIONS \<noteq> AUDIT"
  by (simp_all add: kind_defs)

context moderation_store
begin

lemma list_records_ok:
  assumes "ms_list_records st kind s = (Ok raws, s')" and "inv s" and "kind \<in> set moderation_kinds"
  shows "set raws = ran (objects s kind) \<and> objects s' = objects s \<and> inv s'"
  using list_ok[OF assms(3,2,1)] list_state[OF assms(3), of s] keepsD'[OF list_inv assms(2,1)] assms(1)
  by simp

lemma load_view_refines:
  assumes "load_view cx st s = (Ok v, s')" and "inv s" and "store_well_keyed cx (objects s)"
  shows "view_refines cx (objects s) v \<and> objects s' = objects s"
proof -
  from assms(1) obtain a b c t u where
    l: "ms_list_records st SUSPENSIONS s = (Ok a, t)" "ms_list_records st BLOCKS t = (Ok b, u)"
      "ms_list_records st CATALOG_BLOCKS u = (Ok c, s')"
    and v: "v = \<lparr>mv_suspensions = load_records sp_subject sp_lifted (suspension_from_slice cx) a,
       mv_blocks = load_records bl_hash bl_lifted (block_from_slice cx) b,
       mv_catalog_blocks = load_records cb_subject cb_lifted (catalog_block_from_slice cx) c\<rparr>"
    by (auto simp: load_view_def io_Ok_iffs)
  note 1 = list_records_ok[OF l(1) assms(2)]
  note 2 = list_records_ok[OF l(2)]
  note 3 = list_records_ok[OF l(3)]
  from 1 2 3 assms(3) show ?thesis
    by (simp add: v view_refines_def store_well_keyed_def load_records_refines)
qed

end


text \<open>C15: Reloading makes the view exactly what the store says: each subject and hash is moderated
  precisely when the store's record under it reads as one that is not lifted. When the store fails,
  at whichever of the three listings, the previous view stays as it was.\<close>

theorem reload_refines_store:
  assumes "moderation_store st ok objects" and "ok s" and "store_well_keyed cx (objects s)"
    and "reload cx st (s, v) = (r, (s', v'))"
  shows "case r of Ok _ \<Rightarrow> view_refines cx (objects s) v' | Err _ \<Rightarrow> v' = v"
  using assms(4) moderation_store.load_view_refines[OF assms(1) _ assms(2,3)]
  by (auto simp: reload_def split: prod.splits result.splits)

lemma is_suspended_alias: "is_suspended v (''arkavo:'' @ u) \<longleftrightarrow> tcontains (mv_suspensions v) u"
  by (simp only: is_suspended_def suspension_def tcontains_def canonical_subject_prefix)

lemma is_blocked_case: "to_ascii_lowercase h = to_ascii_lowercase h' \<Longrightarrow> is_blocked v h = is_blocked v h'"
  by (simp add: is_blocked_def)

lemma suspension_apply:
  "suspension (apply_suspension s v) subject =
   (if canonical_subject subject = sp_subject s then if sp_lifted s then None else Some s
    else suspension v subject)"
  by (simp add: suspension_def apply_suspension_def tget_apply_record)

lemma is_blocked_apply:
  "is_blocked (apply_block b v) h =
   (if to_ascii_lowercase h = bl_hash b then \<not> bl_lifted b else is_blocked v h)"
  by (simp add: is_blocked_def tcontains_def apply_block_def tget_apply_record)

lemma catalog_block_apply:
  "tcontains (mv_catalog_blocks (apply_catalog_block b v)) k =
   (if k = cb_subject b then \<not> cb_lifted b else tcontains (mv_catalog_blocks v) k)"
  by (simp add: tcontains_def apply_catalog_block_def tget_apply_record)

lemma suspension_other [simp]:
  "suspension (apply_block b v) = suspension v" "suspension (apply_catalog_block c v) = suspension v"
  by (simp_all add: fun_eq_iff suspension_def apply_block_def apply_catalog_block_def)


section \<open>A sample store\<close>

definition sample_suspension :: Suspension where
  "sample_suspension = \<lparr>sp_subject = ''mallory'', sp_reason = ''spam'', sp_report_id = None,
     sp_hide_catalog = True, sp_by = ''client:mod'', sp_at = 1400, sp_lifted_by = None, sp_lifted_at = None\<rparr>"

definition sample_codec :: mod_codec where
  "sample_codec = \<lparr>suspension_to_vec = (\<lambda>_. ''S''),
     suspension_from_slice = (\<lambda>b. if b = ''S'' then Some sample_suspension else None),
     block_to_vec = (\<lambda>_. ''B''), block_from_slice = (\<lambda>_. None),
     catalog_block_to_vec = (\<lambda>_. ''C''), catalog_block_from_slice = (\<lambda>_. None)\<rparr>"

definition sample_mem :: MemModeration where
  "sample_mem = \<lparr>mm_records = [(''suspensions/mallory'', ''S'')], mm_fail = False, mm_session_gets = 0\<rparr>"

lemma sample_mem_keyed: "store_well_keyed sample_codec (mem_objects sample_mem)"
  by (auto simp: store_well_keyed_def well_keyed_def sample_codec_def mem_objects_def sample_mem_def
      kind_defs sample_suspension_def moderation_kinds_def split: if_splits)

lemma sample_reload:
  "fst (reload sample_codec mem_store (sample_mem, moderation_default)) = Ok ()"
  by code_simp

theorem reload_refines_store_witness:
  "is_suspended (snd (snd (reload sample_codec mem_store (sample_mem, moderation_default)))) ''arkavo:mallory''"
proof -
  obtain s v where r: "reload sample_codec mem_store (sample_mem, moderation_default) = (Ok (), (s, v))"
    using sample_reload by (metis prod.collapse)
  have "wf_table (mm_records sample_mem)" by (simp add: sample_mem_def wf_table_def)
  from reload_refines_store[OF mem.moderation_store_axioms this sample_mem_keyed r]
  have "tget (mv_suspensions v) ''mallory'' = Some sample_suspension"
    by (simp add: view_refines_def active_record_def mem_objects_def sample_mem_def kind_defs
        moderation_kinds_def sample_codec_def)
      (simp add: sample_suspension_def)
  then show ?thesis
    using is_suspended_alias[of v "''mallory''"] by (simp add: r tcontains_def)
qed

end
