(* ===== verification/Publish_Gate.thy ===== *)
theory Publish_Gate
  imports Moderation
begin

text \<open>
  Which iroh endpoints may push, and for whom (\<open>src/moderation.rs\<close>, lines 190--785): sessions, the
  sealed session records, the lookups in the session store with their bounds, and the decision on
  a push. An endpoint id is its string form. BLAKE3, hex and the record serialization are the
  fields of \<open>gate_ext\<close>.
\<close>

section \<open>Data\<close>

type_synonym EndpointId = string

definition SESSION_LOOKUPS :: nat where "SESSION_LOOKUPS = 16"
definition SESSION_MISS_TTL :: nat where "SESSION_MISS_TTL = from_secs 10"
definition SESSION_MISSES :: nat where "SESSION_MISSES = 4096"
definition RECORD_KEY_CONTEXT :: string where
  "RECORD_KEY_CONTEXT = ''tdf-iroh-s3 2026-11-01 publish-session record tag v1''"

record SessionRecord =
  sr_endpoint_id :: string
  sr_subject :: string
  sr_expires_at :: int
  sr_chain :: "StoredEntity list option"

record SealedRecord =
  sl_kid :: string
  sl_record :: bytes
  sl_tag :: string

record RecordKey =
  rk_key :: bytes
  rk_kid :: string

record gate_ext =
  gx_derive_key :: "string \<Rightarrow> bytes \<Rightarrow> bytes"
  gx_hash :: "bytes \<Rightarrow> bytes"
  gx_keyed_hash :: "bytes \<Rightarrow> bytes \<Rightarrow> bytes"
  gx_hex_encode :: "bytes \<Rightarrow> string"
  gx_hash_to_hex :: "bytes \<Rightarrow> string"
  gx_hash_from_hex :: "string \<Rightarrow> bytes option"
  gx_record_to_raw :: "SessionRecord \<Rightarrow> bytes"
  gx_record_from_str :: "bytes \<Rightarrow> SessionRecord option"
  gx_sealed_to_vec :: "SealedRecord \<Rightarrow> bytes"
  gx_sealed_from_slice :: "bytes \<Rightarrow> SealedRecord option"

definition record_key_derive :: "gate_ext \<Rightarrow> bytes \<Rightarrow> RecordKey" where
  "record_key_derive x secret =
     (let key = gx_derive_key x RECORD_KEY_CONTEXT secret in
      \<lparr>rk_key = key, rk_kid = gx_hex_encode x (take 8 (gx_hash x key))\<rparr>)"

definition record_tag :: "gate_ext \<Rightarrow> RecordKey \<Rightarrow> bytes \<Rightarrow> bytes" where
  "record_tag x k r = gx_keyed_hash x (rk_key k) r"

record Session =
  ss_subject :: string
  ss_expires :: nat
  ss_chain :: "StoredEntity list option"

type_synonym HeldSession = "string \<times> StoredEntity list option"

datatype PushRefusal = NoSession | Suspended | Blocked

text \<open>What waiting for the session store gives: its answer in time, or none.\<close>

datatype lookup_answer = Answered "(bytes option, string) result" | TimedOut

text \<open>\<open>pg_lookups\<close> counts the semaphore's free permits; \<open>pg_has_store\<close> is whether a session store
  is configured; \<open>pg_mode\<close> is the decider's mode, the only part of it a push reads.\<close>

record PublishGate =
  pg_moderation :: Moderation
  pg_sessions :: "(EndpointId, Session) table"
  pg_connections :: "(nat, EndpointId) table"
  pg_has_store :: bool
  pg_lookups :: nat
  pg_misses :: "(EndpointId, nat) table"
  pg_mode :: PublishDecisions
  pg_session_ttl :: nat
  pg_record_key :: "RecordKey option"

definition gate_new :: "Moderation \<Rightarrow> nat \<Rightarrow> PublishGate" where
  "gate_new moderation default_ttl = \<lparr>pg_moderation = moderation, pg_sessions = [], pg_connections = [],
     pg_has_store = False, pg_lookups = SESSION_LOOKUPS, pg_misses = [], pg_mode = Local,
     pg_session_ttl = default_ttl, pg_record_key = None\<rparr>"

text \<open>Only the first key counts (\<open>OnceLock::set\<close>).\<close>

definition set_session_key :: "gate_ext \<Rightarrow> bytes \<Rightarrow> PublishGate \<Rightarrow> PublishGate" where
  "set_session_key x secret g = (case pg_record_key g of
       None \<Rightarrow> g\<lparr>pg_record_key := Some (record_key_derive x secret)\<rparr>
     | Some _ \<Rightarrow> g)"

definition with_session_ttl :: "nat \<Rightarrow> PublishGate \<Rightarrow> PublishGate" where
  "with_session_ttl ttl g = g\<lparr>pg_session_ttl := ttl\<rparr>"

definition with_decider :: "PublishDecisions \<Rightarrow> PublishGate \<Rightarrow> PublishGate" where
  "with_decider mode g = g\<lparr>pg_mode := mode\<rparr>"

definition with_session_store :: "PublishGate \<Rightarrow> PublishGate" where
  "with_session_store g = g\<lparr>pg_has_store := True\<rparr>"

text \<open>The instants one push reads, in the order the code reads them, and the Unix time.\<close>

record gate_clock =
  gc_held :: nat
  gc_recent :: nat
  gc_expires :: nat
  gc_retain :: nat
  gc_missed :: nat
  gc_now_secs :: int


section \<open>Sealed records\<close>

definition sealed_record :: "gate_ext \<Rightarrow> RecordKey \<Rightarrow> bytes \<Rightarrow> SealedRecord" where
  "sealed_record x key r =
     \<lparr>sl_kid = rk_kid key, sl_record = r, sl_tag = gx_hash_to_hex x (record_tag x key r)\<rparr>"

definition seal_raw :: "gate_ext \<Rightarrow> PublishGate \<Rightarrow> bytes \<Rightarrow> bytes option" where
  "seal_raw x g r = (case pg_record_key g of
       None \<Rightarrow> None
     | Some key \<Rightarrow> Some (gx_sealed_to_vec x (sealed_record x key r)))"

definition seal :: "gate_ext \<Rightarrow> PublishGate \<Rightarrow> SessionRecord \<Rightarrow> bytes option" where
  "seal x g r = seal_raw x g (gx_record_to_raw x r)"

definition unseal :: "gate_ext \<Rightarrow> PublishGate \<Rightarrow> bytes \<Rightarrow> SessionRecord option" where
  "unseal x g body = (case pg_record_key g of
       None \<Rightarrow> None
     | Some key \<Rightarrow>
         (case gx_sealed_from_slice x body of
            None \<Rightarrow> None
          | Some sealed \<Rightarrow>
              if sl_kid sealed \<noteq> rk_kid key then None
              else (case gx_hash_from_hex x (sl_tag sealed) of
                  None \<Rightarrow> None
                | Some tag \<Rightarrow>
                    if tag = record_tag x key (sl_record sealed)
                    then gx_record_from_str x (sl_record sealed) else None)))"


section \<open>Sessions and connections\<close>

definition open_session_with_chain ::
  "nat \<Rightarrow> nat \<Rightarrow> EndpointId \<Rightarrow> string \<Rightarrow> nat \<Rightarrow> StoredEntity list option \<Rightarrow> PublishGate \<Rightarrow>
   nat \<times> PublishGate" where
  "open_session_with_chain t1 t2 endpoint subject ttl chain g =
     (let expires = t1 + ttl;
          s = tretain (\<lambda>_ v. ss_expires v > t2) (pg_sessions g) in
      (expires, g\<lparr>pg_sessions := tinsert endpoint
         \<lparr>ss_subject = canonical_subject subject, ss_expires = expires, ss_chain = chain\<rparr> s\<rparr>))"

definition gate_open_session ::
  "nat \<Rightarrow> nat \<Rightarrow> EndpointId \<Rightarrow> string \<Rightarrow> nat \<Rightarrow> PublishGate \<Rightarrow> nat \<times> PublishGate" where
  "gate_open_session t1 t2 endpoint subject ttl g =
     open_session_with_chain t1 t2 endpoint subject ttl None g"

definition connected :: "nat \<Rightarrow> EndpointId option \<Rightarrow> PublishGate \<Rightarrow> PublishGate" where
  "connected connection_id endpoint g = (case endpoint of
       Some e \<Rightarrow> g\<lparr>pg_connections := tinsert connection_id e (pg_connections g)\<rparr>
     | None \<Rightarrow> g)"

definition closed :: "nat \<Rightarrow> PublishGate \<Rightarrow> PublishGate" where
  "closed connection_id g = g\<lparr>pg_connections := tremove connection_id (pg_connections g)\<rparr>"

definition held_session :: "nat \<Rightarrow> PublishGate \<Rightarrow> EndpointId \<Rightarrow> HeldSession option" where
  "held_session now g endpoint = (case tget (pg_sessions g) endpoint of
       Some s \<Rightarrow> if ss_expires s > now then Some (ss_subject s, ss_chain s) else None
     | None \<Rightarrow> None)"


section \<open>Lookups\<close>

definition recently_missed :: "nat \<Rightarrow> PublishGate \<Rightarrow> EndpointId \<Rightarrow> bool" where
  "recently_missed now g endpoint = (case tget (pg_misses g) endpoint of
       Some at \<Rightarrow> elapsed now at < SESSION_MISS_TTL
     | None \<Rightarrow> False)"

text \<open>\<open>min_by_key\<close> over the table: the first entry with the least instant.\<close>

fun oldest_miss :: "(EndpointId \<times> nat) list \<Rightarrow> (EndpointId \<times> nat) option" where
  "oldest_miss [] = None"
| "oldest_miss (m # ms) = (case oldest_miss ms of
       None \<Rightarrow> Some m
     | Some n \<Rightarrow> if snd m \<le> snd n then Some m else Some n)"

definition missed :: "nat \<Rightarrow> EndpointId \<Rightarrow> PublishGate \<Rightarrow> PublishGate" where
  "missed now endpoint g =
     (let m = pg_misses g;
          m = (if length m \<ge> SESSION_MISSES
               then tretain (\<lambda>_ at. elapsed now at < SESSION_MISS_TTL) m else m);
          m = (if length m \<ge> SESSION_MISSES
               then (case oldest_miss m of Some (oldest, _) \<Rightarrow> tremove oldest m | None \<Rightarrow> m) else m) in
      g\<lparr>pg_misses := tinsert endpoint now m\<rparr>)"

definition look_up ::
  "gate_ext \<Rightarrow> gate_clock \<Rightarrow> EndpointId \<Rightarrow> lookup_answer \<Rightarrow> PublishGate \<Rightarrow> HeldSession option \<times> PublishGate" where
  "look_up x clk endpoint answer g = (case answer of
       TimedOut \<Rightarrow> (None, g)
     | Answered (Err e) \<Rightarrow> (None, g)
     | Answered (Ok None) \<Rightarrow> (None, g)
     | Answered (Ok (Some body)) \<Rightarrow>
         (case unseal x g body of
            None \<Rightarrow> (None, g)
          | Some r \<Rightarrow>
              (let left = sub_i64 (sr_expires_at r) (gc_now_secs clk) in
               if sr_endpoint_id r \<noteq> endpoint \<or> left \<le> 0 then (None, g)
               else let g = snd (open_session_with_chain (gc_expires clk) (gc_retain clk) endpoint (sr_subject r)
                              (min (from_secs (nat left)) (pg_session_ttl g)) (sr_chain r) g) in
                 (Some (canonical_subject (sr_subject r), sr_chain r), g))))"

text \<open>
  \<open>stored_session\<close> in its two halves, since other requests run while the store is asked: what
  happens before the request is sent, and what happens with its answer.
\<close>

definition lookup_start :: "gate_clock \<Rightarrow> EndpointId \<Rightarrow> PublishGate \<Rightarrow> PublishGate option" where
  "lookup_start clk endpoint g =
     (if \<not> pg_has_store g then None
      else if recently_missed (gc_recent clk) g endpoint then None
      else if pg_lookups g = 0 then None
      else Some (g\<lparr>pg_lookups := pg_lookups g - 1\<rparr>))"

definition lookup_finish ::
  "gate_ext \<Rightarrow> gate_clock \<Rightarrow> EndpointId \<Rightarrow> lookup_answer \<Rightarrow> PublishGate \<Rightarrow> HeldSession option \<times> PublishGate" where
  "lookup_finish x clk endpoint answer g =
     (let (found, g) = look_up x clk endpoint answer g;
          g = (if found = None then missed (gc_missed clk) endpoint g else g) in
      (found, g\<lparr>pg_lookups := pg_lookups g + 1\<rparr>))"

definition stored_session ::
  "gate_ext \<Rightarrow> gate_clock \<Rightarrow> (EndpointId \<Rightarrow> lookup_answer) \<Rightarrow> EndpointId \<Rightarrow> PublishGate \<Rightarrow>
   HeldSession option \<times> PublishGate" where
  "stored_session x clk get_session endpoint g = (case lookup_start clk endpoint g of
       None \<Rightarrow> (None, g)
     | Some g \<Rightarrow> lookup_finish x clk endpoint (get_session endpoint) g)"


section \<open>Pushes\<close>

definition stored_person :: "StoredEntity list \<Rightarrow> string option" where
  "stored_person chain =
     Option.bind (find (\<lambda>e. se_kind e = Subject) chain) (\<lambda>e. json_get_str ''sub'' (se_claims e))"

definition decided_session ::
  "PublishGate \<Rightarrow> string \<Rightarrow> StoredEntity list option \<Rightarrow> (unit, PushRefusal) result" where
  "decided_session g subject chain =
     (if pg_mode g \<noteq> Pdp then Ok ()
      else (case chain of
          None \<Rightarrow> Err NoSession
        | Some c \<Rightarrow>
            (case stored_person c of
               None \<Rightarrow> Err NoSession
             | Some p \<Rightarrow> if canonical_subject p \<noteq> canonical_subject subject then Err NoSession else Ok ())))"

definition push_checks ::
  "PublishGate \<Rightarrow> string \<Rightarrow> EndpointId \<Rightarrow> HeldSession \<Rightarrow> (string \<times> EndpointId, PushRefusal) result" where
  "push_checks g hash_hex endpoint held = (case held of (subject, chain) \<Rightarrow>
     if is_suspended (pg_moderation g) subject then Err Suspended
     else if is_blocked (pg_moderation g) hash_hex then Err Blocked
     else and_then (decided_session g subject chain) (\<lambda>_. Ok (subject, endpoint)))"

definition authorize_push ::
  "gate_ext \<Rightarrow> gate_clock \<Rightarrow> (EndpointId \<Rightarrow> lookup_answer) \<Rightarrow> nat \<Rightarrow> string \<Rightarrow>
   (PublishGate, string \<times> EndpointId, PushRefusal) io" where
  "authorize_push x clk get_session connection_id hash_hex g =
     (case tget (pg_connections g) connection_id of
        None \<Rightarrow> (Err NoSession, g)
      | Some endpoint \<Rightarrow>
          (case held_session (gc_held clk) g endpoint of
             Some held \<Rightarrow> (push_checks g hash_hex endpoint held, g)
           | None \<Rightarrow>
               (case stored_session x clk get_session endpoint g of
                  (Some held, g) \<Rightarrow> (push_checks g hash_hex endpoint held, g)
                | (None, g) \<Rightarrow> (Err NoSession, g))))"



section \<open>Sealed records: lemmas\<close>

text \<open>A stored body this node's key vouches for.\<close>

definition vouched :: "gate_ext \<Rightarrow> RecordKey \<Rightarrow> bytes \<Rightarrow> SessionRecord \<Rightarrow> bool" where
  "vouched x key body r \<longleftrightarrow>
     (\<exists>sealed. gx_sealed_from_slice x body = Some sealed \<and> sl_kid sealed = rk_kid key \<and>
        gx_hash_from_hex x (sl_tag sealed) = Some (gx_keyed_hash x (rk_key key) (sl_record sealed)) \<and>
        gx_record_from_str x (sl_record sealed) = Some r)"

lemma unseal_eq_Some:
  "unseal x g body = Some r \<longleftrightarrow> (\<exists>key. pg_record_key g = Some key \<and> vouched x key body r)"
  by (auto simp: unseal_def vouched_def record_tag_def split: option.splits if_splits)

text \<open>C32: A session record sealed by one instance of the node is read back unchanged by any other
  instance holding the same secret key; before a key is set nothing is sealed and nothing accepted.\<close>

theorem seal_unseal_roundtrip:
  assumes "pg_record_key g = None" and "pg_record_key g' = None"
    and "gx_record_from_str x (gx_record_to_raw x r) = Some r"
    and "gx_sealed_from_slice x (gx_sealed_to_vec x
           (sealed_record x (record_key_derive x secret) (gx_record_to_raw x r))) =
         Some (sealed_record x (record_key_derive x secret) (gx_record_to_raw x r))"
    and "\<And>h. gx_hash_from_hex x (gx_hash_to_hex x h) = Some h"
  shows "(\<exists>body. seal x (set_session_key x secret g) r = Some body \<and>
            unseal x (set_session_key x secret g') body = Some r) \<and>
         seal x g r = None \<and> (\<forall>body. unseal x g' body = None)"
  using assms by (simp add: seal_def seal_raw_def set_session_key_def unseal_def sealed_record_def)


section \<open>Frame lemmas\<close>

text \<open>The parts of the gate a push only reads.\<close>

definition gate_frame :: "PublishGate \<Rightarrow> Moderation \<times> (nat, EndpointId) table \<times> PublishDecisions \<times> nat \<times> RecordKey option" where
  "gate_frame g = (pg_moderation g, pg_connections g, pg_mode g, pg_session_ttl g, pg_record_key g)"

lemma open_session_frame [simp]:
  "gate_frame (snd (open_session_with_chain t1 t2 e s ttl c g)) = gate_frame g"
  "pg_lookups (snd (open_session_with_chain t1 t2 e s ttl c g)) = pg_lookups g"
  "pg_misses (snd (open_session_with_chain t1 t2 e s ttl c g)) = pg_misses g"
  by (simp_all add: open_session_with_chain_def Let_def gate_frame_def)

lemma missed_frame [simp]:
  "gate_frame (missed t e g) = gate_frame g" "pg_lookups (missed t e g) = pg_lookups g"
  "pg_sessions (missed t e g) = pg_sessions g"
  by (simp_all add: missed_def Let_def gate_frame_def)

lemma look_up_frame [simp]:
  "gate_frame (snd (look_up x clk e a g)) = gate_frame g"
  "pg_lookups (snd (look_up x clk e a g)) = pg_lookups g"
  "pg_misses (snd (look_up x clk e a g)) = pg_misses g"
  by (auto simp: look_up_def Let_def split: lookup_answer.splits result.splits option.splits)

lemma lookup_start_frame: "lookup_start clk e g = Some g' \<Longrightarrow> gate_frame g' = gate_frame g"
  by (auto simp: lookup_start_def gate_frame_def split: if_splits)

lemma lookup_finish_simps:
  "fst (lookup_finish x clk e a g) = fst (look_up x clk e a g)"
  "snd (lookup_finish x clk e a g) =
     (let g' = (if fst (look_up x clk e a g) = None then missed (gc_missed clk) e (snd (look_up x clk e a g))
                else snd (look_up x clk e a g)) in g'\<lparr>pg_lookups := pg_lookups g' + 1\<rparr>)"
  by (simp_all add: lookup_finish_def Let_def case_prod_beta)

lemma gate_frame_lookups [simp]: "gate_frame (g\<lparr>pg_lookups := n\<rparr>) = gate_frame g"
  by (simp add: gate_frame_def)

lemma lookup_finish_frame: "gate_frame (snd (lookup_finish x clk e a g)) = gate_frame g"
  by (simp add: lookup_finish_simps Let_def)

lemma stored_session_frame: "gate_frame (snd (stored_session x clk get e g)) = gate_frame g"
  by (auto simp: stored_session_def lookup_finish_frame dest: lookup_start_frame split: option.splits)

lemma gate_frame_eqD:
  "gate_frame g = gate_frame g' \<Longrightarrow>
   pg_moderation g = pg_moderation g' \<and> pg_mode g = pg_mode g' \<and> pg_record_key g = pg_record_key g'"
  by (simp add: gate_frame_def)


section \<open>What a push rests on\<close>

text \<open>The session a push is accepted under: one held and not expired, or a vouched record of the
  store, for that endpoint, not expired.\<close>

definition live_session ::
  "gate_ext \<Rightarrow> gate_clock \<Rightarrow> (EndpointId \<Rightarrow> lookup_answer) \<Rightarrow> PublishGate \<Rightarrow> EndpointId \<Rightarrow>
   string \<Rightarrow> StoredEntity list option \<Rightarrow> bool" where
  "live_session x clk get_session g ep sub chain \<longleftrightarrow>
     (\<exists>s. tget (pg_sessions g) ep = Some s \<and> gc_held clk < ss_expires s \<and>
          ss_subject s = sub \<and> ss_chain s = chain) \<or>
     (\<exists>key body r. pg_record_key g = Some key \<and> get_session ep = Answered (Ok (Some body)) \<and>
          vouched x key body r \<and> sr_endpoint_id r = ep \<and>
          0 < sub_i64 (sr_expires_at r) (gc_now_secs clk) \<and>
          sub = canonical_subject (sr_subject r) \<and> chain = sr_chain r)"

lemma look_up_Some:
  "look_up x clk ep a g = (Some (sub, chain), g') \<Longrightarrow>
   \<exists>key body r. pg_record_key g = Some key \<and> a = Answered (Ok (Some body)) \<and>
     vouched x key body r \<and> sr_endpoint_id r = ep \<and>
     0 < sub_i64 (sr_expires_at r) (gc_now_secs clk) \<and>
     sub = canonical_subject (sr_subject r) \<and> chain = sr_chain r"
  by (auto simp: look_up_def Let_def unseal_eq_Some
      split: lookup_answer.splits result.splits option.splits if_splits)

lemma stored_session_live:
  assumes "stored_session x clk get ep g = (Some (sub, chain), g')"
  shows "live_session x clk get g ep sub chain"
proof -
  from assms obtain g1 where g1: "lookup_start clk ep g = Some g1"
    and f: "fst (look_up x clk ep (get ep) g1) = Some (sub, chain)"
    by (auto simp: stored_session_def lookup_finish_simps split: option.splits)
      (metis fst_conv lookup_finish_simps(1))
  have "pg_record_key g1 = pg_record_key g"
    using gate_frame_eqD[OF lookup_start_frame[OF g1]] by simp
  then show ?thesis
    using f look_up_Some[of x clk ep "get ep" g1 sub chain] unfolding live_session_def
    by (metis prod.collapse)
qed

lemma push_checks_Ok:
  "push_checks g h ep (sub, chain) = Ok (sub', ep') \<longleftrightarrow>
   sub' = sub \<and> ep' = ep \<and> \<not> is_suspended (pg_moderation g) sub \<and> \<not> is_blocked (pg_moderation g) h \<and>
   (pg_mode g = Pdp \<longrightarrow>
     (\<exists>c p. chain = Some c \<and> stored_person c = Some p \<and> canonical_subject p = canonical_subject sub))"
  by (auto simp: push_checks_def decided_session_def result_simps split: option.splits if_splits)

text \<open>C1: A push is accepted only on a connection of a known endpoint with a live session: one this
  gate opened and that has not expired, or a stored record carrying this node's tag, made out to
  that endpoint and not expired. Its subject is not suspended, the hash is not blocked, and where
  the platform decides, the session carries a permitted chain whose person is that subject.\<close>

theorem authorize_push_sound:
  assumes "authorize_push x clk get_session cid hash g = (Ok (sub, ep), g')"
  shows "tget (pg_connections g) cid = Some ep \<and> \<not> is_suspended (pg_moderation g) sub \<and>
    \<not> is_blocked (pg_moderation g) hash \<and>
    (\<exists>chain. live_session x clk get_session g ep sub chain \<and>
       (pg_mode g = Pdp \<longrightarrow>
         (\<exists>c p. chain = Some c \<and> stored_person c = Some p \<and> canonical_subject p = canonical_subject sub)))"
proof -
  from assms obtain e where e: "tget (pg_connections g) cid = Some e"
    by (auto simp: authorize_push_def split: option.splits)
  show ?thesis
  proof (cases "held_session (gc_held clk) g e")
    case (Some held)
    obtain s c where held: "held = (s, c)" by force
    with Some have "live_session x clk get_session g e s c"
      by (auto simp: live_session_def held_session_def split: option.splits if_splits)
    with assms e Some held show ?thesis
      by (auto simp: authorize_push_def push_checks_Ok)
  next
    case None
    with assms e obtain s c where st: "stored_session x clk get_session e g = (Some (s, c), g')"
      "push_checks g' hash e (s, c) = Ok (sub, ep)"
      by (auto simp: authorize_push_def split: option.splits prod.splits)
    have "gate_frame g' = gate_frame g"
      using stored_session_frame[of x clk get_session e g] st(1) by simp
    from gate_frame_eqD[OF this] st(2) stored_session_live[OF st(1)] e show ?thesis
      by (auto simp: push_checks_Ok)
  qed
qed



section \<open>Bounds on the lookups\<close>

lemma oldest_miss_in: "oldest_miss m = Some p \<Longrightarrow> p \<in> set m"
  by (induction m arbitrary: p) (auto split: option.splits if_splits)

lemma oldest_miss_None [simp]: "oldest_miss m = None \<longleftrightarrow> m = []"
  by (cases m) (auto split: option.splits)

lemma oldest_miss_present:
  assumes "m \<noteq> []"
  shows "\<exists>w t. oldest_miss m = Some (w, t) \<and> tget m w \<noteq> None"
proof -
  obtain w t where "oldest_miss m = Some (w, t)"
    using assms oldest_miss_None[of m] by (cases "oldest_miss m") auto
  with oldest_miss_in[OF this] show ?thesis by (force simp: map_of_eq_None_iff)
qed

lemma missed_bounded:
  assumes "wf_table (pg_misses g)" and "length (pg_misses g) \<le> SESSION_MISSES"
  shows "wf_table (pg_misses (missed now e g)) \<and> length (pg_misses (missed now e g)) \<le> SESSION_MISSES"
proof -
  define m1 where "m1 = (if SESSION_MISSES \<le> length (pg_misses g)
    then tretain (\<lambda>_ at. elapsed now at < SESSION_MISS_TTL) (pg_misses g) else pg_misses g)"
  define victim where "victim = (case oldest_miss m1 of Some (w, _) \<Rightarrow> w | None \<Rightarrow> [])"
  define m2 where "m2 = (if SESSION_MISSES \<le> length m1 then tremove victim m1 else m1)"
  have old: "\<exists>t. oldest_miss m1 = Some (victim, t) \<and> tget m1 victim \<noteq> None" if "SESSION_MISSES \<le> length m1"
  proof -
    from that have "m1 \<noteq> []" by (auto simp: SESSION_MISSES_def)
    then obtain w t where "oldest_miss m1 = Some (w, t)" "tget m1 w \<noteq> None"
      using oldest_miss_present[of m1] by blast
    then show ?thesis by (simp add: victim_def)
  qed
  have "wf_table (tinsert e now m2) \<and> length (tinsert e now m2) \<le> SESSION_MISSES"
    by (rule tbl.bounded_insert[OF assms _ m1_def m2_def]) (use old in \<open>auto simp: SESSION_MISSES_def\<close>)
  moreover have "pg_misses (missed now e g) = tinsert e now
      (if SESSION_MISSES \<le> length m1
       then (case oldest_miss m1 of Some (w, _) \<Rightarrow> tremove w m1 | None \<Rightarrow> m1) else m1)"
    unfolding missed_def Let_def m1_def by simp
  moreover have "\<dots> = tinsert e now m2"
    using old by (auto simp: m2_def)
  ultimately show ?thesis by simp
qed

text \<open>
  The gate while requests interleave: lookups start and finish in any order, sessions are opened,
  connections come and go, and the moderation view changes in between. \<open>fl\<close> are the endpoints whose
  lookup is under way.
\<close>

inductive gate_step ::
  "gate_ext \<Rightarrow> PublishGate \<times> EndpointId list \<Rightarrow> PublishGate \<times> EndpointId list \<Rightarrow> bool" for x where
  start: "lookup_start clk e g = Some g' \<Longrightarrow> gate_step x (g, fl) (g', e # fl)"
| finish: "e \<in> set fl \<Longrightarrow> gate_step x (g, fl) (snd (lookup_finish x clk e answer g), remove1 e fl)"
| opened: "gate_step x (g, fl) (snd (open_session_with_chain t1 t2 e sub ttl chain g), fl)"
| connect: "gate_step x (g, fl) (connected cid ep g, fl)"
| close: "gate_step x (g, fl) (closed cid g, fl)"
| moderate: "gate_step x (g, fl) (g\<lparr>pg_moderation := v\<rparr>, fl)"

inductive_cases gate_stepE: "gate_step x (g, fl) (g', fl')"

definition gate_inv :: "PublishGate \<times> EndpointId list \<Rightarrow> bool" where
  "gate_inv s \<longleftrightarrow> pg_lookups (fst s) + length (snd s) = SESSION_LOOKUPS \<and>
     wf_table (pg_misses (fst s)) \<and> length (pg_misses (fst s)) \<le> SESSION_MISSES"

lemma lookup_finish_inv:
  assumes "gate_inv (g, fl)" and "e \<in> set fl"
  shows "gate_inv (snd (lookup_finish x clk e a g), remove1 e fl)"
proof -
  have l: "Suc (length fl - 1) = length fl" using assms(2) by (cases fl) auto
  have n: "pg_lookups (snd (lookup_finish x clk e a g)) = Suc (pg_lookups g)"
    by (simp add: lookup_finish_simps Let_def)
  have "wf_table (pg_misses (snd (lookup_finish x clk e a g))) \<and>
      length (pg_misses (snd (lookup_finish x clk e a g))) \<le> SESSION_MISSES"
    using assms(1) missed_bounded[of "snd (look_up x clk e a g)" "gc_missed clk" e]
    by (simp add: gate_inv_def lookup_finish_simps Let_def)
  with l n show ?thesis
    using assms by (simp add: gate_inv_def length_remove1)
qed

lemma gate_step_inv: "gate_step x s t \<Longrightarrow> gate_inv s \<Longrightarrow> gate_inv t"
proof (induction rule: gate_step.induct)
  case (start clk e g g' fl)
  then show ?case by (auto simp: lookup_start_def gate_inv_def split: if_splits)
next
  case (finish e fl g clk answer)
  then show ?case by (simp add: lookup_finish_inv)
qed (auto simp: gate_inv_def connected_def closed_def split: option.splits)

lemma gate_reachable_inv: "(gate_step x)\<^sup>*\<^sup>* s t \<Longrightarrow> gate_inv s \<Longrightarrow> gate_inv t"
  by (induction rule: rtranclp_induct) (auto intro: gate_step_inv)


text \<open>An endpoint whose lookup found no live session is not looked up again within ten
  seconds: the next push is refused without asking the store.\<close>

theorem miss_suppresses_lookup:
  assumes "fst (lookup_finish x clk e answer g) = None" and "gc_recent clk' < gc_missed clk + from_secs 10"
  shows "lookup_start clk' e (snd (lookup_finish x clk e answer g)) = None \<and>
    stored_session x clk' get_session e (snd (lookup_finish x clk e answer g)) =
      (None, snd (lookup_finish x clk e answer g))"
proof -
  let ?g = "snd (lookup_finish x clk e answer g)"
  have "tget (pg_misses ?g) e = Some (gc_missed clk)"
    using assms(1) by (simp add: lookup_finish_simps Let_def missed_def table_simps)
  then have "recently_missed (gc_recent clk') ?g e"
    using assms(2) by (auto simp: recently_missed_def elapsed_def SESSION_MISS_TTL_def from_secs_def)
  then show ?thesis by (simp add: lookup_start_def stored_session_def)
qed

text \<open>A session read back from the store is held no longer than one opened here would be, and
  no longer than its own record says.\<close>

theorem stored_session_ttl_capped:
  assumes "look_up x clk e (Answered (Ok (Some body))) g = (Some (sub, chain), g')"
  shows "\<exists>r s. unseal x g body = Some r \<and> tget (pg_sessions g') e = Some s \<and> ss_subject s = sub \<and>
    ss_chain s = chain \<and> ss_expires s \<le> gc_expires clk + pg_session_ttl g \<and>
    ss_expires s \<le> gc_expires clk + from_secs (nat (sub_i64 (sr_expires_at r) (gc_now_secs clk)))"
  using assms
  by (auto simp: look_up_def Let_def open_session_with_chain_def table_simps split: option.splits if_splits)



section \<open>A sample gate\<close>

definition sample_record :: SessionRecord where
  "sample_record = \<lparr>sr_endpoint_id = ''ep1'', sr_subject = ''arkavo:alice'', sr_expires_at = 1600,
     sr_chain = Some [\<lparr>se_kind = Subject, se_claims = JObject [(''sub'', JString ''alice'')]\<rparr>]\<rparr>"

definition sample_gate_ext :: gate_ext where
  "sample_gate_ext = \<lparr>gx_derive_key = (\<lambda>_ s. ''key'' @ s), gx_hash = id, gx_keyed_hash = (\<lambda>k r. k @ r),
     gx_hex_encode = id, gx_hash_to_hex = id, gx_hash_from_hex = Some,
     gx_record_to_raw = (\<lambda>_. ''R''),
     gx_record_from_str = (\<lambda>b. if b = ''R'' then Some sample_record else None),
     gx_sealed_to_vec = (\<lambda>s. sl_tag s),
     gx_sealed_from_slice = (\<lambda>b. Some \<lparr>sl_kid = ''keys'', sl_record = ''R'', sl_tag = b\<rparr>)\<rparr>"

definition sample_gate :: PublishGate where
  "sample_gate = connected 1 (Some ''ep1'') (with_decider Pdp (with_session_store
     (set_session_key sample_gate_ext ''s'' (gate_new moderation_default 1000))))"

definition sample_clock :: gate_clock where
  "sample_clock = \<lparr>gc_held = 5, gc_recent = 5, gc_expires = 6, gc_retain = 6, gc_missed = 7, gc_now_secs = 1500\<rparr>"

definition sample_get_session :: "EndpointId \<Rightarrow> lookup_answer" where
  "sample_get_session ep = Answered (Ok (if ep = ''ep1'' then Some ''keysR'' else None))"

lemma sample_look_up:
  "look_up sample_gate_ext sample_clock ''ep1'' (Answered (Ok (Some ''keysR''))) sample_gate =
   (Some (''alice'', sr_chain sample_record), snd (look_up sample_gate_ext sample_clock ''ep1''
      (Answered (Ok (Some ''keysR''))) sample_gate))"
  by (simp add: look_up_def unseal_def sample_gate_def connected_def with_decider_def with_session_store_def
      set_session_key_def gate_new_def record_key_derive_def sample_gate_ext_def record_tag_def
      sample_record_def sample_clock_def sub_i64_def wrap_i64_def canonical_subject_def
      subject_id_bind_def Let_def)

lemma sample_push:
  "fst (authorize_push sample_gate_ext sample_clock sample_get_session 1 ''aa'' sample_gate) = Ok (''alice'', ''ep1'')"
proof -
  have "fst (stored_session sample_gate_ext sample_clock sample_get_session ''ep1'' sample_gate) =
      Some (''alice'', sr_chain sample_record)"
    by (simp add: stored_session_def lookup_start_def lookup_finish_def recently_missed_def sample_get_session_def
        look_up_def unseal_def sample_gate_def connected_def with_decider_def with_session_store_def
        set_session_key_def gate_new_def record_key_derive_def sample_gate_ext_def record_tag_def
        sample_record_def sample_clock_def sub_i64_def wrap_i64_def canonical_subject_def
        subject_id_bind_def Let_def SESSION_LOOKUPS_def)
  then obtain g' where st: "stored_session sample_gate_ext sample_clock sample_get_session ''ep1'' sample_gate =
      (Some (''alice'', sr_chain sample_record), g')"
    by (metis prod.collapse)
  have "gate_frame g' = gate_frame sample_gate"
    using stored_session_frame[of sample_gate_ext sample_clock sample_get_session "''ep1''" sample_gate] st by simp
  then have g': "pg_moderation g' = moderation_default"
    by (simp add: gate_frame_def sample_gate_def connected_def with_decider_def with_session_store_def
        set_session_key_def gate_new_def)
  have "tget (pg_connections sample_gate) 1 = Some ''ep1''" "tget (pg_sessions sample_gate) ''ep1'' = None"
    by (simp_all add: sample_gate_def connected_def with_decider_def with_session_store_def
        set_session_key_def gate_new_def table_simps)
  moreover have "push_checks g' ''aa'' ''ep1'' (''alice'', sr_chain sample_record) = Ok (''alice'', ''ep1'')"
    by (simp add: push_checks_Ok g' is_suspended_def suspension_def is_blocked_def tcontains_def
        moderation_default_def stored_person_def sample_record_def json_get_str_def)
  ultimately show ?thesis
    by (simp add: authorize_push_def held_session_def st)
qed

theorem authorize_push_sound_witness:
  "\<exists>chain. live_session sample_gate_ext sample_clock sample_get_session sample_gate ''ep1'' ''alice'' chain"
proof -
  obtain g' where "authorize_push sample_gate_ext sample_clock sample_get_session 1 ''aa'' sample_gate =
      (Ok (''alice'', ''ep1''), g')"
    using sample_push by (metis prod.collapse)
  from authorize_push_sound[OF this] show ?thesis by blast
qed

theorem seal_unseal_roundtrip_witness:
  "\<exists>body. seal sample_gate_ext (set_session_key sample_gate_ext ''s'' (gate_new moderation_default 1)) sample_record
      = Some body \<and>
    unseal sample_gate_ext (set_session_key sample_gate_ext ''s'' (gate_new moderation_default 2)) body
      = Some sample_record"
  by (rule seal_unseal_roundtrip[THEN conjunct1])
    (simp_all add: gate_new_def sample_gate_ext_def sealed_record_def record_key_derive_def record_tag_def Let_def)


theorem miss_suppresses_lookup_witness:
  "lookup_start sample_clock ''ep1'' (snd (lookup_finish sample_gate_ext sample_clock ''ep1'' TimedOut sample_gate)) = None"
proof -
  have "fst (lookup_finish sample_gate_ext sample_clock ''ep1'' TimedOut sample_gate) = None"
    by (simp add: lookup_finish_simps look_up_def)
  from miss_suppresses_lookup[OF this, of sample_clock] show ?thesis
    by (simp add: sample_clock_def)
qed

theorem stored_session_ttl_capped_witness:
  "\<exists>s. tget (pg_sessions (snd (look_up sample_gate_ext sample_clock ''ep1'' (Answered (Ok (Some ''keysR'')))
      sample_gate))) ''ep1'' = Some s \<and> ss_expires s \<le> gc_expires sample_clock + pg_session_ttl sample_gate"
  using stored_session_ttl_capped[OF sample_look_up] by blast

end
