(* ===== verification/Publish_Policy.thy ===== *)
theory Publish_Policy
  imports Publish_Gate
begin

text \<open>
  Who may publish and who may moderate (\<open>src/moderation.rs\<close>, lines 789--986): the publisher and
  operator checks on a request's bearer token. The state threaded through a check is the verifier's
  key cache and the decision provider's own state. The two readings of the wall clock a publisher
  check makes are two arguments.
\<close>

record 'p PublishPolicy =
  pp_entitlement :: "string option"
  pp_audience :: "string option"
  pp_session_ttl :: nat
  pp_operator_client_ids :: "string list"
  pp_decider :: "'p PublishDecider"

definition bearer :: "headers \<Rightarrow> string option" where
  "bearer headers =
     Option.bind (header_get headers ''authorization'') (\<lambda>v.
     Option.bind (header_to_str v) (\<lambda>s.
     Option.bind (strip_prefix ''Bearer '' s) (\<lambda>t.
       let t = trim t in if t = [] then None else Some t)))"

definition token_error_status :: "AuthError \<Rightarrow> nat" where
  "token_error_status e = (case e of KeySet _ \<Rightarrow> BAD_GATEWAY | _ \<Rightarrow> UNAUTHORIZED)"

definition policy_chain ::
  "verify_env \<Rightarrow> int \<Rightarrow> 'p PublishPolicy \<Rightarrow> headers \<Rightarrow> VerifiedClaims \<Rightarrow> string \<Rightarrow>
   (CwtVerifier, ChainEntity list, http_error) io" where
  "policy_chain env now pol headers claims token =
     (let devices = entity_tokens headers;
          environment = pd_environment (pp_decider pol) in
      io_bind (io_lift (check_length (length devices) (environment \<noteq> None))) (\<lambda>_.
      io_bind (verified_devices env devices (vc_sub claims) now) (\<lambda>ds.
        io_return (subject_entity claims (Some token) # ds @
          (case environment of Some e \<Rightarrow> [environment_entity e] | None \<Rightarrow> [])))))"

definition local_answer :: "'p PublishPolicy \<Rightarrow> bool \<Rightarrow> VerifiedClaims \<Rightarrow> (unit, http_error) result" where
  "local_answer pol suspended claims =
     (if suspended then Err (FORBIDDEN, ''publishing suspended'')
      else (case pp_entitlement pol of
          Some want \<Rightarrow>
            if \<not> list_ex (\<lambda>x. x = want) (vc_arkavo_entitlements claims)
            then Err (FORBIDDEN, ''publishing entitlement required'') else Ok ()
        | None \<Rightarrow> Ok ()))"

definition publisher_decision ::
  "verify_env \<Rightarrow> int \<Rightarrow> 'p PublishPolicy \<Rightarrow> headers \<Rightarrow> VerifiedClaims \<Rightarrow> string \<Rightarrow> bool \<Rightarrow>
   (CwtVerifier \<times> 'p, VerifiedClaims \<times> ChainEntity list option, http_error) io" where
  "publisher_decision env now pol headers claims token suspended st = (case st of (v, p) \<Rightarrow>
     (case pd_mode (pp_decider pol) of
        Local \<Rightarrow> (and_then (local_answer pol suspended claims) (\<lambda>_. Ok (claims, None)), (v, p))
      | Shadow \<Rightarrow>
          (case policy_chain env now pol headers claims token v of (chain, v) \<Rightarrow>
           (case (case chain of Ok c \<Rightarrow> ask (pp_decider pol) c p | Err _ \<Rightarrow> (Unavailable, p)) of (verdict, p) \<Rightarrow>
             (and_then (local_answer pol suspended claims) (\<lambda>_.
                Ok (claims, if verdict = Permit then result_ok chain else None)), (v, p))))
      | Pdp \<Rightarrow>
          (case policy_chain env now pol headers claims token v of
             (Err e, v) \<Rightarrow> (Err e, (v, p))
           | (Ok c, v) \<Rightarrow>
               (case ask (pp_decider pol) c p of
                  (Permit, p) \<Rightarrow> (Ok (claims, Some c), (v, p))
                | (Deny, p) \<Rightarrow> (Err (FORBIDDEN, ''publishing not permitted''), (v, p))
                | (Unavailable, p) \<Rightarrow> (Err (SERVICE_UNAVAILABLE, ''decision service unavailable''), (v, p))))))"

definition publisher_with_chain ::
  "verify_env \<Rightarrow> int \<Rightarrow> int \<Rightarrow> 'p PublishPolicy \<Rightarrow> Moderation \<Rightarrow> headers \<Rightarrow>
   (CwtVerifier \<times> 'p, VerifiedClaims \<times> ChainEntity list option, http_error) io" where
  "publisher_with_chain env now now' pol view headers st = (case st of (v, p) \<Rightarrow>
     (case bearer headers of
        None \<Rightarrow> (Err (UNAUTHORIZED, ''missing bearer token''), (v, p))
      | Some token \<Rightarrow>
          (case verify_with env token now (pp_audience pol) v of
             (Err e, v) \<Rightarrow> (Err (token_error_status e, ''invalid token''), (v, p))
           | (Ok claims, v) \<Rightarrow>
               if starts_with ''client:'' (vc_sub claims)
               then (Err (FORBIDDEN, ''service tokens cannot publish''), (v, p))
               else let suspended = is_suspended view (vc_sub claims) in
                 if suspended \<and> pd_mode (pp_decider pol) \<noteq> Shadow
                 then (Err (FORBIDDEN, ''publishing suspended''), (v, p))
                 else publisher_decision env now' pol headers claims token suspended (v, p))))"

definition publisher ::
  "verify_env \<Rightarrow> int \<Rightarrow> int \<Rightarrow> 'p PublishPolicy \<Rightarrow> Moderation \<Rightarrow> headers \<Rightarrow>
   (CwtVerifier \<times> 'p, VerifiedClaims, http_error) io" where
  "publisher env now now' pol view headers =
     io_bind (publisher_with_chain env now now' pol view headers) (\<lambda>(claims, _). io_return claims)"

definition operator_client :: "'p PublishPolicy \<Rightarrow> VerifiedClaims \<Rightarrow> (string, http_error) result" where
  "operator_client pol claims = (case strip_prefix ''client:'' (vc_sub claims) of
       None \<Rightarrow> Err (FORBIDDEN, ''operator token required'')
     | Some client \<Rightarrow>
         if client = [] then Err (FORBIDDEN, ''operator token required'')
         else let service = (case vc_arkavo_roles claims of
                  Some r \<Rightarrow> list_ex (\<lambda>x. x = ''service-account'') r | None \<Rightarrow> False) in
           if \<not> service \<or> \<not> aud_contains (vc_aud claims) client
           then Err (FORBIDDEN, ''operator token required'')
           else if client \<notin> set (pp_operator_client_ids pol) then Err (FORBIDDEN, ''not an operator'')
           else Ok (''client:'' @ client))"

definition operator ::
  "verify_env \<Rightarrow> int \<Rightarrow> 'p PublishPolicy \<Rightarrow> headers \<Rightarrow> (CwtVerifier, string, http_error) io" where
  "operator env now pol headers =
     (if pp_operator_client_ids pol = [] then io_fail (SERVICE_UNAVAILABLE, ''operator API not configured'')
      else (case bearer headers of
          None \<Rightarrow> io_fail (UNAUTHORIZED, ''missing bearer token'')
        | Some token \<Rightarrow>
            io_bind (io_map_err (\<lambda>e. (token_error_status e, ''invalid token'')) (verify env token now))
              (\<lambda>claims. io_lift (operator_client pol claims))))"


section \<open>Publishers\<close>

text \<open>The publisher check builds the same chain as a reader's request.\<close>

lemma policy_chain_person_chain:
  "policy_chain env now pol headers claims token =
   person_chain env claims token headers (pd_environment (pp_decider pol)) now"
  by (simp add: policy_chain_def person_chain_def Let_def)

lemma publisher_with_chain_Ok:
  assumes "publisher_with_chain env now now' pol view headers (v, p) = (Ok (claims, chain), st)"
  shows "\<exists>token v'. bearer headers = Some token \<and>
    verify_with env token now (pp_audience pol) v = (Ok claims, v') \<and>
    \<not> starts_with ''client:'' (vc_sub claims) \<and>
    (is_suspended view (vc_sub claims) \<longrightarrow> pd_mode (pp_decider pol) = Shadow) \<and>
    publisher_decision env now' pol headers claims token (is_suspended view (vc_sub claims)) (v', p)
      = (Ok (claims, chain), st)"
proof -
  from assms obtain token where t: "bearer headers = Some token"
    by (auto simp: publisher_with_chain_def split: option.splits)
  obtain r v' where r: "verify_with env token now (pp_audience pol) v = (r, v')" by force
  with assms t obtain c where c: "r = Ok c"
    by (cases r) (auto simp: publisher_with_chain_def)
  have "claims = c \<and> \<not> starts_with ''client:'' (vc_sub c) \<and>
      (is_suspended view (vc_sub c) \<longrightarrow> pd_mode (pp_decider pol) = Shadow) \<and>
      publisher_decision env now' pol headers c token (is_suspended view (vc_sub c)) (v', p)
        = (Ok (claims, chain), st)"
    using assms
    by (auto simp: publisher_with_chain_def t r c publisher_decision_def Let_def result_simps
        split: if_splits PublishDecisions.splits prod.splits result.splits Verdict.splits)
  with t r c show ?thesis by blast
qed

lemma publisher_decision_cases:
  assumes "publisher_decision env now pol headers claims token suspended (v, p) = (Ok (claims', chain), st)"
  shows "(pd_mode (pp_decider pol) \<noteq> Pdp \<longrightarrow> local_answer pol suspended claims = Ok ()) \<and>
    (pd_mode (pp_decider pol) = Pdp \<longrightarrow> chain \<noteq> None) \<and>
    (\<forall>c. chain = Some c \<longrightarrow>
       (\<exists>v' p'. policy_chain env now pol headers claims token v = (Ok c, v') \<and>
                ask (pp_decider pol) c p = (Permit, p')))"
  using assms
  by (auto simp: publisher_decision_def result_simps result_ok_def
      split: PublishDecisions.splits prod.splits result.splits Verdict.splits if_splits)

lemma local_answer_Ok:
  "local_answer pol suspended claims = Ok () \<longleftrightarrow>
   \<not> suspended \<and> (\<forall>want. pp_entitlement pol = Some want \<longrightarrow> want \<in> set (vc_arkavo_entitlements claims))"
  by (auto simp: local_answer_def list_ex_iff split: option.splits)

text \<open>What an accepted publisher is: a verified person, not a service, with the wanted audience, who
  is not suspended; by the node's own answer entitled; and where the platform decides, or the
  session keeps a chain at all, permitted by it for that person's chain.\<close>

lemma publisher_accepted:
  assumes "publisher_with_chain env now now' pol view headers (v, p) = (Ok (claims, chain), st)"
  shows "\<exists>token v'. bearer headers = Some token \<and>
     fst (verify_with env token now (pp_audience pol) v) = Ok claims \<and>
     v' = snd (verify_with env token now (pp_audience pol) v) \<and>
     \<not> starts_with ''client:'' (vc_sub claims) \<and> \<not> is_suspended view (vc_sub claims) \<and>
     (pd_mode (pp_decider pol) \<noteq> Pdp \<longrightarrow>
        (\<forall>want. pp_entitlement pol = Some want \<longrightarrow> want \<in> set (vc_arkavo_entitlements claims))) \<and>
     (pd_mode (pp_decider pol) = Pdp \<longrightarrow> chain \<noteq> None) \<and>
     (\<forall>c. chain = Some c \<longrightarrow> (\<exists>v'' p'.
        person_chain env claims token headers (pd_environment (pp_decider pol)) now' v' = (Ok c, v'') \<and>
        ask (pp_decider pol) c p = (Permit, p')))"
proof -
  from publisher_with_chain_Ok[OF assms] obtain token v' where t: "bearer headers = Some token"
    "verify_with env token now (pp_audience pol) v = (Ok claims, v')"
    "\<not> starts_with ''client:'' (vc_sub claims)"
    "is_suspended view (vc_sub claims) \<longrightarrow> pd_mode (pp_decider pol) = Shadow"
    "publisher_decision env now' pol headers claims token (is_suspended view (vc_sub claims)) (v', p)
      = (Ok (claims, chain), st)" by blast
  note d = publisher_decision_cases[OF t(5)]
  have "\<not> is_suspended view (vc_sub claims)"
    using d t(4) by (auto simp: local_answer_Ok)
  with t d show ?thesis by (auto simp: local_answer_Ok policy_chain_person_chain)
qed




section \<open>Operators\<close>

text \<open>The operator API answers exactly to verified service tokens: the subject is
  \<open>client:\<close> and a non-empty client id on the allowlist, the token has the service-account role and
  names that client in its audience. Without an allowlist nobody is an operator.\<close>

theorem operator_accepts_iff:
  "fst (operator env now pol headers v) = Ok who \<longleftrightarrow>
   (\<exists>token claims client. bearer headers = Some token \<and> fst (verify env token now v) = Ok claims \<and>
      vc_sub claims = ''client:'' @ client \<and> client \<noteq> [] \<and>
      (\<exists>roles. vc_arkavo_roles claims = Some roles \<and> ''service-account'' \<in> set roles) \<and>
      aud_contains (vc_aud claims) client \<and> client \<in> set (pp_operator_client_ids pol) \<and>
      who = ''client:'' @ client)"
proof -
  have c: "operator_client pol claims = Ok who \<longleftrightarrow>
     (\<exists>client. vc_sub claims = ''client:'' @ client \<and> client \<noteq> [] \<and>
      (\<exists>roles. vc_arkavo_roles claims = Some roles \<and> ''service-account'' \<in> set roles) \<and>
      aud_contains (vc_aud claims) client \<and> client \<in> set (pp_operator_client_ids pol) \<and>
      who = ''client:'' @ client)" for claims
  proof (cases "strip_prefix ''client:'' (vc_sub claims)")
    case None
    then have "vc_sub claims \<noteq> ''client:'' @ client" for client by (metis option.distinct(1) strip_prefix_append)
    with None show ?thesis by (simp add: operator_client_def)
  next
    case (Some client)
    then have "vc_sub claims = ''client:'' @ client" by (simp only: strip_prefix_eq_Some)
    with Some show ?thesis
      by (auto simp: operator_client_def Let_def list_ex_iff split: option.splits)
  qed
  show ?thesis
  proof (cases "bearer headers")
    case (Some token)
    obtain r v' where "verify env token now v = (r, v')" by force
    with Some c show ?thesis
      by (cases r) (auto simp: operator_def io_defs)
  qed (auto simp: operator_def io_defs)
qed


section \<open>A sample policy\<close>

definition sample_policy :: "AuthZenClient PublishPolicy" where
  "sample_policy = \<lparr>pp_entitlement = None, pp_audience = None, pp_session_ttl = 9,
     pp_operator_client_ids = [''mod''], pp_decider = sample_decider\<rparr>"

definition sample_headers :: headers where
  "sample_headers = [(''authorization'', ''Bearer T.person'')]"

lemma sample_bearer: "bearer sample_headers = Some (sample_token ''person'')"
  by code_simp

lemma sample_ask_person: "fst (ask sample_decider [subject_entity pe tok] sample_client) = Permit"
  by (simp add: ask_def sample_decider_def chain_subject_person publish_request_def obj_def
      sample_net_def sample_client_def authzen_decide_def io_defs
      evaluations_endpoint_def authzen_new_def reply_success_def same_origin_def https_or_loopback_def
      chunks.simps MAX_EVALUATIONS_def decide_batch_def build_authzen_request_def
      authzen_bearer_def service_bearer_def map_evaluations_def
      evaluation_entitled_def required_obligations_nonempty_def tinsert_def tremove_def)

lemma sample_policy_chain:
  "policy_chain sample_env 1500 sample_policy sample_headers pe tok sample_verifier =
   (Ok [subject_entity pe (Some tok)], sample_verifier)"
  by (simp add: policy_chain_def sample_policy_def sample_decider_def sample_headers_def entity_tokens_def
      header_get_all_def io_defs check_length_def MAX_CHAIN_ENTITIES_def map_filter_def)

lemma sample_publisher:
  "fst (publisher_with_chain sample_env 1500 1500 sample_policy moderation_default sample_headers
     (sample_verifier, sample_client)) =
   Ok (sample_claims, Some [subject_entity sample_claims (Some (sample_token ''person''))])"
proof -
  have "pp_audience sample_policy = None" "pp_decider sample_policy = sample_decider"
    "pd_mode sample_decider = Pdp" by (simp_all add: sample_policy_def sample_decider_def)
  moreover have "\<not> starts_with ''client:'' (vc_sub sample_claims)"
    "\<not> is_suspended moderation_default (vc_sub sample_claims)" by code_simp+
  moreover obtain q where "ask sample_decider [subject_entity sample_claims (Some (sample_token ''person''))]
      sample_client = (Permit, q)"
    using sample_ask_person by (metis prod.collapse)
  ultimately show ?thesis
    by (simp add: publisher_with_chain_def sample_bearer sample_verify_person publisher_decision_def
        sample_policy_chain)
qed


end
