(* ===== verification/Moderation_Api.thy ===== *)
theory Moderation_Api
  imports Publish_Policy
begin

text \<open>
  The publishing and moderation handlers (\<open>src/moderation.rs\<close>, lines 988--1425): opening a publish
  session, and the operator's suspend, block and lift calls, each a function on the node's state
  with every early return. Request bodies arrive decoded, as the extractor hands them over; each
  reading of a clock is a field of the request's environment.
\<close>

section \<open>State and environment\<close>

record ('s, 'p) api_state =
  as_store :: 's
  as_verifier :: CwtVerifier
  as_gate :: PublishGate
  as_provider :: 'p

record audit_codec =
  audit_suspension_to_vec :: "string \<Rightarrow> Suspension \<Rightarrow> bytes"
  audit_block_to_vec :: "string \<Rightarrow> Block \<Rightarrow> bytes"
  audit_catalog_block_to_vec :: "string \<Rightarrow> CatalogBlock \<Rightarrow> bytes"

text \<open>What opening a session needs of iroh and hex: parsing an endpoint id (to its canonical string)
  and an Ed25519 signature of 64 bytes by it over a message.\<close>

record possession_ext =
  px_endpoint_from_str :: "string \<Rightarrow> EndpointId option"
  px_hex_decode :: "string \<Rightarrow> bytes option"
  px_verify :: "EndpointId \<Rightarrow> bytes \<Rightarrow> bytes \<Rightarrow> bool"
  px_blake3_hex :: "bytes \<Rightarrow> string"

record ('s, 'p) api_env =
  ae_store :: "'s mod_store"
  ae_codec :: mod_codec
  ae_audit :: audit_codec
  ae_gate_ext :: gate_ext
  ae_possession :: possession_ext
  ae_verify :: verify_env
  ae_policy :: "'p PublishPolicy"
  ae_now_token :: int
  ae_now_chain :: int
  ae_now_possession :: int
  ae_now :: int
  ae_nanos :: nat
  ae_expires :: nat
  ae_retain :: nat

abbreviation api_view :: "('s, 'p) api_state \<Rightarrow> Moderation" where
  "api_view a \<equiv> pg_moderation (as_gate a)"

definition set_view :: "(Moderation \<Rightarrow> Moderation) \<Rightarrow> ('s, 'p) api_state \<Rightarrow> ('s, 'p) api_state" where
  "set_view f a = a\<lparr>as_gate := (as_gate a)\<lparr>pg_moderation := f (api_view a)\<rparr>\<rparr>"

definition api_operator ::
  "('s, 'p) api_env \<Rightarrow> headers \<Rightarrow> (('s, 'p) api_state, string, http_error) io" where
  "api_operator env headers a =
     (case operator (ae_verify env) (ae_now_token env) (ae_policy env) headers (as_verifier a) of
        (r, v) \<Rightarrow> (r, a\<lparr>as_verifier := v\<rparr>))"


section \<open>Opening a session\<close>

record SessionRequest =
  rq_endpoint_id :: string
  rq_timestamp :: int
  rq_signature :: string

definition SESSION_SKEW_SECS :: int where "SESSION_SKEW_SECS = 300"

definition session_message :: "possession_ext \<Rightarrow> EndpointId \<Rightarrow> string \<Rightarrow> int \<Rightarrow> bytes" where
  "session_message x endpoint bearer_token timestamp =
     ''tdf-iroh-s3 publish-session v1'' @ [CHR 0x0A] @ endpoint @ [CHR 0x0A] @
     px_blake3_hex x bearer_token @ [CHR 0x0A] @ show_int timestamp"

definition verify_possession ::
  "possession_ext \<Rightarrow> int \<Rightarrow> EndpointId \<Rightarrow> string \<Rightarrow> int \<Rightarrow> string \<Rightarrow> (unit, http_error) result" where
  "verify_possession x now endpoint bearer_token timestamp signature_hex =
     (if abs_i64 (sub_i64 now timestamp) > SESSION_SKEW_SECS
      then Err (BAD_REQUEST, ''timestamp out of range'')
      else (case px_hex_decode x (trim signature_hex) of
          None \<Rightarrow> Err (BAD_REQUEST, ''invalid signature'')
        | Some b \<Rightarrow>
            if length b \<noteq> 64 then Err (BAD_REQUEST, ''invalid signature'')
            else if px_verify x endpoint (session_message x endpoint bearer_token timestamp) b then Ok ()
            else Err (FORBIDDEN, ''signature does not match endpointId'')))"

record SessionResponse =
  rs_endpoint_id :: string
  rs_subject :: string
  rs_expires_at :: int

text \<open>The stored copy: sealed if there is a key, and a failed write only costs the copy.\<close>

definition store_session ::
  "('s, 'p) api_env \<Rightarrow> SessionRecord \<Rightarrow> ('s, 'p) api_state \<Rightarrow> ('s, 'p) api_state" where
  "store_session env r a = (case seal (ae_gate_ext env) (as_gate a) r of
       None \<Rightarrow> a
     | Some body \<Rightarrow> a\<lparr>as_store := snd (ms_put_record (ae_store env) SESSIONS (sr_endpoint_id r) body (as_store a))\<rparr>)"

definition api_publisher ::
  "('s, 'p) api_env \<Rightarrow> headers \<Rightarrow> (('s, 'p) api_state, VerifiedClaims \<times> ChainEntity list option, http_error) io" where
  "api_publisher env headers a =
     (case publisher_with_chain (ae_verify env) (ae_now_token env) (ae_now_chain env) (ae_policy env)
             (api_view a) headers (as_verifier a, as_provider a) of
        (r, (v, p)) \<Rightarrow> (r, a\<lparr>as_verifier := v, as_provider := p\<rparr>))"

definition open_gate_session ::
  "('s, 'p) api_env \<Rightarrow> EndpointId \<Rightarrow> string \<Rightarrow> StoredEntity list option \<Rightarrow> ('s, 'p) api_state \<Rightarrow> ('s, 'p) api_state" where
  "open_gate_session env endpoint subject chain a =
     a\<lparr>as_gate := snd (open_session_with_chain (ae_expires env) (ae_retain env) endpoint subject
          (pp_session_ttl (ae_policy env)) chain (as_gate a))\<rparr>"

definition api_open_session ::
  "('s, 'p) api_env \<Rightarrow> headers \<Rightarrow> SessionRequest \<Rightarrow> (('s, 'p) api_state, SessionResponse, http_error) io" where
  "api_open_session env headers body =
     io_bind (api_publisher env headers) (\<lambda>(claims, chain).
     io_bind (io_lift (ok_or (BAD_REQUEST, ''invalid endpointId'')
         (px_endpoint_from_str (ae_possession env) (trim (rq_endpoint_id body))))) (\<lambda>endpoint.
     let token = (case bearer headers of Some t \<Rightarrow> t | None \<Rightarrow> []) in
     io_bind (io_lift (verify_possession (ae_possession env) (ae_now_possession env) endpoint token
         (rq_timestamp body) (rq_signature body))) (\<lambda>_.
     let chain = map_option strip_tokens chain;
         expires_at = add_i64 (ae_now env)
           (wrap_i64 (int (pp_session_ttl (ae_policy env) div 1000000000)));
         r = \<lparr>sr_endpoint_id = endpoint, sr_subject = vc_sub claims, sr_expires_at = expires_at, sr_chain = chain\<rparr> in
     io_bind (io_modify (store_session env r)) (\<lambda>_.
     io_bind (io_modify (open_gate_session env endpoint (vc_sub claims) chain)) (\<lambda>_.
       io_return \<lparr>rs_endpoint_id = endpoint, rs_subject = canonical_subject (vc_sub claims),
                  rs_expires_at = expires_at\<rparr>)))))"


section \<open>Operator actions\<close>

record ActionRequest =
  ar_reason :: string
  ar_report_id :: "string option"
  ar_hide_catalog :: bool

definition checked_reason :: "string \<Rightarrow> (string, http_error) result" where
  "checked_reason r =
     (let r = trim r in
      if r = [] \<or> chars_count r > MAX_REASON_CHARS
      then Err (BAD_REQUEST, ''reason is required ('' @ [CHR 0xE2, CHR 0x89, CHR 0xA4] @ '' 1000 characters)'') else Ok r)"

definition checked_report_id :: "string option \<Rightarrow> (string option, http_error) result" where
  "checked_report_id r = (case r of
       Some i \<Rightarrow> if \<not> valid_subject i then Err (BAD_REQUEST, ''invalid reportId'') else Ok (Some i)
     | None \<Rightarrow> Ok None)"

definition persist ::
  "('s, 'p) api_env \<Rightarrow> string \<Rightarrow> string \<Rightarrow> bytes \<Rightarrow> (('s, 'p) api_state, unit, http_error) io" where
  "persist env kind key body a =
     (case ms_put_record (ae_store env) kind key body (as_store a) of
        (r, s) \<Rightarrow> (map_err (\<lambda>_. (BAD_GATEWAY, ''storage unavailable'')) r, a\<lparr>as_store := s\<rparr>))"

definition pad20 :: "nat \<Rightarrow> string" where
  "pad20 n = replicate (20 - length (show_nat n)) (CHR ''0'') @ show_nat n"

definition audit_key :: "string \<Rightarrow> string \<Rightarrow> nat \<Rightarrow> string" where
  "audit_key kind key nanos = kind @ ''/'' @ key @ ''/'' @ pad20 nanos"

definition audit ::
  "('s, 'p) api_env \<Rightarrow> string \<Rightarrow> string \<Rightarrow> bytes \<Rightarrow> (('s, 'p) api_state, unit, http_error) io" where
  "audit env kind key event = persist env AUDIT (audit_key kind key (ae_nanos env)) event"

text \<open>The tail every action shares: the audit event, the record, then the view.\<close>

definition record_change ::
  "('s, 'p) api_env \<Rightarrow> string \<Rightarrow> string \<Rightarrow> bytes \<Rightarrow> bytes \<Rightarrow> (Moderation \<Rightarrow> Moderation) \<Rightarrow>
   (('s, 'p) api_state, unit, http_error) io" where
  "record_change env kind key event body f =
     io_bind (audit env kind key event) (\<lambda>_.
     io_bind (persist env kind key body) (\<lambda>_. io_modify (set_view f)))"

definition change_suspension ::
  "('s, 'p) api_env \<Rightarrow> string \<Rightarrow> Suspension \<Rightarrow> (('s, 'p) api_state, Suspension, http_error) io" where
  "change_suspension env action r =
     io_bind (record_change env SUSPENSIONS (sp_subject r) (audit_suspension_to_vec (ae_audit env) action r)
       (suspension_to_vec (ae_codec env) r) (apply_suspension r)) (\<lambda>_. io_return r)"

definition change_block ::
  "('s, 'p) api_env \<Rightarrow> string \<Rightarrow> Block \<Rightarrow> (('s, 'p) api_state, Block, http_error) io" where
  "change_block env action r =
     io_bind (record_change env BLOCKS (bl_hash r) (audit_block_to_vec (ae_audit env) action r)
       (block_to_vec (ae_codec env) r) (apply_block r)) (\<lambda>_. io_return r)"

definition change_catalog_block ::
  "('s, 'p) api_env \<Rightarrow> string \<Rightarrow> CatalogBlock \<Rightarrow> (('s, 'p) api_state, CatalogBlock, http_error) io" where
  "change_catalog_block env action r =
     io_bind (record_change env CATALOG_BLOCKS (cb_subject r) (audit_catalog_block_to_vec (ae_audit env) action r)
       (catalog_block_to_vec (ae_codec env) r) (apply_catalog_block r)) (\<lambda>_. io_return r)"

definition list_suspensions ::
  "('s, 'p) api_env \<Rightarrow> headers \<Rightarrow> (('s, 'p) api_state, Suspension list, http_error) io" where
  "list_suspensions env headers =
     io_bind (api_operator env headers) (\<lambda>_. io_read (\<lambda>a. active_suspensions (api_view a)))"

definition suspend ::
  "('s, 'p) api_env \<Rightarrow> string \<Rightarrow> headers \<Rightarrow> ActionRequest \<Rightarrow> (('s, 'p) api_state, Suspension, http_error) io" where
  "suspend env subject headers body =
     io_bind (api_operator env headers) (\<lambda>who.
     let subject = canonical_subject subject in
     if \<not> valid_subject subject then io_fail (BAD_REQUEST, ''invalid subject'')
     else io_bind (io_lift (checked_reason (ar_reason body))) (\<lambda>reason.
       io_bind (io_lift (checked_report_id (ar_report_id body))) (\<lambda>report_id.
         change_suspension env ''suspend''
           \<lparr>sp_subject = subject, sp_reason = reason, sp_report_id = report_id,
            sp_hide_catalog = ar_hide_catalog body, sp_by = who, sp_at = ae_now env,
            sp_lifted_by = None, sp_lifted_at = None\<rparr>)))"

definition lift_suspension ::
  "('s, 'p) api_env \<Rightarrow> string \<Rightarrow> headers \<Rightarrow> (('s, 'p) api_state, Suspension, http_error) io" where
  "lift_suspension env subject headers =
     io_bind (api_operator env headers) (\<lambda>who.
     io_bind (\<lambda>a. (ok_or (NOT_FOUND, ''no active suspension'') (suspension (api_view a) subject), a)) (\<lambda>r.
       change_suspension env ''lift_suspension''
         (r\<lparr>sp_lifted_by := Some who, sp_lifted_at := Some (ae_now env)\<rparr>)))"

definition list_blocks ::
  "('s, 'p) api_env \<Rightarrow> headers \<Rightarrow> (('s, 'p) api_state, Block list, http_error) io" where
  "list_blocks env headers =
     io_bind (api_operator env headers) (\<lambda>_. io_read (\<lambda>a. active_blocks (api_view a)))"

definition block ::
  "('s, 'p) api_env \<Rightarrow> string \<Rightarrow> headers \<Rightarrow> ActionRequest \<Rightarrow> (('s, 'p) api_state, Block, http_error) io" where
  "block env hash headers body =
     io_bind (api_operator env headers) (\<lambda>who.
     if \<not> valid_hash hash then io_fail (BAD_REQUEST, ''hash must be 64 hex chars'')
     else if ar_hide_catalog body then io_fail (BAD_REQUEST, ''hideCatalog applies to suspensions'')
     else io_bind (io_lift (checked_reason (ar_reason body))) (\<lambda>reason.
       io_bind (io_lift (checked_report_id (ar_report_id body))) (\<lambda>report_id.
         change_block env ''block''
           \<lparr>bl_hash = to_ascii_lowercase hash, bl_reason = reason, bl_report_id = report_id,
            bl_by = who, bl_at = ae_now env, bl_lifted_by = None, bl_lifted_at = None\<rparr>)))"

definition lift_block ::
  "('s, 'p) api_env \<Rightarrow> string \<Rightarrow> headers \<Rightarrow> (('s, 'p) api_state, Block, http_error) io" where
  "lift_block env hash headers =
     io_bind (api_operator env headers) (\<lambda>who.
     let hash = to_ascii_lowercase hash in
     io_bind (\<lambda>a. (ok_or (NOT_FOUND, ''no active block'')
                  (find (\<lambda>b. bl_hash b = hash) (active_blocks (api_view a))), a)) (\<lambda>r.
       change_block env ''lift_block''
         (r\<lparr>bl_lifted_by := Some who, bl_lifted_at := Some (ae_now env)\<rparr>)))"

definition list_catalog_blocks ::
  "('s, 'p) api_env \<Rightarrow> headers \<Rightarrow> (('s, 'p) api_state, CatalogBlock list, http_error) io" where
  "list_catalog_blocks env headers =
     io_bind (api_operator env headers) (\<lambda>_. io_read (\<lambda>a. active_catalog_blocks (api_view a)))"

definition block_catalog ::
  "('s, 'p) api_env \<Rightarrow> string \<Rightarrow> headers \<Rightarrow> ActionRequest \<Rightarrow> (('s, 'p) api_state, CatalogBlock, http_error) io" where
  "block_catalog env subject headers body =
     io_bind (api_operator env headers) (\<lambda>who.
     let subject = canonical_subject subject in
     if \<not> valid_subject subject then io_fail (BAD_REQUEST, ''invalid subject'')
     else if ar_hide_catalog body then io_fail (BAD_REQUEST, ''hideCatalog applies to suspensions'')
     else io_bind (io_lift (checked_reason (ar_reason body))) (\<lambda>reason.
       io_bind (io_lift (checked_report_id (ar_report_id body))) (\<lambda>report_id.
         change_catalog_block env ''block_catalog''
           \<lparr>cb_subject = subject, cb_reason = reason, cb_report_id = report_id,
            cb_by = who, cb_at = ae_now env, cb_lifted_by = None, cb_lifted_at = None\<rparr>)))"

definition lift_catalog_block ::
  "('s, 'p) api_env \<Rightarrow> string \<Rightarrow> headers \<Rightarrow> (('s, 'p) api_state, CatalogBlock, http_error) io" where
  "lift_catalog_block env subject headers =
     io_bind (api_operator env headers) (\<lambda>who.
     let subject = canonical_subject subject in
     io_bind (\<lambda>a. (ok_or (NOT_FOUND, ''no active catalog block'')
                  (find (\<lambda>b. cb_subject b = subject) (active_catalog_blocks (api_view a))), a)) (\<lambda>r.
       change_catalog_block env ''lift_catalog_block''
         (r\<lparr>cb_lifted_by := Some who, cb_lifted_at := Some (ae_now env)\<rparr>)))"



section \<open>Changes and the store\<close>

lemma api_operator_frame:
  "as_store (snd (api_operator env headers a)) = as_store a \<and> as_gate (snd (api_operator env headers a)) = as_gate a"
  by (simp add: api_operator_def split: prod.splits)

lemma persist_frame [simp]: "as_gate (snd (persist env kind key body a)) = as_gate a"
  by (simp add: persist_def split: prod.splits)

text \<open>The composition every action has: it keeps the view until its last step fails or succeeds.\<close>

lemma bind_Err_view:
  assumes "fst (io_bind m f a) = Err e"
    and "\<And>a. as_gate (snd (m a)) = as_gate a"
    and "\<And>x a e. fst (f x a) = Err e \<Longrightarrow> as_gate (snd (f x a)) = as_gate a"
  shows "as_gate (snd (io_bind m f a)) = as_gate a"
proof (cases "m a")
  case (Pair r b)
  with assms(1) assms(2)[of a] assms(3)[of _ b] show ?thesis
    by (cases r) (auto simp: io_bind_def)
qed

lemma bind_return_Err:
  assumes "fst (io_bind m (\<lambda>x. io_return (g x)) a) = Err e"
  shows "fst (m a) = Err e \<and> snd (io_bind m (\<lambda>x. io_return (g x)) a) = snd (m a)"
proof (cases "m a")
  case (Pair r b)
  with assms show ?thesis by (cases r) (auto simp: io_defs)
qed

lemma record_change_Err_view:
  assumes "fst (record_change env kind key event body f a) = Err e"
  shows "as_gate (snd (record_change env kind key event body f a)) = as_gate a"
  using assms unfolding record_change_def audit_def
  by (elim bind_Err_view) (simp_all add: io_modify_def)

lemma change_Err_view:
  "fst (change_suspension env act r a) = Err e \<Longrightarrow> as_gate (snd (change_suspension env act r a)) = as_gate a"
  "fst (change_block env act b a) = Err e \<Longrightarrow> as_gate (snd (change_block env act b a)) = as_gate a"
  "fst (change_catalog_block env act c a) = Err e \<Longrightarrow> as_gate (snd (change_catalog_block env act c a)) = as_gate a"
  unfolding change_suspension_def change_block_def change_catalog_block_def
  by (drule bind_return_Err, simp add: record_change_Err_view)+

lemma lift_gate [simp]: "as_gate (snd (io_lift r a)) = as_gate a"
  by (simp add: io_lift_def)

lemma api_operator_gate [simp]: "as_gate (snd (api_operator env headers a)) = as_gate a"
  by (simp add: api_operator_frame)

text \<open>C29: A moderation call that is refused or fails, for whatever reason and at whichever write,
  leaves the enforced view exactly as it was.\<close>

theorem moderation_errors_keep_view:
  "(\<forall>e. fst (suspend env subject headers body a) = Err e \<longrightarrow> as_gate (snd (suspend env subject headers body a)) = as_gate a) \<and>
   (\<forall>e. fst (lift_suspension env subject headers a) = Err e \<longrightarrow> as_gate (snd (lift_suspension env subject headers a)) = as_gate a) \<and>
   (\<forall>e. fst (block env hash headers body a) = Err e \<longrightarrow> as_gate (snd (block env hash headers body a)) = as_gate a) \<and>
   (\<forall>e. fst (lift_block env hash headers a) = Err e \<longrightarrow> as_gate (snd (lift_block env hash headers a)) = as_gate a) \<and>
   (\<forall>e. fst (block_catalog env subject headers body a) = Err e \<longrightarrow> as_gate (snd (block_catalog env subject headers body a)) = as_gate a) \<and>
   (\<forall>e. fst (lift_catalog_block env subject headers a) = Err e \<longrightarrow> as_gate (snd (lift_catalog_block env subject headers a)) = as_gate a)"
  unfolding suspend_def lift_suspension_def block_def lift_block_def block_catalog_def lift_catalog_block_def Let_def
  by (intro conjI allI impI; erule bind_Err_view; (simp; fail)?)
    (auto simp: change_Err_view split: if_splits elim!: bind_Err_view)

context moderation_store
begin

lemma persist_Ok:
  assumes "persist env kind key body a = (Ok (), a')" and "ae_store env = st" and "kind \<in> set moderation_kinds"
  shows "objects (as_store a') = (objects (as_store a))(kind := (objects (as_store a) kind)(key \<mapsto> body)) \<and>
    as_gate a' = as_gate a"
  using assms put_ok[OF assms(3)] by (auto simp: persist_def result_simps split: prod.splits)

lemma persist_Err:
  assumes "persist env kind key body a = (Err e, a')" and "ae_store env = st" and "kind \<in> set moderation_kinds"
  shows "objects (as_store a') = objects (as_store a) \<or>
    objects (as_store a') = (objects (as_store a))(kind := (objects (as_store a) kind)(key \<mapsto> body))"
proof -
  from assms(1,2) obtain e' where "ms_put_record st kind key body (as_store a) = (Err e', as_store a')"
    by (auto simp: persist_def result_simps split: prod.splits)
  from put_err[OF assms(3) this] show ?thesis .
qed

lemma record_change_Ok:
  assumes "record_change env kind key event body f a = (Ok (), a')" and "ae_store env = st"
    and "kind \<in> set moderation_kinds" and "kind \<noteq> AUDIT"
  shows "objects (as_store a') kind = (objects (as_store a) kind)(key \<mapsto> body) \<and>
    objects (as_store a') AUDIT = (objects (as_store a) AUDIT)(audit_key kind key (ae_nanos env) \<mapsto> event) \<and>
    (\<forall>k. k \<noteq> kind \<longrightarrow> k \<noteq> AUDIT \<longrightarrow> objects (as_store a') k = objects (as_store a) k) \<and>
    as_gate a' = (as_gate a)\<lparr>pg_moderation := f (api_view a)\<rparr>"
proof -
  from assms(1) obtain b c where
    "persist env AUDIT (audit_key kind key (ae_nanos env)) event a = (Ok (), b)"
    "persist env kind key body b = (Ok (), c)" "a' = set_view f c"
    by (auto simp: record_change_def audit_def io_Ok_iffs)
  with persist_Ok[of env AUDIT "audit_key kind key (ae_nanos env)" event a b]
    persist_Ok[of env kind key body b c] assms(2-4) show ?thesis by (simp add: set_view_def)
qed

text \<open>The record of a kind changes only once its audit event is on record.\<close>

lemma record_change_audited:
  assumes "record_change env kind key event body f a = (r, a')" and "ae_store env = st"
    and "kind \<in> set moderation_kinds" and "kind \<noteq> AUDIT"
    and "objects (as_store a') kind \<noteq> objects (as_store a) kind"
  shows "objects (as_store a') AUDIT (audit_key kind key (ae_nanos env)) = Some event"
proof -
  obtain ra b where b: "persist env AUDIT (audit_key kind key (ae_nanos env)) event a = (ra, b)" by force
  show ?thesis
  proof (cases ra)
    case (Err e)
    with assms(1) b have "a' = b" by (simp add: record_change_def audit_def io_bind_def)
    with persist_Err[OF b[unfolded Err] assms(2)] assms(4,5) show ?thesis by auto
  next
    case (Ok u)
    obtain rc c where c: "persist env kind key body b = (rc, c)" by force
    have "as_store a' = as_store c"
      using assms(1) b c Ok
      by (cases rc) (auto simp: record_change_def audit_def io_bind_def io_modify_def set_view_def)
    moreover have "objects (as_store b) AUDIT (audit_key kind key (ae_nanos env)) = Some event"
      using persist_Ok[of env AUDIT _ event a b] b Ok assms(2) by simp
    moreover have "objects (as_store c) AUDIT = objects (as_store b) AUDIT"
      using persist_Ok[of env kind key body b c] persist_Err[of env kind key body b _ c] c assms(2-4)
      by (cases rc) auto
    ultimately show ?thesis by simp
  qed
qed

end


lemma suspend_Ok:
  assumes "suspend env subject headers body a = (Ok s, a')"
  obtains who b where "api_operator env headers a = (Ok who, b)" and "valid_subject (canonical_subject subject)"
    and "sp_subject s = canonical_subject subject" and "sp_by s = who" and "\<not> sp_lifted s"
    and "sp_hide_catalog s = ar_hide_catalog body"
    and "record_change env SUSPENSIONS (sp_subject s) (audit_suspension_to_vec (ae_audit env) ''suspend'' s)
       (suspension_to_vec (ae_codec env) s) (apply_suspension s) b = (Ok (), a')"
  using assms
  by (auto simp: suspend_def change_suspension_def io_Ok_iffs Let_def split: if_splits)

lemma api_operator_Ok:
  "api_operator env headers a = (Ok who, b) \<Longrightarrow>
   fst (operator (ae_verify env) (ae_now_token env) (ae_policy env) headers (as_verifier a)) = Ok who \<and>
   as_store b = as_store a \<and> as_gate b = as_gate a"
  by (auto simp: api_operator_def split: prod.splits)

lemma view_refines_suspended:
  assumes "view_refines cx contents v" and "contents SUSPENSIONS (sp_subject s) = Some (suspension_to_vec cx s)"
    and "suspension_from_slice cx (suspension_to_vec cx s) = Some s" and "\<not> sp_lifted s"
    and "canonical_subject subject = sp_subject s"
  shows "suspension v subject = Some s"
  using assms by (simp add: view_refines_def suspension_def active_record_def)

text \<open>C7: A suspension that the API confirms was asked for by an operator, is in the store under the
  canonical subject with its audit event, is enforced at once, and is still enforced after any
  later reload of that store, whichever spelling of the subject is checked.\<close>

theorem suspend_durable:
  assumes "moderation_store (ae_store env) ok objects" and "ok (as_store a')"
    and "suspend env subject headers body a = (Ok s, a')"
    and "suspension_from_slice (ae_codec env) (suspension_to_vec (ae_codec env) s) = Some s"
    and "store_well_keyed (ae_codec env) (objects (as_store a'))"
    and "reload (ae_codec env) (ae_store env) (as_store a', v) = (Ok (), (store', v'))"
  shows "(\<exists>who. fst (operator (ae_verify env) (ae_now_token env) (ae_policy env) headers (as_verifier a)) = Ok who
            \<and> sp_by s = who) \<and>
    objects (as_store a') SUSPENSIONS (canonical_subject subject) = Some (suspension_to_vec (ae_codec env) s) \<and>
    objects (as_store a') AUDIT (audit_key SUSPENSIONS (canonical_subject subject) (ae_nanos env)) =
      Some (audit_suspension_to_vec (ae_audit env) ''suspend'' s) \<and>
    suspension (api_view a') subject = Some s \<and> suspension v' subject = Some s"
  using assms(3)
proof (rule suspend_Ok)
  fix who b
  assume o: "api_operator env headers a = (Ok who, b)" and sub: "sp_subject s = canonical_subject subject"
    and sb: "sp_by s = who" and nl: "\<not> sp_lifted s"
    and rc: "record_change env SUSPENSIONS (sp_subject s) (audit_suspension_to_vec (ae_audit env) ''suspend'' s)
       (suspension_to_vec (ae_codec env) s) (apply_suspension s) b = (Ok (), a')"
  have c: "objects (as_store a') SUSPENSIONS (sp_subject s) = Some (suspension_to_vec (ae_codec env) s)"
    "objects (as_store a') AUDIT (audit_key SUSPENSIONS (sp_subject s) (ae_nanos env)) =
      Some (audit_suspension_to_vec (ae_audit env) ''suspend'' s)"
    "as_gate a' = (as_gate b)\<lparr>pg_moderation := apply_suspension s (api_view b)\<rparr>"
    using moderation_store.record_change_Ok[OF assms(1) rc refl] by simp_all
  obtain w where "load_view (ae_codec env) (ae_store env) (as_store a') = (Ok v', w)"
    using assms(6) by (auto simp: reload_def split: prod.splits result.splits)
  then have "view_refines (ae_codec env) (objects (as_store a')) v'"
    using moderation_store.load_view_refines[OF assms(1) _ assms(2,5)] by blast
  then have "suspension v' subject = Some s"
    using view_refines_suspended c(1) assms(4) nl sub by simp
  with api_operator_Ok[OF o] c sub sb nl show ?thesis by (simp add: suspension_apply)
qed



section \<open>Opening a session: lemmas\<close>


text \<open>C16: A session is opened only for an accepted publisher who proved possession of the endpoint's
  key: its signature covers that endpoint, the bearer token presented with it, and a timestamp the
  skew check passed. The gate then holds exactly that endpoint's session, for the canonical subject
  and the policy's lifetime, with the permitted chain stripped of its tokens.\<close>

theorem open_session_sound:
  assumes "api_open_session env headers body a = (Ok resp, a')"
  shows "\<exists>claims chain endpoint token sig.
    fst (publisher_with_chain (ae_verify env) (ae_now_token env) (ae_now_chain env) (ae_policy env)
       (api_view a) headers (as_verifier a, as_provider a)) = Ok (claims, chain) \<and>
    bearer headers = Some token \<and>
    px_endpoint_from_str (ae_possession env) (trim (rq_endpoint_id body)) = Some endpoint \<and>
    abs_i64 (sub_i64 (ae_now_possession env) (rq_timestamp body)) \<le> SESSION_SKEW_SECS \<and>
    length sig = 64 \<and> px_hex_decode (ae_possession env) (trim (rq_signature body)) = Some sig \<and>
    px_verify (ae_possession env) endpoint
      (session_message (ae_possession env) endpoint token (rq_timestamp body)) sig \<and>
    rs_endpoint_id resp = endpoint \<and> rs_subject resp = canonical_subject (vc_sub claims) \<and>
    tget (pg_sessions (as_gate a')) endpoint =
      Some \<lparr>ss_subject = canonical_subject (vc_sub claims),
            ss_expires = ae_expires env + pp_session_ttl (ae_policy env),
            ss_chain = map_option strip_tokens chain\<rparr> \<and>
    pg_moderation (as_gate a') = api_view a"
proof -
  from assms obtain claims chain endpoint b r where
    pub: "api_publisher env headers a = (Ok (claims, chain), b)"
    and ep: "px_endpoint_from_str (ae_possession env) (trim (rq_endpoint_id body)) = Some endpoint"
    and pos: "verify_possession (ae_possession env) (ae_now_possession env) endpoint
        (case bearer headers of Some t \<Rightarrow> t | None \<Rightarrow> []) (rq_timestamp body) (rq_signature body) = Ok ()"
    and resp: "rs_endpoint_id resp = endpoint" "rs_subject resp = canonical_subject (vc_sub claims)"
    and st: "a' = open_gate_session env endpoint (vc_sub claims) (map_option strip_tokens chain)
        (store_session env r b)"
    by (auto simp: api_open_session_def io_Ok_iffs Let_def result_simps)
  from pub obtain p where p: "publisher_with_chain (ae_verify env) (ae_now_token env) (ae_now_chain env)
      (ae_policy env) (api_view a) headers (as_verifier a, as_provider a) = (Ok (claims, chain), p)"
    and g: "as_gate b = as_gate a"
    by (auto simp: api_publisher_def split: prod.splits)
  from publisher_accepted[OF p] obtain token where t: "bearer headers = Some token" by blast
  have s: "as_gate (store_session env r b) = as_gate a" for r
    using g by (simp add: store_session_def split: option.splits)
  have "tget (pg_sessions (as_gate a')) endpoint =
      Some \<lparr>ss_subject = canonical_subject (vc_sub claims),
            ss_expires = ae_expires env + pp_session_ttl (ae_policy env),
            ss_chain = map_option strip_tokens chain\<rparr>" "pg_moderation (as_gate a') = api_view a"
    using st s by (auto simp: open_gate_session_def open_session_with_chain_def Let_def table_simps)
  with p t ep pos resp show ?thesis
    by (fastforce simp: verify_possession_def split: option.splits if_splits)
qed



text \<open>The converse: with an accepted publisher, a readable endpoint and a proof of possession the
  session opens, whether or not its record could be stored.\<close>

lemma open_session_complete:
  assumes "api_publisher env headers a = (Ok (claims, chain), b)"
    and "px_endpoint_from_str (ae_possession env) (trim (rq_endpoint_id body)) = Some endpoint"
    and "verify_possession (ae_possession env) (ae_now_possession env) endpoint
        (case bearer headers of Some t \<Rightarrow> t | None \<Rightarrow> []) (rq_timestamp body) (rq_signature body) = Ok ()"
  shows "\<exists>resp. fst (api_open_session env headers body a) = Ok resp \<and> rs_endpoint_id resp = endpoint"
  using assms by (simp add: api_open_session_def io_defs Let_def)


section \<open>A reload that overtakes a change\<close>

text \<open>
  \<open>reload\<close> lists the store first and installs the view afterwards, without a lock over the two. A
  state of the node while a refresh is between them: \<open>pending\<close> is the view it has read.
\<close>

inductive refresh_step ::
  "('s, 'p) api_env \<Rightarrow> ('s, 'p) api_state \<times> Moderation option \<Rightarrow> ('s, 'p) api_state \<times> Moderation option \<Rightarrow> bool" for env where
  listed: "load_view (ae_codec env) (ae_store env) (as_store a) = (Ok v, s') \<Longrightarrow>
     refresh_step env (a, None) (a\<lparr>as_store := s'\<rparr>, Some v)"
| installed: "refresh_step env (a, Some v) (set_view (\<lambda>_. v) a, None)"
| suspended: "suspend env subject headers body a = (r, a') \<Longrightarrow> refresh_step env (a, p) (a', p)"


section \<open>A sample node\<close>

definition sample_audit :: audit_codec where
  "sample_audit = \<lparr>audit_suspension_to_vec = (\<lambda>act _. act), audit_block_to_vec = (\<lambda>act _. act),
     audit_catalog_block_to_vec = (\<lambda>act _. act)\<rparr>"

definition sample_possession :: possession_ext where
  "sample_possession = \<lparr>px_endpoint_from_str = Some, px_hex_decode = (\<lambda>_. Some (replicate 64 (CHR ''s''))),
     px_verify = (\<lambda>_ _ _. True), px_blake3_hex = id\<rparr>"

definition sample_api_env :: "(MemModeration, AuthZenClient) api_env" where
  "sample_api_env = \<lparr>ae_store = mem_store, ae_codec = sample_codec, ae_audit = sample_audit,
     ae_gate_ext = sample_gate_ext, ae_possession = sample_possession, ae_verify = sample_env,
     ae_policy = sample_policy, ae_now_token = 1500, ae_now_chain = 1500, ae_now_possession = 1500,
     ae_now = 1400, ae_nanos = 3, ae_expires = 5, ae_retain = 5\<rparr>"

definition sample_api_state :: "(MemModeration, AuthZenClient) api_state" where
  "sample_api_state = \<lparr>as_store = \<lparr>mm_records = [], mm_fail = False, mm_session_gets = 0\<rparr>,
     as_verifier = sample_verifier, as_gate = gate_new moderation_default 5, as_provider = sample_client\<rparr>"

definition sample_operator_headers :: headers where
  "sample_operator_headers = [(''authorization'', ''Bearer T.operator'')]"

definition sample_action :: ActionRequest where
  "sample_action = \<lparr>ar_reason = '' spam '', ar_report_id = None, ar_hide_catalog = True\<rparr>"

definition sample_suspended_state :: "(MemModeration, AuthZenClient) api_state" where
  "sample_suspended_state = snd (suspend sample_api_env ''arkavo:mallory'' sample_operator_headers sample_action sample_api_state)"

lemma sample_operator_ok:
  "operator sample_env 1500 sample_policy sample_operator_headers sample_verifier = (Ok ''client:mod'', sample_verifier)"
  by code_simp

lemma sample_action_checks:
  "valid_subject ''mallory''" "canonical_subject ''arkavo:mallory'' = ''mallory''"
  "checked_reason '' spam '' = Ok ''spam''"
  by code_simp+

lemma sample_suspend:
  "fst (suspend sample_api_env ''arkavo:mallory'' sample_operator_headers sample_action sample_api_state) =
     Ok sample_suspension"
  "mm_records (as_store sample_suspended_state) =
     [(''suspensions/mallory'', ''S''), (''audit/suspensions/mallory/00000000000000000003'', ''suspend'')]"
  "is_suspended (api_view sample_suspended_state) ''mallory''"
  by code_simp+



lemma sample_suspended_keyed:
  "store_well_keyed sample_codec (mem_objects (as_store sample_suspended_state))"
  using sample_suspend(2)
  by (auto simp: store_well_keyed_def well_keyed_def sample_codec_def mem_objects_def
      kind_defs sample_suspension_def moderation_kinds_def split: if_splits)

lemma sample_suspended_wf: "wf_table (mm_records (as_store sample_suspended_state))"
  using sample_suspend(2) by (simp add: wf_table_def)

lemma sample_suspended_reload:
  "fst (reload sample_codec mem_store (as_store sample_suspended_state, moderation_default)) = Ok ()"
  by code_simp

lemma sample_env_parts [simp]:
  "ae_store sample_api_env = mem_store" "ae_codec sample_api_env = sample_codec"
  by (simp_all add: sample_api_env_def)

theorem suspend_durable_witness:
  "suspension (snd (snd (reload sample_codec mem_store (as_store sample_suspended_state, moderation_default)))) ''arkavo:mallory''
     = Some sample_suspension"
proof -
  have s: "suspend sample_api_env ''arkavo:mallory'' sample_operator_headers sample_action sample_api_state =
      (Ok sample_suspension, sample_suspended_state)"
    using sample_suspend(1) by (simp add: sample_suspended_state_def prod_eq_iff)
  obtain st v where r: "reload sample_codec mem_store (as_store sample_suspended_state, moderation_default) = (Ok (), (st, v))"
    using sample_suspended_reload by (metis prod.collapse)
  have c: "suspension_from_slice sample_codec (suspension_to_vec sample_codec sample_suspension) = Some sample_suspension"
    by (simp add: sample_codec_def)
  from suspend_durable[OF _ _ s, of "\<lambda>m. wf_table (mm_records m)" mem_objects moderation_default st v]
    mem.moderation_store_axioms sample_suspended_wf c sample_suspended_keyed r
  show ?thesis by simp
qed


theorem moderation_errors_keep_view_witness:
  "as_gate (snd (suspend sample_api_env ''mallory'' [] sample_action sample_api_state)) = as_gate sample_api_state"
proof -
  have "fst (suspend sample_api_env ''mallory'' [] sample_action sample_api_state) = Err (UNAUTHORIZED, ''missing bearer token'')"
    by code_simp
  with moderation_errors_keep_view[of sample_api_env "''mallory''" "[]" sample_action sample_api_state "[]"]
  show ?thesis by blast
qed


definition sample_session_request :: SessionRequest where
  "sample_session_request = \<lparr>rq_endpoint_id = '' ep1'', rq_timestamp = 1400, rq_signature = ''00''\<rparr>"

lemma sample_open_session:
  "\<exists>resp. fst (api_open_session sample_api_env sample_headers sample_session_request sample_api_state) = Ok resp \<and>
     rs_endpoint_id resp = ''ep1''"
proof -
  obtain q where p: "publisher_with_chain sample_env 1500 1500 sample_policy moderation_default sample_headers
      (sample_verifier, sample_client) =
      (Ok (sample_claims, Some [subject_entity sample_claims (Some (sample_token ''person''))]), q)"
    using sample_publisher by (metis prod.collapse)
  have e: "ae_verify sample_api_env = sample_env" "ae_policy sample_api_env = sample_policy"
    "ae_now_token sample_api_env = 1500" "ae_now_chain sample_api_env = 1500"
    "ae_now_possession sample_api_env = 1500" "ae_possession sample_api_env = sample_possession"
    "api_view sample_api_state = moderation_default" "as_verifier sample_api_state = sample_verifier"
    "as_provider sample_api_state = sample_client"
    by (simp_all add: sample_api_env_def sample_api_state_def gate_new_def)
  obtain b where pub: "api_publisher sample_api_env sample_headers sample_api_state =
      (Ok (sample_claims, Some [subject_entity sample_claims (Some (sample_token ''person''))]), b)"
    by (cases q) (simp add: api_publisher_def e p)
  have ep: "px_endpoint_from_str (ae_possession sample_api_env) (trim (rq_endpoint_id sample_session_request)) = Some ''ep1''"
    by code_simp
  have "verify_possession sample_possession 1500 ''ep1'' (sample_token ''person'') 1400 ''00'' = Ok ()"
    by code_simp
  then have "verify_possession (ae_possession sample_api_env) (ae_now_possession sample_api_env) ''ep1''
      (case bearer sample_headers of Some t \<Rightarrow> t | None \<Rightarrow> []) (rq_timestamp sample_session_request)
      (rq_signature sample_session_request) = Ok ()"
    by (simp add: e sample_bearer sample_session_request_def)
  from open_session_complete[OF pub ep this] show ?thesis by blast
qed

theorem open_session_sound_witness:
  "\<exists>claims. tget (pg_sessions (as_gate (snd (api_open_session sample_api_env sample_headers
       sample_session_request sample_api_state)))) ''ep1'' = Some claims"
proof -
  from sample_open_session obtain resp where
    "api_open_session sample_api_env sample_headers sample_session_request sample_api_state =
      (Ok resp, snd (api_open_session sample_api_env sample_headers sample_session_request sample_api_state))"
    and "rs_endpoint_id resp = ''ep1''"
    by (auto simp: prod_eq_iff)
  with open_session_sound[OF this(1)] show ?thesis by auto
qed

end
