(* ===== verification/Validation.thy ===== *)
theory Validation
  imports Text_Ops
begin

text \<open>
  \<open>src/validation/\<close>: what makes a blob an acceptable TDF. Reading is through \<open>tdf_reader\<close> (a file,
  or bytes in memory: \<open>cursor\<close>); the ZIP crate, opentdf's manifest and FQN parsers and the file
  system are the fields of \<open>tdf_ext\<close>. The search for ZIP64 end records, the choice of members and
  the read budget are defined here.
\<close>

section \<open>Readers and archives\<close>

record tdf_reader =
  rd_len :: "(nat, string) result"
  rd_read_at :: "nat \<Rightarrow> nat \<Rightarrow> (bytes, string) result"

definition cursor :: "bytes \<Rightarrow> tdf_reader" where
  "cursor data = \<lparr>rd_len = Ok (length data), rd_read_at = (\<lambda>offset len. Ok (take len (drop offset data)))\<rparr>"

text \<open>The manifest's fields the code reads; a ZIP member's declared size and what reading at most
  \<open>n\<close> bytes of it gives.\<close>

record TdfManifest =
  tm_payload_url :: string
  tm_policy_binding_hashes :: "string list"
  tm_source :: bytes

record zip_member =
  zm_open :: "(unit, string) result"
  zm_size :: nat
  zm_read :: "nat \<Rightarrow> (bytes, string) result"

type_synonym zip_archive = "(string \<times> zip_member) list"

record AttributeFqn =
  fqn_namespace :: string
  fqn_name :: string
  fqn_value :: "string option"

record tdf_ext =
  te_zip :: "tdf_reader \<Rightarrow> nat \<Rightarrow> (zip_archive, string) result"
  te_manifest_from_json :: "string \<Rightarrow> (TdfManifest, string) result"
  te_manifest_to_json :: "TdfManifest \<Rightarrow> (string, string) result"
  te_policy_raw :: "TdfManifest \<Rightarrow> (string, string) result"
  te_fqn_parse :: "string \<Rightarrow> (AttributeFqn, string) result"
  te_read_file :: "string \<Rightarrow> (string, string) result"

record ValidationConfig =
  vcf_max_blob_bytes :: nat
  vcf_required_attributes :: "string list"
  vcf_assertion_enabled :: bool
  vcf_trusted_public_keys :: "string list"


section \<open>Structure\<close>

definition MANIFEST :: string where "MANIFEST = ''manifest.json''"
definition LEGACY_MANIFEST :: string where "LEGACY_MANIFEST = ''0.manifest.json''"
definition DEFAULT_PAYLOAD :: string where "DEFAULT_PAYLOAD = ''0.payload''"
definition MAX_MANIFEST_BYTES :: nat where "MAX_MANIFEST_BYTES = 4 * 1024 * 1024"
definition MAX_ARCHIVE_ENTRIES :: nat where "MAX_ARCHIVE_ENTRIES = 65535"
definition MAX_CENTRAL_DIRECTORY_READ :: nat where "MAX_CENTRAL_DIRECTORY_READ = 16 * 1024 * 1024"
definition MAX_ZIP64_CANDIDATES :: nat where "MAX_ZIP64_CANDIDATES = 4"

definition EOCD :: bytes where "EOCD = ''PK'' @ [CHR 0x05, CHR 0x06]"
definition LOCATOR :: bytes where "LOCATOR = ''PK'' @ [CHR 0x06, CHR 0x07]"
definition EOCD64 :: bytes where "EOCD64 = ''PK'' @ [CHR 0x06, CHR 0x06]"
definition EOCD_LEN :: nat where [simp]: "EOCD_LEN = 22"
definition LOCATOR_LEN :: nat where [simp]: "LOCATOR_LEN = 20"
definition EOCD64_LEN :: nat where [simp]: "EOCD64_LEN = 56"

text \<open>\<open>from_le_bytes\<close> of the bytes \<open>i..j\<close>; \<open>slice.get(i..j)\<close>; \<open>u64::saturating_add\<close>.\<close>

definition le_num :: "bytes \<Rightarrow> nat \<Rightarrow> nat \<Rightarrow> nat" where
  "le_num b i j = foldr (\<lambda>c n. byte_of c + 256 * n) (take (j - i) (drop i b)) 0"

definition slice_get :: "bytes \<Rightarrow> nat \<Rightarrow> nat \<Rightarrow> bytes option" where
  "slice_get b i j = (if i \<le> j \<and> j \<le> length b then Some (take (j - i) (drop i b)) else None)"

definition saturating_add :: "nat \<Rightarrow> nat \<Rightarrow> nat" where
  "saturating_add a b = min (a + b) (2 ^ 64 - 1)"

definition positions :: "bytes \<Rightarrow> bytes \<Rightarrow> nat list" where
  "positions haystack needle =
     filter (\<lambda>i. take (length needle) (drop i haystack) = needle) [0 ..< Suc (length haystack) - length needle]"

definition read_at :: "tdf_reader \<Rightarrow> nat \<Rightarrow> nat \<Rightarrow> (bytes, string) result" where
  "read_at reader offset len = map_err (\<lambda>_. ''Failed to read TDF archive'') (rd_read_at reader offset len)"

text \<open>One ZIP64 end record of the region: its counts.\<close>

definition check_record :: "bytes \<Rightarrow> nat \<Rightarrow> (unit, string) result" where
  "check_record region q = (case slice_get region q (q + EOCD64_LEN) of
       None \<Rightarrow> Ok ()
     | Some r \<Rightarrow>
         (let on_disk = le_num r 24 32; files = le_num r 32 40 in
          if max files on_disk > MAX_ARCHIVE_ENTRIES
          then Err (''TDF archive lists '' @ show_nat (max files on_disk) @ '' members, more than 65535'')
          else Ok ()))"

text \<open>The end record at \<open>p\<close> of the tail: where its ZIP64 locator is, and the region in which the ZIP
  reader would look for the ZIP64 end record. \<open>Err\<close> also stands for the panic of slicing a locator
  the reader returned short.\<close>

definition read_locator :: "tdf_reader \<Rightarrow> bytes \<Rightarrow> nat \<Rightarrow> nat \<Rightarrow> (bytes, string) result" where
  "read_locator reader tail p locator_at =
     (if LOCATOR_LEN \<le> p then Ok (take LOCATOR_LEN (drop (p - LOCATOR_LEN) tail))
      else and_then (read_at reader locator_at LOCATOR_LEN) (\<lambda>l.
        if length l < 16 then Err ''range end index out of range'' else Ok l))"

definition check_candidate :: "tdf_reader \<Rightarrow> nat \<Rightarrow> nat \<Rightarrow> bytes \<Rightarrow> nat \<Rightarrow> (unit, string) result" where
  "check_candidate reader window tail_start tail p =
     (let eocd_at = tail_start + p in
      if eocd_at < LOCATOR_LEN then Ok ()
      else let locator_at = eocd_at - LOCATOR_LEN in
        and_then (read_locator reader tail p locator_at) (\<lambda>locator.
          if take 4 locator \<noteq> LOCATOR then Ok ()
          else let start = le_num locator 8 16 in
            if start \<ge> locator_at then Ok ()
            else let stop = min locator_at (saturating_add (saturating_add start window) EOCD64_LEN) in
              and_then (read_at reader start (stop - start)) (\<lambda>region.
                fold_result (\<lambda>q _. check_record region q) (positions region EOCD64) ())))"

definition defers_to_zip64 :: "bytes \<Rightarrow> bool" where
  "defers_to_zip64 eocd \<longleftrightarrow> le_num eocd 10 12 = 0xFFFF \<or> le_num eocd 16 20 = 0xFFFFFFFF"

definition check_eocd ::
  "tdf_reader \<Rightarrow> nat \<Rightarrow> nat \<Rightarrow> bytes \<Rightarrow> nat \<Rightarrow> nat \<Rightarrow> (nat, string) result" where
  "check_eocd reader window tail_start tail p candidates = (case slice_get tail p (p + EOCD_LEN) of
       None \<Rightarrow> Ok candidates
     | Some eocd \<Rightarrow>
         if \<not> defers_to_zip64 eocd then Ok candidates
         else if candidates + 1 > MAX_ZIP64_CANDIDATES then Err ''TDF archive has more than 4 ZIP64 end records''
         else and_then (check_candidate reader window tail_start tail p) (\<lambda>_. Ok (candidates + 1)))"

definition check_zip64_entry_counts :: "tdf_reader \<Rightarrow> nat \<Rightarrow> (unit, string) result" where
  "check_zip64_entry_counts reader len =
     (let window = min len MAX_CENTRAL_DIRECTORY_READ; tail_start = len - window in
      and_then (read_at reader tail_start window) (\<lambda>tail.
      and_then (fold_result (check_eocd reader window tail_start tail) (positions tail EOCD) 0) (\<lambda>_.
        Ok ())))"

text \<open>\<open>BudgetReader::read\<close> over an inner \<open>read\<close> that returns at most what it is asked for.\<close>

definition budget_read ::
  "(nat \<Rightarrow> ('r, bytes, string) io) \<Rightarrow> nat \<Rightarrow> (nat option \<times> 'r, bytes, string) io" where
  "budget_read inner buf_len st = (case st of (budget, r) \<Rightarrow> (case budget of
       None \<Rightarrow> (case inner buf_len r of (x, r') \<Rightarrow> (x, (None, r')))
     | Some left \<Rightarrow>
         if left = 0 \<and> buf_len \<noteq> 0
         then (Err ''TDF archive central directory exceeds 16777216 bytes'', (Some left, r))
         else (case inner (min buf_len left) r of
             (Err e, r') \<Rightarrow> (Err e, (Some left, r'))
           | (Ok bs, r') \<Rightarrow> (Ok bs, (Some (left - length bs), r')))))"

definition safe_url :: "string \<Rightarrow> bool" where
  "safe_url url \<longleftrightarrow> \<not> starts_with ''/'' url \<and> \<not> str_contains [CHR 0x5C] url \<and>
     \<not> list_ex (\<lambda>segment. segment = ''..'') (split_on (CHR ''/'') url)"

definition manifest_shaped :: "string \<Rightarrow> bool" where
  "manifest_shaped url \<longleftrightarrow> url = MANIFEST \<or> (case strip_suffix ''.manifest.json'' url of
     Some p \<Rightarrow> p \<noteq> [] \<and> list_all is_ascii_digit p | None \<Rightarrow> False)"

definition payload_member :: "TdfManifest \<Rightarrow> (string, string) result" where
  "payload_member manifest =
     (let url = tm_payload_url manifest in
      if url = [] then Ok DEFAULT_PAYLOAD
      else if \<not> safe_url url then Err (''unsafe payload url in manifest: '' @ url)
      else if manifest_shaped url then Err (''payload url collides with the manifest entry name: '' @ url)
      else Ok url)"

definition by_name :: "zip_archive \<Rightarrow> string \<Rightarrow> string \<Rightarrow> (zip_member, string) result" where
  "by_name archive name context_msg =
     and_then (ok_or context_msg (map_of archive name)) (\<lambda>m.
       and_then (map_err (\<lambda>_. context_msg) (zm_open m)) (\<lambda>_. Ok m))"

definition check_payload :: "zip_archive \<Rightarrow> string \<Rightarrow> nat \<Rightarrow> (unit, string) result" where
  "check_payload archive name archive_len =
     and_then (by_name archive name (''Failed to read payload member '' @ name)) (\<lambda>m.
     let declared = zm_size m in
     if declared > archive_len
     then Err (''payload member '' @ name @ '' declares '' @ show_nat declared @ '' bytes, more than the archive holds'')
     else and_then (map_err (\<lambda>_. ''payload member '' @ name @ '' is corrupt'') (zm_read m (declared + 1))) (\<lambda>bs.
       if length bs \<noteq> declared
       then Err (''payload member '' @ name @ '' holds '' @ show_nat (length bs) @ '' bytes, not the '' @
              show_nat declared @ '' it declares'')
       else Ok ()))"

definition read_manifest_member :: "tdf_ext \<Rightarrow> zip_archive \<Rightarrow> string \<Rightarrow> (TdfManifest, string) result" where
  "read_manifest_member e archive name =
     and_then (by_name archive name ''Failed to read TDF entry'') (\<lambda>m.
     if zm_size m > MAX_MANIFEST_BYTES
     then Err (''manifest of '' @ show_nat (zm_size m) @ '' bytes exceeds 4194304 bytes'')
     else and_then (map_err (\<lambda>_. ''Failed to read TDF entry'') (zm_read m (MAX_MANIFEST_BYTES + 1))) (\<lambda>json.
       if \<not> from_utf8 json then Err ''Failed to read TDF entry''
       else if length json > MAX_MANIFEST_BYTES then Err ''manifest exceeds 4194304 bytes''
       else map_err (\<lambda>_. ''Failed to deserialize manifest'') (te_manifest_from_json e json)))"

definition validate_tdf_structure_from :: "tdf_ext \<Rightarrow> tdf_reader \<Rightarrow> (TdfManifest, string) result" where
  "validate_tdf_structure_from e reader =
     and_then (map_err (\<lambda>_. ''Failed to read TDF archive'') (rd_len reader)) (\<lambda>archive_len.
     and_then (check_zip64_entry_counts reader archive_len) (\<lambda>_.
     and_then (map_err (\<lambda>_. ''Failed to open as TDF archive (not a valid ZIP or TDF)'')
                 (te_zip e reader MAX_CENTRAL_DIRECTORY_READ)) (\<lambda>archive.
     if length archive > MAX_ARCHIVE_ENTRIES
     then Err (''TDF archive lists '' @ show_nat (length archive) @ '' members, more than 65535'')
     else
     and_then (ok_or ''TDF archive contains no entries: missing manifest file manifest.json (or legacy 0.manifest.json)''
                 (find (\<lambda>name. map_of archive name \<noteq> None) [MANIFEST, LEGACY_MANIFEST])) (\<lambda>manifest_name.
     and_then (read_manifest_member e archive manifest_name) (\<lambda>manifest.
     and_then (payload_member manifest) (\<lambda>payload_name.
     if map_of archive payload_name = None
     then Err (''Missing payload file: '' @ payload_name @ '' (the member named by manifest.payload.url)'')
     else and_then (check_payload archive payload_name archive_len) (\<lambda>_. Ok manifest)))))))"

definition validate_tdf_structure :: "tdf_ext \<Rightarrow> bytes \<Rightarrow> (TdfManifest, string) result" where
  "validate_tdf_structure e data = validate_tdf_structure_from e (cursor data)"


section \<open>Attributes, assertion, the pipeline\<close>

definition quoted :: "string \<Rightarrow> string" where
  "quoted s = [CHR 0x27] @ s @ [CHR 0x27]"

definition attribute_in_policy :: "tdf_ext \<Rightarrow> string \<Rightarrow> string \<Rightarrow> (bool, string) result" where
  "attribute_in_policy e policy_json fqn =
     and_then (map_err (\<lambda>_. ''Invalid attribute FQN: '' @ quoted fqn) (te_fqn_parse e fqn)) (\<lambda>parsed.
     if \<not> str_contains (fqn_namespace parsed) policy_json \<or> \<not> str_contains (fqn_name parsed) policy_json
     then Ok False
     else if (case fqn_value parsed of Some v \<Rightarrow> \<not> str_contains v policy_json | None \<Rightarrow> False) then Ok False
     else Ok True)"

fun require_attributes :: "tdf_ext \<Rightarrow> string \<Rightarrow> string list \<Rightarrow> (unit, string) result" where
  "require_attributes e policy_json [] = Ok ()"
| "require_attributes e policy_json (required # rest) =
     and_then (attribute_in_policy e policy_json required) (\<lambda>found.
       if \<not> found then Err (''Required attribute '' @ quoted required @ '' not found in TDF policy'')
       else require_attributes e policy_json rest)"

definition validate_attributes :: "tdf_ext \<Rightarrow> TdfManifest \<Rightarrow> string list \<Rightarrow> (unit, string) result" where
  "validate_attributes e manifest required =
     (if required = [] then Ok ()
      else and_then (map_err (\<lambda>_. ''Failed to read policy from manifest'') (te_policy_raw e manifest)) (\<lambda>policy_json.
        require_attributes e policy_json required))"

definition check_binding :: "nat \<times> string \<Rightarrow> unit \<Rightarrow> (unit, string) result" where
  "check_binding ka _ = (if snd ka = []
     then Err (''Key access object '' @ show_nat (fst ka) @ '' has empty policy binding hash '' @
            [CHR 0xE2, CHR 0x80, CHR 0x94] @ '' assertion verification failed'')
     else Ok ())"

definition load_trusted_key :: "tdf_ext \<Rightarrow> string \<Rightarrow> unit \<Rightarrow> (unit, string) result" where
  "load_trusted_key e path _ =
     and_then (map_err (\<lambda>x. ''Failed to read trusted key '' @ quoted path @ '': '' @ x) (te_read_file e path)) (\<lambda>_. Ok ())"

definition validate_assertion :: "tdf_ext \<Rightarrow> TdfManifest \<Rightarrow> bool \<Rightarrow> string list \<Rightarrow> (unit, string) result" where
  "validate_assertion e manifest enabled key_paths =
     (if \<not> enabled then Ok ()
      else if key_paths = [] then Err ''Assertion check enabled but no trusted public keys configured''
      else
      and_then (fold_result check_binding (enumerate 0 (tm_policy_binding_hashes manifest)) ()) (\<lambda>_.
      fold_result (load_trusted_key e) key_paths ()))"

definition check_blob_size :: "nat \<Rightarrow> ValidationConfig \<Rightarrow> (unit, string) result" where
  "check_blob_size n config = ensure (n \<le> vcf_max_blob_bytes config)
     (''blob of '' @ show_nat n @ '' bytes exceeds [validation] max_blob_bytes ('' @ show_nat (vcf_max_blob_bytes config) @ '')'')"

definition validate_archive :: "tdf_ext \<Rightarrow> tdf_reader \<Rightarrow> nat \<Rightarrow> ValidationConfig \<Rightarrow> (TdfManifest, string) result" where
  "validate_archive e reader n config =
     and_then (check_blob_size n config) (\<lambda>_.
     and_then (map_err (\<lambda>_. ''TDF structure validation failed'') (validate_tdf_structure_from e reader)) (\<lambda>manifest.
     and_then (map_err (\<lambda>_. ''TDF attribute validation failed'')
                 (validate_attributes e manifest (vcf_required_attributes config))) (\<lambda>_.
     and_then (map_err (\<lambda>_. ''TDF assertion validation failed'')
                 (validate_assertion e manifest (vcf_assertion_enabled config) (vcf_trusted_public_keys config))) (\<lambda>_.
     Ok manifest))))"

definition validate_blob :: "tdf_ext \<Rightarrow> bytes \<Rightarrow> ValidationConfig \<Rightarrow> (TdfManifest, string) result" where
  "validate_blob e data config = validate_archive e (cursor data) (length data) config"


section \<open>End records\<close>

lemma fold_result_each:
  "fold_result f xs s = Ok t \<Longrightarrow> x \<in> set xs \<Longrightarrow> \<exists>u v. f x u = Ok v"
  by (induction xs arbitrary: s) (auto simp: result_simps)

lemma positions_iff:
  "needle \<noteq> [] \<Longrightarrow> i \<in> set (positions h needle) \<longleftrightarrow>
   i + length needle \<le> length h \<and> take (length needle) (drop i h) = needle"
  by (auto simp: positions_def Suc_diff_le)

lemma signature_length [simp]: "length EOCD = 4" "length EOCD64 = 4" "EOCD \<noteq> []" "EOCD64 \<noteq> []"
  by (simp_all add: EOCD_def EOCD64_def)

lemma le_num_take: "j \<le> k \<Longrightarrow> le_num (take k b) i j = le_num b i j"
  by (simp add: le_num_def drop_take)

lemma read_at_cursor [simp]: "read_at (cursor data) offset len = Ok (take len (drop offset data))"
  by (simp add: read_at_def cursor_def)

text \<open>An end record of the archive within the searched window that leaves its counts to ZIP64.\<close>

definition zip64_end_record :: "bytes \<Rightarrow> nat \<Rightarrow> bool" where
  "zip64_end_record data p \<longleftrightarrow> length data - MAX_CENTRAL_DIRECTORY_READ \<le> p \<and> p + 22 \<le> length data \<and>
     take 4 (drop p data) = EOCD \<and> defers_to_zip64 (drop p data)"

text \<open>A ZIP64 end record at \<open>q\<close> that the locator before the end record at \<open>p\<close> can lead to.\<close>

definition zip64_reachable :: "bytes \<Rightarrow> nat \<Rightarrow> nat \<Rightarrow> bool" where
  "zip64_reachable data p q \<longleftrightarrow>
     (let start = le_num (drop (p - 20) data) 8 16 in
      20 \<le> p \<and> take 4 (drop (p - 20) data) = LOCATOR \<and> start \<le> q \<and> take 4 (drop q data) = EOCD64 \<and>
      q + 56 \<le> p - 20 \<and> q + 56 \<le> start + min (length data) MAX_CENTRAL_DIRECTORY_READ + 56)"

lemma check_eocd_candidates:
  "check_eocd reader window tail_start tail p n = Ok m \<Longrightarrow>
   m = (if \<exists>eocd. slice_get tail p (p + 22) = Some eocd \<and> defers_to_zip64 eocd then Suc n else n) \<and> (n \<le> 4 \<longrightarrow> m \<le> 4)"
  by (auto simp: check_eocd_def result_simps MAX_ZIP64_CANDIDATES_def split: option.splits if_splits)

lemma check_record_Ok:
  "check_record region q = Ok u \<Longrightarrow> q + 56 \<le> length region \<Longrightarrow>
   le_num (drop q region) 24 32 \<le> 65535 \<and> le_num (drop q region) 32 40 \<le> 65535"
  by (auto simp: check_record_def slice_get_def Let_def le_num_take MAX_ARCHIVE_ENTRIES_def split: if_splits)

lemma check_candidate_cursor:
  assumes ok: "check_candidate (cursor data) window tail_start tail p = Ok u"
    and tail: "tail = drop tail_start data" and len: "length data < 2 ^ 62"
    and w: "window = min (length data) MAX_CENTRAL_DIRECTORY_READ"
    and p: "tail_start + p + 22 \<le> length data"
    and r: "zip64_reachable data (tail_start + p) q"
  shows "le_num (drop q data) 24 32 \<le> 65535 \<and> le_num (drop q data) 32 40 \<le> 65535"
proof -
  define P where "P = tail_start + p"
  define start where "start = le_num (drop (P - 20) data) 8 16"
  from r have P: "20 \<le> P" "take 4 (drop (P - 20) data) = LOCATOR" "start \<le> q" "take 4 (drop q data) = EOCD64"
    "q + 56 \<le> P - 20" "q + 56 \<le> start + window + 56"
    by (auto simp: zip64_reachable_def P_def start_def w Let_def)
  have "read_locator (cursor data) tail p (P - 20) = Ok (take 20 (drop (P - 20) data))"
  proof (cases "20 \<le> p")
    case True
    then have "P - 20 = p - 20 + tail_start" by (simp add: P_def)
    with True show ?thesis by (simp add: read_locator_def tail)
  next
    case False
    with P(1) p show ?thesis by (simp add: read_locator_def P_def)
  qed
  moreover have "saturating_add (saturating_add start window) 56 = start + window + 56"
    using len P(3,5) p w by (simp add: saturating_add_def P_def)
  moreover have "start < P - 20" using P by linarith
  moreover have "le_num (take 20 (drop (P - 20) data)) 8 16 = start" by (simp add: le_num_take start_def)
  moreover have "take 4 (take 20 (drop (P - 20) data)) = LOCATOR" using P(2) by simp
  moreover define stop where "stop = min (P - 20) (start + window + 56)"
  ultimately have "fold_result (\<lambda>k _. check_record (take (stop - start) (drop start data)) k)
      (positions (take (stop - start) (drop start data)) EOCD64) () = Ok u"
    using ok P(1) by (simp add: check_candidate_def Let_def P_def[symmetric] del: take_take)
  moreover have q: "q - start + 56 \<le> stop - start" using P by (simp add: stop_def)
  have "stop \<le> length data" using p by (simp add: stop_def P_def)
  then have region: "length (take (stop - start) (drop start data)) = stop - start" by simp
  have "4 \<le> stop - start - (q - start)" using q by linarith
  then have "take 4 (drop (q - start) (take (stop - start) (drop start data))) = EOCD64"
    using P(3,4) q by (simp add: drop_take min_absorb2)
  then have "q - start \<in> set (positions (take (stop - start) (drop start data)) EOCD64)"
    using q region by (subst positions_iff) auto
  ultimately obtain v where "check_record (take (stop - start) (drop start data)) (q - start) = Ok v"
    using fold_result_each by metis
  from check_record_Ok[OF this] q region P(3)
  show ?thesis by (simp add: drop_take le_num_take)
qed

lemma check_eocd_count:
  assumes "fold_result (check_eocd reader window tail_start tail) ps n = Ok m" and "n \<le> 4"
  shows "m = n + length (filter (\<lambda>p. \<exists>eocd. slice_get tail p (p + 22) = Some eocd \<and> defers_to_zip64 eocd) ps) \<and> m \<le> 4"
  using assms
proof (induction ps arbitrary: n)
  case (Cons p ps)
  then obtain k where "check_eocd reader window tail_start tail p n = Ok k"
    "fold_result (check_eocd reader window tail_start tail) ps k = Ok m" by (auto simp: result_simps)
  with Cons.IH[of k] check_eocd_candidates[of reader window tail_start tail p n k] Cons.prems(2) show ?case
    by (auto split: if_splits)
qed simp

text \<open>C36: A blob that passes the check before it is opened cannot make the ZIP reader reserve memory for
  more than 65,535 members: it has at most four end records that defer to ZIP64 in the window the
  reader searches, and every ZIP64 end record one of their locators can lead to lists at most 65,535
  members, on its disk and in all.\<close>

theorem zip64_counts_bounded:
  assumes "check_zip64_entry_counts (cursor data) (length data) = Ok ()" and "length data < 2 ^ 62"
  shows "card {p. zip64_end_record data p} \<le> 4 \<and>
    (\<forall>p q. zip64_end_record data p \<longrightarrow> zip64_reachable data p q \<longrightarrow>
       le_num (drop q data) 24 32 \<le> 65535 \<and> le_num (drop q data) 32 40 \<le> 65535)"
proof -
  define w where "w = min (length data) MAX_CENTRAL_DIRECTORY_READ"
  define ts where "ts = length data - w"
  define tl where "tl = drop ts data"
  define D where "D p \<longleftrightarrow> (\<exists>eocd. slice_get tl p (p + 22) = Some eocd \<and> defers_to_zip64 eocd)" for p
  have tl: "take w (drop ts data) = tl" "ts + w = length data" by (simp_all add: tl_def ts_def w_def)
  then obtain m where m: "fold_result (check_eocd (cursor data) w ts tl) (positions tl EOCD) 0 = Ok m"
    using assms(1)
    by (auto simp: check_zip64_entry_counts_def Let_def w_def[symmetric] ts_def[symmetric] result_simps tl_def[symmetric])
  have defers: "defers_to_zip64 (take 22 b) = defers_to_zip64 b" for b
    by (simp add: defers_to_zip64_def le_num_take)
  have D: "k \<in> set (positions tl EOCD) \<and> D k \<longleftrightarrow> zip64_end_record data (ts + k)" for k
    using tl(2)
    by (auto simp: positions_iff D_def slice_get_def defers zip64_end_record_def tl_def ts_def w_def add.commute)
  have off: "zip64_end_record data p \<Longrightarrow> \<exists>k. p = ts + k" for p
    by (rule exI[of _ "p - ts"]) (auto simp: zip64_end_record_def ts_def w_def)
  have "{p. zip64_end_record data p} = (\<lambda>k. ts + k) ` set (filter D (positions tl EOCD))"
    using D off by auto
  then have "card {p. zip64_end_record data p} \<le> length (filter D (positions tl EOCD))"
    by (metis card_image_le card_length finite_set le_trans)
  also have "\<dots> \<le> 4"
    using check_eocd_count[OF m] by (simp add: D_def[abs_def])
  finally have card: "card {p. zip64_end_record data p} \<le> 4" .
  have "le_num (drop q data) 24 32 \<le> 65535 \<and> le_num (drop q data) 32 40 \<le> 65535"
    if zp: "zip64_end_record data p" and zr: "zip64_reachable data p q" for p q
  proof -
    obtain k where k: "p = ts + k" "k \<in> set (positions tl EOCD)" "D k"
      using off[OF zp] D zp by auto
    obtain a b where "check_eocd (cursor data) w ts tl k a = Ok b" using fold_result_each[OF m k(2)] by blast
    with k(3) obtain u where "check_candidate (cursor data) w ts tl k = Ok u"
      by (auto simp: check_eocd_def D_def result_simps split: if_splits)
    then show ?thesis
      by (rule check_candidate_cursor[OF _ tl_def assms(2) w_def])
        (use zp zr k in \<open>auto simp: zip64_end_record_def\<close>)
  qed
  with card show ?thesis by blast
qed

text \<open>An archive end with one ZIP64 end record of two members, its locator, and an end record.\<close>

definition sample_zip64 :: bytes where
  "sample_zip64 =
     EOCD64 @ replicate 20 (CHR 0x00) @ CHR 0x02 # replicate 7 (CHR 0x00) @ CHR 0x02 # replicate 23 (CHR 0x00) @
     LOCATOR @ replicate 16 (CHR 0x00) @
     EOCD @ replicate 6 (CHR 0x00) @ replicate 2 (CHR 0xFF) @ replicate 10 (CHR 0x00)"

lemma sample_zip64_list:
  "sample_zip64 = [CHR ''P'', CHR ''K'', CHR 0x06, CHR 0x06] @ replicate 20 (CHR 0x00) @ CHR 0x02 # replicate 7 (CHR 0x00) @ CHR 0x02 # replicate 23 (CHR 0x00) @
     [CHR ''P'', CHR ''K'', CHR 0x06, CHR 0x07] @ replicate 16 (CHR 0x00) @
     [CHR ''P'', CHR ''K'', CHR 0x05, CHR 0x06] @ replicate 6 (CHR 0x00) @ replicate 2 (CHR 0xFF) @ replicate 10 (CHR 0x00)"
  by (simp add: sample_zip64_def EOCD64_def LOCATOR_def EOCD_def)

lemma sample_zip64_length: "length sample_zip64 = 98"
  by (simp add: sample_zip64_list)

lemma sample_zip64_parts:
  "positions sample_zip64 EOCD = [76]" "positions (take 56 sample_zip64) EOCD64 = [0]"
  "le_num (drop 76 sample_zip64) 10 12 = 65535" "take 4 (drop 56 sample_zip64) = LOCATOR"
  "le_num (drop 56 sample_zip64) 8 16 = 0"
  "le_num sample_zip64 24 32 = 2" "le_num sample_zip64 32 40 = 2"
proof -
  have t: "take 2 (drop 86 sample_zip64) = [CHR 0xFF, CHR 0xFF]"
    "take 8 (drop 64 sample_zip64) = replicate 8 (CHR 0x00)"
    "take 8 (drop 24 sample_zip64) = CHR 0x02 # replicate 7 (CHR 0x00)"
    "take 8 (drop 32 sample_zip64) = CHR 0x02 # replicate 7 (CHR 0x00)"
    by code_simp+
  have z: "((*) (256::nat) ^^ n) 0 = 0" for n by (induction n) simp_all
  show "le_num (drop 76 sample_zip64) 10 12 = 65535" "le_num (drop 56 sample_zip64) 8 16 = 0"
    "le_num sample_zip64 24 32 = 2" "le_num sample_zip64 32 40 = 2"
    by (simp_all add: le_num_def t z)
qed code_simp+

lemma sample_zip64_checked: "check_zip64_entry_counts (cursor sample_zip64) (length sample_zip64) = Ok ()"
proof -
  note parts = sample_zip64_parts sample_zip64_length
  have "check_candidate (cursor sample_zip64) 98 0 sample_zip64 76 = Ok ()"
    by (simp add: check_candidate_def read_locator_def saturating_add_def le_num_take parts check_record_def
        slice_get_def MAX_ARCHIVE_ENTRIES_def Let_def)
  then have "check_eocd (cursor sample_zip64) 98 0 sample_zip64 76 0 = Ok 1"
    by (simp add: check_eocd_def slice_get_def defers_to_zip64_def le_num_take parts MAX_ZIP64_CANDIDATES_def)
  then show ?thesis
    by (simp add: check_zip64_entry_counts_def parts MAX_CENTRAL_DIRECTORY_READ_def Let_def)
qed

theorem zip64_counts_bounded_witness:
  "zip64_end_record sample_zip64 76 \<and> zip64_reachable sample_zip64 76 0 \<and> le_num (drop 0 sample_zip64) 32 40 \<le> 65535"
proof -
  have "take 4 (drop 76 sample_zip64) = EOCD" "take 4 sample_zip64 = EOCD64" by code_simp+
  then have "zip64_end_record sample_zip64 76" "zip64_reachable sample_zip64 76 0"
    by (simp_all add: zip64_end_record_def zip64_reachable_def defers_to_zip64_def sample_zip64_parts sample_zip64_length
        MAX_CENTRAL_DIRECTORY_READ_def)
  moreover have "length sample_zip64 < 2 ^ 62" by (simp add: sample_zip64_length)
  ultimately show ?thesis using zip64_counts_bounded[OF sample_zip64_checked] by blast
qed


section \<open>The read budget\<close>

text \<open>A sequence of reads, each with the bytes it returned.\<close>

fun budget_reads ::
  "(nat \<Rightarrow> ('r, bytes, string) io) \<Rightarrow> nat list \<Rightarrow> nat option \<times> 'r \<Rightarrow> (bytes, string) result list \<times> (nat option \<times> 'r)" where
  "budget_reads inner [] st = ([], st)"
| "budget_reads inner (n # ns) st = (case budget_read inner n st of (x, st1) \<Rightarrow>
     (case budget_reads inner ns st1 of (xs, st2) \<Rightarrow> (x # xs, st2)))"

definition bytes_read :: "(bytes, string) result list \<Rightarrow> nat" where
  "bytes_read xs = sum_list (map (\<lambda>x. case x of Ok b \<Rightarrow> length b | Err _ \<Rightarrow> 0) xs)"

lemma budget_read_step:
  assumes "\<And>n r b r'. inner n r = (Ok b, r') \<Longrightarrow> length b \<le> n" and "budget_read inner n (Some left, r) = (x, st)"
  shows "bytes_read [x] \<le> left \<and> fst st = Some (left - bytes_read [x])"
proof (cases "left = 0 \<and> n \<noteq> 0")
  case True
  with assms(2) show ?thesis by (auto simp: budget_read_def bytes_read_def)
next
  case False
  obtain y r' where "inner (min n left) r = (y, r')" by force
  with False assms(2) assms(1)[of "min n left" r] show ?thesis
    by (cases y) (auto simp: budget_read_def bytes_read_def)
qed

text \<open>Through the budgeted reader no sequence of reads returns more bytes than the budget, whatever
  the inner reader does, as long as it never returns more than it is asked for; what is left is the
  budget less what was read.\<close>

theorem budget_reads_bounded:
  assumes "\<And>n r b r'. inner n r = (Ok b, r') \<Longrightarrow> length b \<le> n"
    and "budget_reads inner ns (Some left, r) = (xs, (left', r'))"
  shows "bytes_read xs \<le> left \<and> left' = Some (left - bytes_read xs)"
  using assms(2)
proof (induction ns arbitrary: left r xs)
  case (Cons n ns)
  obtain x st where x: "budget_read inner n (Some left, r) = (x, st)"
    by (cases "budget_read inner n (Some left, r)") blast
  note step = budget_read_step[OF assms(1) x]
  then obtain r1 where st: "st = (Some (left - bytes_read [x]), r1)" by (cases st) auto
  obtain ys where "budget_reads inner ns (Some (left - bytes_read [x]), r1) = (ys, (left', r'))" "xs = x # ys"
    using Cons.prems x st by (auto split: prod.splits)
  with Cons.IH step show ?case by (fastforce simp: bytes_read_def)
qed (simp add: bytes_read_def)

theorem budget_reads_bounded_witness:
  "bytes_read (fst (budget_reads (\<lambda>n r. (Ok (take n r), drop n r)) [2, 3, 4] (Some 4, ''abcdefgh''))) \<le> 4"
proof -
  define reads where "reads = budget_reads (\<lambda>n r. (Ok (take n r), drop n r)) [2, 3, 4] (Some 4, ''abcdefgh'')"
  have "reads = (fst reads, (fst (snd reads), snd (snd reads)))" by simp
  with budget_reads_bounded[of "\<lambda>n r. (Ok (take n r), drop n r)" "[2, 3, 4]" 4 "''abcdefgh''" "fst reads"
      "fst (snd reads)" "snd (snd reads)"]
  show ?thesis by (auto simp: reads_def)
qed


section \<open>Members\<close>

definition safe_member :: "string \<Rightarrow> bool" where
  "safe_member name \<longleftrightarrow> name \<noteq> [] \<and> hd name \<noteq> CHR ''/'' \<and> CHR 0x5C \<notin> set name \<and>
     ''..'' \<notin> set (split_on (CHR ''/'') name) \<and> name \<noteq> MANIFEST \<and> name \<noteq> LEGACY_MANIFEST"

lemma payload_member_safe:
  assumes "payload_member m = Ok name"
  shows "safe_member name"
proof (cases "tm_payload_url m = []")
  case True
  with assms have "name = DEFAULT_PAYLOAD" by (simp add: payload_member_def)
  moreover have "safe_member DEFAULT_PAYLOAD" by code_simp
  ultimately show ?thesis by simp
next
  case False
  with assms have url: "name \<noteq> []" "safe_url name" "\<not> manifest_shaped name"
    by (auto simp: payload_member_def Let_def split: if_splits)
  have "manifest_shaped LEGACY_MANIFEST" "manifest_shaped MANIFEST" by code_simp+
  with url(3) have "name \<noteq> LEGACY_MANIFEST" "name \<noteq> MANIFEST" by auto
  moreover have "hd name \<noteq> CHR ''/''" using url by (cases name) (auto simp: safe_url_def starts_with_def)
  moreover have "CHR 0x5C \<notin> set name" using url by (auto simp: safe_url_def str_contains_iff in_set_conv_decomp)
  ultimately show ?thesis using url by (simp add: safe_member_def safe_url_def list_ex_iff)
qed

text \<open>The member a manifest is read from and the payload member, as the checks establish them.\<close>

definition well_formed_archive :: "tdf_ext \<Rightarrow> zip_archive \<Rightarrow> nat \<Rightarrow> TdfManifest \<Rightarrow> bool" where
  "well_formed_archive e archive archive_len manifest \<longleftrightarrow> length archive \<le> 65535 \<and>
     (\<exists>mname mm json. (mname = MANIFEST \<or> mname = LEGACY_MANIFEST \<and> map_of archive MANIFEST = None) \<and>
        map_of archive mname = Some mm \<and> zm_read mm (4 * 1024 * 1024 + 1) = Ok json \<and> from_utf8 json \<and>
        length json \<le> 4 * 1024 * 1024 \<and> te_manifest_from_json e json = Ok manifest) \<and>
     (\<exists>pname pm bs. payload_member manifest = Ok pname \<and> safe_member pname \<and> map_of archive pname = Some pm \<and>
        zm_size pm \<le> archive_len \<and> zm_read pm (zm_size pm + 1) = Ok bs \<and> length bs = zm_size pm)"

lemma by_name_Ok: "by_name archive name msg = Ok m \<longleftrightarrow> map_of archive name = Some m \<and> zm_open m = Ok ()"
  by (auto simp: by_name_def result_simps)

lemma check_payload_Ok:
  "check_payload archive name n = Ok u \<longleftrightarrow>
   (\<exists>m bs. map_of archive name = Some m \<and> zm_open m = Ok () \<and> zm_size m \<le> n \<and>
      zm_read m (zm_size m + 1) = Ok bs \<and> length bs = zm_size m)"
  by (auto simp: check_payload_def by_name_Ok result_simps Let_def not_less split: if_splits)

lemma read_manifest_member_Ok:
  "read_manifest_member e archive name = Ok manifest \<Longrightarrow>
   \<exists>m json. map_of archive name = Some m \<and> zm_read m (4 * 1024 * 1024 + 1) = Ok json \<and> from_utf8 json \<and>
     length json \<le> 4 * 1024 * 1024 \<and> te_manifest_from_json e json = Ok manifest"
  by (auto simp: read_manifest_member_def by_name_Ok result_simps MAX_MANIFEST_BYTES_def not_less split: if_splits)

lemma find_manifest:
  "find (\<lambda>name. map_of archive name \<noteq> None) [MANIFEST, LEGACY_MANIFEST] = Some name \<Longrightarrow>
   name = MANIFEST \<or> name = LEGACY_MANIFEST \<and> map_of archive MANIFEST = None"
  by (auto split: if_splits)

lemma validate_tdf_structure_from_Ok:
  assumes "validate_tdf_structure_from e reader = Ok manifest"
  shows "\<exists>n archive. rd_len reader = Ok n \<and> check_zip64_entry_counts reader n = Ok () \<and>
    te_zip e reader (16 * 1024 * 1024) = Ok archive \<and> well_formed_archive e archive n manifest"
proof -
  from assms obtain n archive mname pname where *: "rd_len reader = Ok n" "check_zip64_entry_counts reader n = Ok ()"
    "te_zip e reader (16 * 1024 * 1024) = Ok archive" "length archive \<le> 65535"
    "find (\<lambda>name. map_of archive name \<noteq> None) [MANIFEST, LEGACY_MANIFEST] = Some mname"
    "read_manifest_member e archive mname = Ok manifest" "payload_member manifest = Ok pname"
    "check_payload archive pname n = Ok ()"
    by (auto simp: validate_tdf_structure_from_def result_simps MAX_CENTRAL_DIRECTORY_READ_def MAX_ARCHIVE_ENTRIES_def
        not_less simp del: find.simps split: if_splits)
  have "well_formed_archive e archive n manifest"
    unfolding well_formed_archive_def
    using *(4) find_manifest[OF *(5)] read_manifest_member_Ok[OF *(6)] *(7) payload_member_safe[OF *(7)] *(8)
    unfolding check_payload_Ok by blast
  with * show ?thesis by blast
qed

text \<open>C35: A blob that validates is within the size limit, passed the end-record check, opened within the
  16 MiB budget to at most 65,535 members, and holds a UTF-8 manifest of at most 4 MiB (the legacy
  name only if there is no \<open>manifest.json\<close>) and a payload under a name that stays inside the
  archive and is not a manifest's, readable to exactly its declared size, which is no larger than the
  archive: the manifest returned is that member's.\<close>

theorem validate_archive_sound:
  assumes "validate_archive e reader n config = Ok manifest"
  shows "n \<le> vcf_max_blob_bytes config \<and>
    (\<exists>len archive. rd_len reader = Ok len \<and> check_zip64_entry_counts reader len = Ok () \<and>
       te_zip e reader (16 * 1024 * 1024) = Ok archive \<and> well_formed_archive e archive len manifest)"
  using assms validate_tdf_structure_from_Ok[of e reader manifest]
  by (auto simp: validate_archive_def check_blob_size_def result_simps)

text \<open>The attribute check is a search for text: a manifest passes exactly when each required FQN
  parses and its namespace, its name and its value, if it has one, each occur somewhere in the policy's
  JSON text, together or apart, as data or as part of another word.\<close>

theorem validate_attributes_iff:
  "validate_attributes e manifest required = Ok () \<longleftrightarrow> required = [] \<or>
   (\<exists>policy. te_policy_raw e manifest = Ok policy \<and>
      (\<forall>fqn\<in>set required. \<exists>f. te_fqn_parse e fqn = Ok f \<and>
         (\<forall>t\<in>{fqn_namespace f, fqn_name f} \<union> set_option (fqn_value f). \<exists>a b. policy = a @ t @ b)))"
proof -
  have one: "attribute_in_policy e policy fqn = Ok True \<longleftrightarrow> (\<exists>f. te_fqn_parse e fqn = Ok f \<and>
      (\<forall>t\<in>{fqn_namespace f, fqn_name f} \<union> set_option (fqn_value f). str_contains t policy))" for policy fqn
    by (cases "te_fqn_parse e fqn") (auto simp: attribute_in_policy_def split: option.splits)
  have "require_attributes e policy fqns = Ok () \<longleftrightarrow> (\<forall>fqn\<in>set fqns. attribute_in_policy e policy fqn = Ok True)" for policy fqns
    by (induction fqns) (auto simp: result_simps split: if_splits)
  then show ?thesis by (auto simp: validate_attributes_def result_simps one str_contains_iff)
qed

text \<open>The assertion check verifies no signature: when it is enabled, a manifest passes exactly when a
  key file is configured, every policy binding is non-empty and every configured key file can be read,
  whatever the keys and the bindings contain.\<close>

theorem validate_assertion_iff:
  "validate_assertion e manifest True paths = Ok () \<longleftrightarrow>
   paths \<noteq> [] \<and> [] \<notin> set (tm_policy_binding_hashes manifest) \<and> (\<forall>p\<in>set paths. \<exists>k. te_read_file e p = Ok k)"
proof -
  have "fold_result check_binding (enumerate n hs) () = Ok () \<longleftrightarrow> [] \<notin> set hs" for n hs
    by (induction hs arbitrary: n) (auto simp: check_binding_def)
  moreover have "fold_result (load_trusted_key e) ps () = Ok () \<longleftrightarrow> (\<forall>p\<in>set ps. \<exists>k. te_read_file e p = Ok k)" for ps
    by (induction ps) (auto simp: load_trusted_key_def result_simps)
  ultimately show ?thesis by (simp add: validate_assertion_def result_simps)
qed


section \<open>A sample archive\<close>

definition sample_manifest :: TdfManifest where
  "sample_manifest = \<lparr>tm_payload_url = [], tm_policy_binding_hashes = [''h''], tm_source = ''{}''\<rparr>"

definition sample_member :: "bytes \<Rightarrow> zip_member" where
  "sample_member content = \<lparr>zm_open = Ok (), zm_size = length content, zm_read = (\<lambda>n. Ok (take n content))\<rparr>"

definition sample_tdf_ext :: tdf_ext where
  "sample_tdf_ext =
     \<lparr>te_zip = (\<lambda>_ _. Ok [(MANIFEST, sample_member ''{}''), (DEFAULT_PAYLOAD, sample_member ''abc'')]),
      te_manifest_from_json = (\<lambda>_. Ok sample_manifest), te_manifest_to_json = (\<lambda>m. Ok (tm_source m)),
      te_policy_raw = (\<lambda>_. Ok ''x-value-n.example-y''),
      te_fqn_parse = (\<lambda>s. if s = ''fqn'' then Ok \<lparr>fqn_namespace = ''n.example'', fqn_name = ''x'', fqn_value = Some ''value''\<rparr>
        else Err ''bad''),
      te_read_file = (\<lambda>p. if p = ''key.pem'' then Ok [] else Err ''missing'')\<rparr>"

definition sample_validation :: ValidationConfig where
  "sample_validation = \<lparr>vcf_max_blob_bytes = 10, vcf_required_attributes = [''fqn''], vcf_assertion_enabled = True,
     vcf_trusted_public_keys = [''key.pem'']\<rparr>"

theorem validate_attributes_iff_witness:
  "validate_attributes sample_tdf_ext sample_manifest [''fqn''] = Ok ()"
proof -
  have "\<exists>a b. ''x-value-n.example-y'' = a @ ''n.example'' @ b" by (rule exI[of _ "''x-value-''"]) simp
  moreover have "\<exists>a b. ''x-value-n.example-y'' = a @ ''x'' @ b" by (rule exI[of _ "[]"]) simp
  moreover have "\<exists>a b. ''x-value-n.example-y'' = a @ ''value'' @ b" by (rule exI[of _ "''x-''"]) simp
  ultimately show ?thesis
    unfolding validate_attributes_iff by (simp add: sample_tdf_ext_def)
qed

theorem validate_assertion_iff_witness:
  "validate_assertion sample_tdf_ext sample_manifest True [''key.pem''] = Ok ()"
  unfolding validate_assertion_iff by (simp add: sample_tdf_ext_def sample_manifest_def)

lemma sample_check_zip64:
  assumes "positions d EOCD = []" "length d \<le> 1000"
  shows "check_zip64_entry_counts (cursor d) (length d) = Ok ()"
  using assms by (simp add: check_zip64_entry_counts_def MAX_CENTRAL_DIRECTORY_READ_def)

lemma sample_structure:
  assumes "positions d EOCD = []" "length d \<le> 1000" "3 \<le> length d"
  shows "validate_tdf_structure_from sample_tdf_ext (cursor d) = Ok sample_manifest"
proof -
  have m: "MANIFEST \<noteq> DEFAULT_PAYLOAD" by code_simp
  have "from_utf8 ''{}''" by code_simp
  then have "read_manifest_member sample_tdf_ext [(MANIFEST, sample_member ''{}''), (DEFAULT_PAYLOAD, sample_member ''abc'')] MANIFEST
      = Ok sample_manifest"
    by (simp add: read_manifest_member_def by_name_def sample_member_def MAX_MANIFEST_BYTES_def sample_tdf_ext_def)
  moreover have "check_payload [(MANIFEST, sample_member ''{}''), (DEFAULT_PAYLOAD, sample_member ''abc'')] DEFAULT_PAYLOAD (length d) = Ok ()"
    using m assms(3) by (simp add: check_payload_def by_name_def sample_member_def)
  moreover have "rd_len (cursor d) = Ok (length d)" by (simp add: cursor_def)
  moreover have "payload_member sample_manifest = Ok DEFAULT_PAYLOAD" by (simp add: payload_member_def sample_manifest_def)
  ultimately show ?thesis
    using m sample_check_zip64[OF assms(1,2)]
    by (simp add: validate_tdf_structure_from_def MAX_ARCHIVE_ENTRIES_def) (simp add: sample_tdf_ext_def)
qed

lemma sample_validate_attributes: "validate_attributes sample_tdf_ext sample_manifest [''fqn''] = Ok ()"
  by code_simp

lemma sample_validate_assertion: "validate_assertion sample_tdf_ext sample_manifest True [''key.pem''] = Ok ()"
  by code_simp

lemma sample_validate_archive: "validate_archive sample_tdf_ext (cursor ''xyz'') 3 sample_validation = Ok sample_manifest"
proof -
  have "positions ''xyz'' EOCD = []" by code_simp
  then have "validate_tdf_structure_from sample_tdf_ext (cursor ''xyz'') = Ok sample_manifest" by (rule sample_structure) simp_all
  with sample_validate_attributes sample_validate_assertion show ?thesis
    by (simp add: validate_archive_def check_blob_size_def sample_validation_def)
qed

theorem validate_archive_sound_witness:
  "\<exists>archive. te_zip sample_tdf_ext (cursor ''xyz'') (16 * 1024 * 1024) = Ok archive \<and>
     well_formed_archive sample_tdf_ext archive 3 sample_manifest"
proof -
  have "rd_len (cursor ''xyz'') = Ok 3" by (simp add: cursor_def)
  with validate_archive_sound[OF sample_validate_archive] show ?thesis by auto
qed

end
