(* ===== verification/S3_Store.thy ===== *)
theory S3_Store
  imports Tables
begin

text \<open>
  \<open>src/store/s3.rs\<close>: object keys and the requests \<open>S3Client\<close> makes. The AWS SDK is the record
  \<open>s3_sdk\<close> of request functions over a state \<open>'s\<close> (the bucket and the network): an answer, or an
  error with the parts the code inspects. Building the SDK client (\<open>new\<close>, \<open>from_config\<close>) is
  configuration of that record.
\<close>

section \<open>The SDK\<close>

record s3_error =
  err_no_such_key :: bool
  err_not_found :: bool
  err_status :: "nat option"
  err_text :: string

datatype s3_body = InMemory bytes | FromFile string nat

record put_object =
  po_key :: string
  po_content_type :: "string option"
  po_content_length :: "int option"
  po_metadata :: "(string \<times> string) list"
  po_if_match :: "string option"
  po_if_none_match :: "string option"
  po_checksum_when_required :: bool
  po_body :: s3_body

record get_output =
  go_body :: "(bytes, string) result"
  go_e_tag :: "string option"
  go_metadata :: "(string, string) table option"

record head_output =
  ho_content_length :: "int option"
  ho_metadata :: "(string, string) table option"

record list_output =
  lo_keys :: "string option list"
  lo_next :: "string option"

record 's s3_sdk =
  sdk_put :: "string \<Rightarrow> put_object \<Rightarrow> ('s, unit, s3_error) io"
  sdk_get :: "string \<Rightarrow> string \<Rightarrow> string option \<Rightarrow> ('s, get_output, s3_error) io"
  sdk_head :: "string \<Rightarrow> string \<Rightarrow> ('s, head_output, s3_error) io"
  sdk_delete :: "string \<Rightarrow> string \<Rightarrow> ('s, unit, s3_error) io"
  sdk_list :: "string \<Rightarrow> string \<Rightarrow> string option \<Rightarrow> ('s, list_output, s3_error) io"
  sdk_file :: "string \<Rightarrow> nat \<Rightarrow> (s3_body, string) result"


section \<open>Keys\<close>

definition CATALOG_OWNER_METADATA :: string where
  "CATALOG_OWNER_METADATA = ''owner''"

record S3Client =
  sc_bucket :: string
  sc_prefix :: string

definition blob_key :: "S3Client \<Rightarrow> string \<Rightarrow> string" where
  "blob_key c h = sc_prefix c @ ''blobs/'' @ h"

definition outboard_key :: "S3Client \<Rightarrow> string \<Rightarrow> string" where
  "outboard_key c h = sc_prefix c @ ''outboards/'' @ h"

definition manifest_key :: "S3Client \<Rightarrow> string \<Rightarrow> string" where
  "manifest_key c h = sc_prefix c @ ''manifests/'' @ h"

definition catalog_document_key :: "S3Client \<Rightarrow> string \<Rightarrow> string" where
  "catalog_document_key c h = sc_prefix c @ ''catalog-documents/'' @ h"

definition catalog_outboard_key :: "S3Client \<Rightarrow> string \<Rightarrow> string" where
  "catalog_outboard_key c h = sc_prefix c @ ''catalog-outboards/'' @ h"

definition catalog_index_key :: "S3Client \<Rightarrow> string \<Rightarrow> string" where
  "catalog_index_key c h = sc_prefix c @ ''catalog-indexes/'' @ h"

definition catalog_pointer_key :: "S3Client \<Rightarrow> string \<Rightarrow> string" where
  "catalog_pointer_key c sub = sc_prefix c @ ''catalog-pointers/'' @ sub"

definition moderation_prefix :: "S3Client \<Rightarrow> string \<Rightarrow> string" where
  "moderation_prefix c kind = sc_prefix c @ ''moderation/'' @ kind @ ''/''"


section \<open>Requests\<close>

text \<open>A PUT with nothing but a key and a body in memory, which the others extend.\<close>

definition put_request :: "string \<Rightarrow> bytes \<Rightarrow> put_object" where
  "put_request key body = \<lparr>po_key = key, po_content_type = None, po_content_length = None, po_metadata = [],
     po_if_match = None, po_if_none_match = None, po_checksum_when_required = False, po_body = InMemory body\<rparr>"

text \<open>\<open>.context(..)\<close> on an SDK call; the answer of a GET whose object may be missing; the size a
  HEAD reports.\<close>

definition with_context :: "string \<Rightarrow> ('s, 'a, 'e) io \<Rightarrow> ('s, 'a, string) io" where
  "with_context what m = io_map_err (\<lambda>_. what) m"

definition unless_missing ::
  "(s3_error \<Rightarrow> bool) \<Rightarrow> string \<Rightarrow> ('s, 'a, s3_error) io \<Rightarrow> ('a \<Rightarrow> ('b, string) result) \<Rightarrow> ('s, 'b option, string) io" where
  "unless_missing missing what m f s = (case m s of
       (Ok resp, t) \<Rightarrow> (and_then (f resp) (\<lambda>b. Ok (Some b)), t)
     | (Err e, t) \<Rightarrow> (if missing e then Ok None else Err (what @ err_text e), t))"

definition head_size :: "string \<Rightarrow> head_output \<Rightarrow> (nat, string) result" where
  "head_size what h = ok_or (''S3 HEAD of '' @ what @ '' returned no content length'')
     (Option.bind (ho_content_length h) (\<lambda>n. if 0 \<le> n then Some (nat n) else None))"

definition owner_metadata :: "(string, string) table option \<Rightarrow> string option" where
  "owner_metadata m = Option.bind m (\<lambda>t. tget t CATALOG_OWNER_METADATA)"

definition put_blob :: "'s s3_sdk \<Rightarrow> S3Client \<Rightarrow> string \<Rightarrow> bytes \<Rightarrow> ('s, unit, string) io" where
  "put_blob sdk c h data =
     with_context ''Failed to PUT blob to S3'' (sdk_put sdk (sc_bucket c) (put_request (blob_key c h) data))"

definition put_blob_file :: "'s s3_sdk \<Rightarrow> S3Client \<Rightarrow> string \<Rightarrow> string \<Rightarrow> nat \<Rightarrow> ('s, unit, string) io" where
  "put_blob_file sdk c h path len =
     io_bind (io_lift (map_err (\<lambda>_. ''Failed to open '' @ path @ '' for upload'') (sdk_file sdk path len))) (\<lambda>body.
     io_bind (io_lift (ok_or ''blob too large for S3'' (if in_i64 (int len) then Some (int len) else None))) (\<lambda>content_length.
       with_context ''Failed to PUT blob to S3'' (sdk_put sdk (sc_bucket c)
         ((put_request (blob_key c h) [])\<lparr>po_content_length := Some content_length, po_body := body,
            po_checksum_when_required := True\<rparr>))))"

definition put_outboard :: "'s s3_sdk \<Rightarrow> S3Client \<Rightarrow> string \<Rightarrow> bytes \<Rightarrow> ('s, unit, string) io" where
  "put_outboard sdk c h data =
     with_context ''Failed to PUT outboard to S3'' (sdk_put sdk (sc_bucket c) (put_request (outboard_key c h) data))"

definition put_manifest :: "'s s3_sdk \<Rightarrow> S3Client \<Rightarrow> string \<Rightarrow> bytes \<Rightarrow> ('s, unit, string) io" where
  "put_manifest sdk c h manifest_json =
     with_context ''Failed to PUT manifest to S3'' (sdk_put sdk (sc_bucket c)
       ((put_request (manifest_key c h) manifest_json)\<lparr>po_content_type := Some ''application/json''\<rparr>))"

definition get_manifest :: "'s s3_sdk \<Rightarrow> S3Client \<Rightarrow> string \<Rightarrow> ('s, bytes option, string) io" where
  "get_manifest sdk c h = unless_missing err_no_such_key ''Failed to GET manifest from S3: ''
     (sdk_get sdk (sc_bucket c) (manifest_key c h) None) go_body"

definition get_blob :: "'s s3_sdk \<Rightarrow> S3Client \<Rightarrow> string \<Rightarrow> ('s, bytes, string) io" where
  "get_blob sdk c h =
     io_bind (with_context ''Failed to GET blob from S3'' (sdk_get sdk (sc_bucket c) (blob_key c h) None)) (\<lambda>resp.
       io_lift (map_err (\<lambda>_. ''Failed to read blob body from S3'') (go_body resp)))"

definition get_object_from ::
  "'s s3_sdk \<Rightarrow> S3Client \<Rightarrow> string \<Rightarrow> nat \<Rightarrow> ('s, (bytes, string) result option, string) io" where
  "get_object_from sdk c key start =
     unless_missing err_no_such_key (''Failed to GET '' @ key @ '' from S3: '')
       (sdk_get sdk (sc_bucket c) key
          (if start > 0 then Some (''bytes='' @ show_nat start @ ''-'') else None))
       (\<lambda>resp. Ok (go_body resp))"

definition get_outboard :: "'s s3_sdk \<Rightarrow> S3Client \<Rightarrow> string \<Rightarrow> ('s, bytes, string) io" where
  "get_outboard sdk c h =
     io_bind (with_context ''Failed to GET outboard from S3'' (sdk_get sdk (sc_bucket c) (outboard_key c h) None)) (\<lambda>resp.
       io_lift (map_err (\<lambda>_. ''Failed to read outboard body from S3'') (go_body resp)))"

definition blob_size :: "'s s3_sdk \<Rightarrow> S3Client \<Rightarrow> string \<Rightarrow> ('s, nat option, string) io" where
  "blob_size sdk c h = unless_missing err_not_found ''Failed to HEAD blob in S3: ''
     (sdk_head sdk (sc_bucket c) (blob_key c h)) (head_size ''a blob'')"

definition outboard_size :: "'s s3_sdk \<Rightarrow> S3Client \<Rightarrow> string \<Rightarrow> ('s, nat option, string) io" where
  "outboard_size sdk c h = unless_missing err_not_found ''Failed to HEAD outboard in S3: ''
     (sdk_head sdk (sc_bucket c) (outboard_key c h)) (head_size ''an outboard'')"

definition put_catalog_document ::
  "'s s3_sdk \<Rightarrow> S3Client \<Rightarrow> string \<Rightarrow> bytes \<Rightarrow> string \<Rightarrow> ('s, unit, string) io" where
  "put_catalog_document sdk c h body owner =
     with_context ''Failed to PUT catalog document to S3'' (sdk_put sdk (sc_bucket c)
       ((put_request (catalog_document_key c h) body)\<lparr>po_content_type := Some ''application/zip'',
          po_metadata := [(CATALOG_OWNER_METADATA, owner)]\<rparr>))"

definition get_catalog_document ::
  "'s s3_sdk \<Rightarrow> S3Client \<Rightarrow> string \<Rightarrow> ('s, (bytes \<times> string option) option, string) io" where
  "get_catalog_document sdk c h = unless_missing err_no_such_key ''Failed to GET catalog document from S3: ''
     (sdk_get sdk (sc_bucket c) (catalog_document_key c h) None)
     (\<lambda>resp. and_then (go_body resp) (\<lambda>data. Ok (data, owner_metadata (go_metadata resp))))"

definition head_catalog_document ::
  "'s s3_sdk \<Rightarrow> S3Client \<Rightarrow> string \<Rightarrow> ('s, string option option, string) io" where
  "head_catalog_document sdk c h = unless_missing err_not_found ''Failed to HEAD catalog document in S3: ''
     (sdk_head sdk (sc_bucket c) (catalog_document_key c h)) (\<lambda>head. Ok (owner_metadata (ho_metadata head)))"

definition catalog_document_size ::
  "'s s3_sdk \<Rightarrow> S3Client \<Rightarrow> string \<Rightarrow> ('s, (nat \<times> string option) option, string) io" where
  "catalog_document_size sdk c h = unless_missing err_not_found ''Failed to HEAD catalog document in S3: ''
     (sdk_head sdk (sc_bucket c) (catalog_document_key c h))
     (\<lambda>head. and_then (head_size ''a catalog document'' head) (\<lambda>size.
        Ok (size, owner_metadata (ho_metadata head))))"

definition put_catalog_outboard :: "'s s3_sdk \<Rightarrow> S3Client \<Rightarrow> string \<Rightarrow> bytes \<Rightarrow> ('s, unit, string) io" where
  "put_catalog_outboard sdk c h data =
     with_context ''Failed to PUT catalog outboard to S3''
       (sdk_put sdk (sc_bucket c) (put_request (catalog_outboard_key c h) data))"

definition object_size :: "'s s3_sdk \<Rightarrow> S3Client \<Rightarrow> string \<Rightarrow> string \<Rightarrow> ('s, nat option, string) io" where
  "object_size sdk c key what = unless_missing err_not_found (''Failed to HEAD '' @ what @ '' in S3: '')
     (sdk_head sdk (sc_bucket c) key) (head_size (''a '' @ what))"

definition catalog_outboard_size :: "'s s3_sdk \<Rightarrow> S3Client \<Rightarrow> string \<Rightarrow> ('s, nat option, string) io" where
  "catalog_outboard_size sdk c h = object_size sdk c (catalog_outboard_key c h) ''catalog outboard''"

definition get_catalog_pointer ::
  "'s s3_sdk \<Rightarrow> S3Client \<Rightarrow> string \<Rightarrow> ('s, (bytes \<times> string) option, string) io" where
  "get_catalog_pointer sdk c sub = unless_missing err_no_such_key ''Failed to GET catalog pointer from S3: ''
     (sdk_get sdk (sc_bucket c) (catalog_pointer_key c sub) None)
     (\<lambda>resp. and_then (ok_or ''S3 GET of a catalog pointer returned no ETag'' (go_e_tag resp)) (\<lambda>etag.
        and_then (go_body resp) (\<lambda>data. Ok (data, etag))))"

definition put_catalog_index :: "'s s3_sdk \<Rightarrow> S3Client \<Rightarrow> string \<Rightarrow> bytes \<Rightarrow> ('s, unit, string) io" where
  "put_catalog_index sdk c h body =
     with_context ''Failed to PUT catalog index to S3'' (sdk_put sdk (sc_bucket c)
       ((put_request (catalog_index_key c h) body)\<lparr>po_content_type := Some ''application/json''\<rparr>))"

definition get_catalog_index :: "'s s3_sdk \<Rightarrow> S3Client \<Rightarrow> string \<Rightarrow> ('s, bytes option, string) io" where
  "get_catalog_index sdk c h = unless_missing err_no_such_key ''Failed to GET catalog index from S3: ''
     (sdk_get sdk (sc_bucket c) (catalog_index_key c h) None) go_body"

definition pointer_put :: "S3Client \<Rightarrow> string \<Rightarrow> bytes \<Rightarrow> string option \<Rightarrow> put_object" where
  "pointer_put c sub body expected =
     (let put = (put_request (catalog_pointer_key c sub) body)\<lparr>po_content_type := Some ''application/json''\<rparr> in
      case expected of
        Some etag \<Rightarrow> put\<lparr>po_if_match := Some etag\<rparr>
      | None \<Rightarrow> put\<lparr>po_if_none_match := Some ''*''\<rparr>)"

definition put_catalog_pointer ::
  "'s s3_sdk \<Rightarrow> S3Client \<Rightarrow> string \<Rightarrow> bytes \<Rightarrow> string option \<Rightarrow> ('s, bool, string) io" where
  "put_catalog_pointer sdk c sub body expected s =
     (case sdk_put sdk (sc_bucket c) (pointer_put c sub body expected) s of
        (Ok _, t) \<Rightarrow> (Ok True, t)
      | (Err e, t) \<Rightarrow>
          (if err_status e = Some 409 \<or> err_status e = Some 412 then Ok False
           else Err (''Failed to PUT catalog pointer to S3: '' @ err_text e), t))"

definition delete_blob :: "'s s3_sdk \<Rightarrow> S3Client \<Rightarrow> string \<Rightarrow> ('s, unit, string) io" where
  "delete_blob sdk c h =
     io_bind (with_context ''Failed to DELETE blob from S3'' (sdk_delete sdk (sc_bucket c) (blob_key c h))) (\<lambda>_.
       with_context ''Failed to DELETE outboard from S3'' (sdk_delete sdk (sc_bucket c) (outboard_key c h)))"

definition put_moderation_record ::
  "'s s3_sdk \<Rightarrow> S3Client \<Rightarrow> string \<Rightarrow> string \<Rightarrow> bytes \<Rightarrow> ('s, unit, string) io" where
  "put_moderation_record sdk c kind key body =
     with_context ''Failed to PUT moderation record to S3'' (sdk_put sdk (sc_bucket c)
       ((put_request (moderation_prefix c kind @ key) body)\<lparr>po_content_type := Some ''application/json''\<rparr>))"

definition get_moderation_record ::
  "'s s3_sdk \<Rightarrow> S3Client \<Rightarrow> string \<Rightarrow> string \<Rightarrow> ('s, bytes option, string) io" where
  "get_moderation_record sdk c kind key = unless_missing err_no_such_key ''Failed to GET moderation record from S3: ''
     (sdk_get sdk (sc_bucket c) (moderation_prefix c kind @ key) None) go_body"

text \<open>One page of the listing: each object with a key is read, in order.\<close>

fun page_bodies :: "'s s3_sdk \<Rightarrow> S3Client \<Rightarrow> string option list \<Rightarrow> bytes list \<Rightarrow> ('s, bytes list, string) io" where
  "page_bodies sdk c [] out = io_return out"
| "page_bodies sdk c (None # keys) out = page_bodies sdk c keys out"
| "page_bodies sdk c (Some key # keys) out =
     io_bind (with_context ''Failed to GET moderation record from S3'' (sdk_get sdk (sc_bucket c) key None)) (\<lambda>got.
     io_bind (io_lift (go_body got)) (\<lambda>body.
       page_bodies sdk c keys (out @ [body])))"

text \<open>The loop over pages, which ends when a page has no continuation token; not returning is
  \<open>None\<close>.\<close>

partial_function (option) list_pages ::
  "'s s3_sdk \<Rightarrow> S3Client \<Rightarrow> string \<Rightarrow> string option \<Rightarrow> bytes list \<Rightarrow> 's \<Rightarrow> ((bytes list, string) result \<times> 's) option" where
  "list_pages sdk c prefix continuation out s =
     (case with_context ''Failed to LIST moderation records in S3''
             (sdk_list sdk (sc_bucket c) prefix continuation) s of
        (Err e, t) \<Rightarrow> Some (Err e, t)
      | (Ok resp, t) \<Rightarrow>
          (case page_bodies sdk c (lo_keys resp) out t of
             (Err e, u) \<Rightarrow> Some (Err e, u)
           | (Ok out', u) \<Rightarrow>
               (case lo_next resp of
                  Some token \<Rightarrow> list_pages sdk c prefix (Some token) out' u
                | None \<Rightarrow> Some (Ok out', u))))"

definition list_moderation_records ::
  "'s s3_sdk \<Rightarrow> S3Client \<Rightarrow> string \<Rightarrow> 's \<Rightarrow> ((bytes list, string) result \<times> 's) option" where
  "list_moderation_records sdk c kind s = list_pages sdk c (moderation_prefix c kind) None [] s"


section \<open>The bucket\<close>

text \<open>What S3 documents of one bucket: an object is its body, its user metadata and an entity tag that
  changes with the contents. \<open>body_matches\<close> says which body a PUT stores, \<open>conditions_met\<close> when
  it may, and \<open>plain_value\<close> which metadata values come back as they were sent.\<close>

record s3_object =
  ob_body :: bytes
  ob_metadata :: "(string \<times> string) list"
  ob_e_tag :: string

fun body_matches :: "s3_body \<Rightarrow> bytes \<Rightarrow> bool" where
  "body_matches (InMemory d) b = (b = d)"
| "body_matches (FromFile path n) b = (length b = n)"

definition conditions_met :: "put_object \<Rightarrow> s3_object option \<Rightarrow> bool" where
  "conditions_met req current \<longleftrightarrow>
     (\<forall>e. po_if_match req = Some e \<longrightarrow> map_option ob_e_tag current = Some e) \<and>
     (po_if_none_match req = Some ''*'' \<longrightarrow> current = None)"

definition plain_value :: "string \<Rightarrow> bool" where
  "plain_value v \<longleftrightarrow> list_all (\<lambda>ch. 32 < byte_of ch \<and> byte_of ch < 127) v"

definition metadata_of :: "(string, string) table option \<Rightarrow> (string \<times> string) list" where
  "metadata_of m = (case m of Some t \<Rightarrow> t | None \<Rightarrow> [])"

lemma head_size_Ok: "head_size what h = Ok n \<Longrightarrow> ho_content_length h = Some (int n)"
  by (auto simp: head_size_def result_simps split: bind_splits if_splits)

text \<open>The contract, over the objects by key. A failed PUT stored its object or nothing (its answer may
  be lost); \<open>evolves\<close> relates a state to every later one, whoever wrote in between.\<close>

locale s3_bucket =
  fixes sdk :: "'s s3_sdk" and c :: S3Client and objects :: "'s \<Rightarrow> string \<Rightarrow> s3_object option"
    and ok :: "'s \<Rightarrow> bool" and evolves :: "'s \<Rightarrow> 's \<Rightarrow> bool"
  assumes get_found: "sdk_get sdk (sc_bucket c) key None s = (Ok g, t) \<Longrightarrow>
      \<exists>ob. objects s key = Some ob \<and> (\<forall>d. go_body g = Ok d \<longrightarrow> d = ob_body ob) \<and>
        (\<forall>e. go_e_tag g = Some e \<longrightarrow> e = ob_e_tag ob) \<and> metadata_of (go_metadata g) = ob_metadata ob"
    and get_missing: "sdk_get sdk (sc_bucket c) key None s = (Err e, t) \<Longrightarrow> err_no_such_key e \<Longrightarrow> objects s key = None"
    and head_found: "sdk_head sdk (sc_bucket c) key s = (Ok hd', t) \<Longrightarrow>
      \<exists>ob. objects s key = Some ob \<and> (\<forall>n. ho_content_length hd' = Some n \<longrightarrow> n = int (length (ob_body ob))) \<and>
        metadata_of (ho_metadata hd') = ob_metadata ob"
    and head_missing: "sdk_head sdk (sc_bucket c) key s = (Err e, t) \<Longrightarrow> err_not_found e \<Longrightarrow> objects s key = None"
    and read_objects: "objects (snd (sdk_get sdk (sc_bucket c) key rng s)) = objects s"
      "objects (snd (sdk_head sdk (sc_bucket c) key s)) = objects s"
    and put_stores: "sdk_put sdk (sc_bucket c) req s = (r, t) \<Longrightarrow>
      r \<noteq> Ok () \<and> objects t = objects s \<or>
      conditions_met req (objects s (po_key req)) \<and>
      (\<exists>ob. objects t = (objects s)(po_key req \<mapsto> ob) \<and> body_matches (po_body req) (ob_body ob) \<and>
         (list_all (\<lambda>(k, v). plain_value v) (po_metadata req) \<longrightarrow> ob_metadata ob = po_metadata req))"
    and file_length: "sdk_file sdk path n = Ok bd \<Longrightarrow> body_matches bd b \<Longrightarrow> length b = n"
    and evolves_refl: "evolves s s"
    and evolves_trans: "evolves s t \<Longrightarrow> evolves t u \<Longrightarrow> evolves s u"
    and evolves_requests:
      "evolves s (snd (sdk_get sdk (sc_bucket c) key rng s))" "evolves s (snd (sdk_head sdk (sc_bucket c) key s))"
      "evolves s (snd (sdk_put sdk (sc_bucket c) req s))"
    and evolves_ok: "ok s \<Longrightarrow> evolves s t \<Longrightarrow> ok t"
    and e_tag_identifies: "ok s \<Longrightarrow> evolves s t \<Longrightarrow> objects s key = Some p \<Longrightarrow> objects t key = Some q \<Longrightarrow>
      ob_e_tag p = ob_e_tag q \<Longrightarrow> ob_body p = ob_body q"
begin

text \<open>What the requests of \<open>S3Client\<close> answer in such a bucket.\<close>

lemma get_unless_missing:
  assumes "unless_missing err_no_such_key what (sdk_get sdk (sc_bucket c) key None) f s = (Ok r, t)"
  shows "objects t = objects s \<and> evolves s t \<and>
    (case r of None \<Rightarrow> objects s key = None
     | Some x \<Rightarrow> \<exists>ob g. objects s key = Some ob \<and> f g = Ok x \<and> (\<forall>d. go_body g = Ok d \<longrightarrow> d = ob_body ob) \<and>
         (\<forall>e. go_e_tag g = Some e \<longrightarrow> e = ob_e_tag ob) \<and> metadata_of (go_metadata g) = ob_metadata ob)"
proof -
  obtain a b where ab: "sdk_get sdk (sc_bucket c) key None s = (a, b)" by fastforce
  have "objects b = objects s" "evolves s b" using read_objects(1)[of key None s] evolves_requests(1)[of s key None] ab by simp_all
  moreover have "t = b" using assms ab by (auto simp: unless_missing_def split: result.splits)
  moreover have "case r of None \<Rightarrow> objects s key = None | Some x \<Rightarrow> \<exists>g. a = Ok g \<and> f g = Ok x"
    using assms ab get_missing[of key s _ b] by (cases a) (auto simp: unless_missing_def result_simps split: if_splits)
  ultimately show ?thesis
  proof (cases r)
    case (Some x)
    with \<open>case r of None \<Rightarrow> _ | Some x \<Rightarrow> _\<close> obtain g where g: "a = Ok g" "f g = Ok x" by auto
    with ab get_found[of key s g b] Some \<open>objects b = objects s\<close> \<open>evolves s b\<close> \<open>t = b\<close> show ?thesis by auto
  qed simp
qed

lemma head_unless_missing:
  assumes "unless_missing err_not_found what (sdk_head sdk (sc_bucket c) key) f s = (Ok r, t)"
  shows "objects t = objects s \<and> evolves s t \<and>
    (case r of None \<Rightarrow> objects s key = None
     | Some x \<Rightarrow> \<exists>ob g. objects s key = Some ob \<and> f g = Ok x \<and>
         (\<forall>n. ho_content_length g = Some n \<longrightarrow> n = int (length (ob_body ob))) \<and> metadata_of (ho_metadata g) = ob_metadata ob)"
proof -
  obtain a b where ab: "sdk_head sdk (sc_bucket c) key s = (a, b)" by fastforce
  have "objects b = objects s" "evolves s b" using read_objects(2)[of key s] evolves_requests(2)[of s key] ab by simp_all
  moreover have "t = b" using assms ab by (auto simp: unless_missing_def split: result.splits)
  moreover have "case r of None \<Rightarrow> objects s key = None | Some x \<Rightarrow> \<exists>g. a = Ok g \<and> f g = Ok x"
    using assms ab head_missing[of key s _ b] by (cases a) (auto simp: unless_missing_def result_simps split: if_splits)
  ultimately show ?thesis
  proof (cases r)
    case (Some x)
    with \<open>case r of None \<Rightarrow> _ | Some x \<Rightarrow> _\<close> obtain g where g: "a = Ok g" "f g = Ok x" by auto
    with ab head_found[of key s g b] Some \<open>objects b = objects s\<close> \<open>evolves s b\<close> \<open>t = b\<close> show ?thesis by auto
  qed simp
qed

lemma snd_unless_missing: "snd (unless_missing missing what m f s) = snd (m s)"
  by (auto simp: unless_missing_def split: prod.splits result.splits)

lemma snd_with_context: "snd (with_context what m s) = snd (m s)"
  by (auto simp: with_context_def io_defs split: prod.splits)

lemma put_with_context:
  assumes "with_context what (sdk_put sdk (sc_bucket c) req) s = (r, t)"
  shows "r \<noteq> Ok () \<and> objects t = objects s \<or>
      conditions_met req (objects s (po_key req)) \<and>
      (\<exists>ob. objects t = (objects s)(po_key req \<mapsto> ob) \<and> body_matches (po_body req) (ob_body ob) \<and>
         (list_all (\<lambda>(k, v). plain_value v) (po_metadata req) \<longrightarrow> ob_metadata ob = po_metadata req))"
proof -
  obtain a b where ab: "sdk_put sdk (sc_bucket c) req s = (a, b)" by fastforce
  with assms have "t = b" "r = map_err (\<lambda>_. what) a" by (auto simp: with_context_def io_defs)
  then show ?thesis using put_stores[OF ab] by (cases a) auto
qed

end

text \<open>A bucket that keeps the contract: its entity tags are the contents themselves.\<close>

type_synonym mem_bucket = "(string, s3_object) table"

definition no_object :: s3_error where
  "no_object = \<lparr>err_no_such_key = True, err_not_found = True, err_status = Some 404, err_text = ''not found''\<rparr>"

definition precondition_failed :: s3_error where
  "precondition_failed = \<lparr>err_no_such_key = False, err_not_found = False, err_status = Some 412, err_text = ''precondition''\<rparr>"

fun stored_body :: "s3_body \<Rightarrow> bytes" where
  "stored_body (InMemory d) = d"
| "stored_body (FromFile path n) = replicate n (CHR 0x00)"

definition mem_put :: "put_object \<Rightarrow> (mem_bucket, unit, s3_error) io" where
  "mem_put req b =
     (let current = tget b (po_key req) in
      if (case po_if_match req of Some e \<Rightarrow> map_option ob_e_tag current = Some e | None \<Rightarrow> True) \<and>
         (po_if_none_match req = Some ''*'' \<longrightarrow> current = None)
      then (Ok (), tinsert (po_key req) \<lparr>ob_body = stored_body (po_body req), ob_metadata = po_metadata req,
              ob_e_tag = stored_body (po_body req)\<rparr> b)
      else (Err precondition_failed, b))"

definition range_start :: "string option \<Rightarrow> nat \<Rightarrow> nat" where
  "range_start rng n = (case rng of
       None \<Rightarrow> 0
     | Some r \<Rightarrow> (case find (\<lambda>i. r = ''bytes='' @ show_nat i @ ''-'') [0..<n] of Some i \<Rightarrow> i | None \<Rightarrow> n))"

lemma range_start_None [simp]: "range_start None n = 0"
  by (simp add: range_start_def)

lemma find_first: "i < n \<Longrightarrow> (\<And>j. P j \<longleftrightarrow> j = i) \<Longrightarrow> find P [0..<n] = Some i"
  unfolding find_Some_iff by (rule exI[of _ i]) simp

lemma range_start_from: "range_start (Some (''bytes='' @ show_nat i @ ''-'')) n = min i n"
proof (cases "i < n")
  case True
  then have "find (\<lambda>j. ''bytes='' @ show_nat i @ ''-'' = ''bytes='' @ show_nat j @ ''-'') [0..<n] = Some i"
    by (rule find_first) auto
  with True show ?thesis by (simp add: range_start_def)
next
  case False
  then have "find (\<lambda>j. ''bytes='' @ show_nat i @ ''-'' = ''bytes='' @ show_nat j @ ''-'') [0..<n] = None"
    by (auto simp: find_None_iff)
  with False show ?thesis by (simp add: range_start_def)
qed

definition mem_bucket_sdk :: "mem_bucket s3_sdk" where
  "mem_bucket_sdk =
     \<lparr>sdk_put = (\<lambda>_. mem_put),
      sdk_get = (\<lambda>_ key rng b. (case tget b key of None \<Rightarrow> Err no_object
        | Some ob \<Rightarrow> Ok \<lparr>go_body = Ok (drop (range_start rng (length (ob_body ob))) (ob_body ob)), go_e_tag = Some (ob_e_tag ob), go_metadata = Some (ob_metadata ob)\<rparr>, b)),
      sdk_head = (\<lambda>_ key b. (case tget b key of None \<Rightarrow> Err no_object
        | Some ob \<Rightarrow> Ok \<lparr>ho_content_length = Some (int (length (ob_body ob))), ho_metadata = Some (ob_metadata ob)\<rparr>, b)),
      sdk_delete = (\<lambda>_ key b. (Ok (), tremove key b)),
      sdk_list = (\<lambda>_ prefix _ b. (Ok \<lparr>lo_keys = map Some (filter (starts_with prefix) (tkeys b)), lo_next = None\<rparr>, b)),
      sdk_file = (\<lambda>path n. Ok (FromFile path n))\<rparr>"

definition mem_tags_ok :: "mem_bucket \<Rightarrow> bool" where
  "mem_tags_ok b \<longleftrightarrow> (\<forall>key ob. tget b key = Some ob \<longrightarrow> ob_e_tag ob = ob_body ob)"

lemmas mem_sdk_defs = mem_bucket_sdk_def no_object_def metadata_of_def

lemma mem_put_stores:
  assumes "mem_put req b = (r, b')"
  shows "r \<noteq> Ok () \<and> tget b' = tget b \<or>
      conditions_met req (tget b (po_key req)) \<and>
      (\<exists>ob. tget b' = (tget b)(po_key req \<mapsto> ob) \<and> body_matches (po_body req) (ob_body ob) \<and>
         (list_all (\<lambda>(k, v). plain_value v) (po_metadata req) \<longrightarrow> ob_metadata ob = po_metadata req))"
proof -
  let ?ob = "\<lparr>ob_body = stored_body (po_body req), ob_metadata = po_metadata req, ob_e_tag = stored_body (po_body req)\<rparr>"
  have m: "body_matches (po_body req) (ob_body ?ob)" by (cases "po_body req") simp_all
  have u: "tget (tinsert (po_key req) ?ob b) = (tget b)(po_key req \<mapsto> ?ob)" by (simp add: fun_eq_iff table_simps)
  show ?thesis
  proof (cases "conditions_met req (tget b (po_key req))")
    case True
    with assms have "b' = tinsert (po_key req) ?ob b"
      by (auto simp: mem_put_def Let_def conditions_met_def split: if_splits option.splits)
    with True m u show ?thesis by (metis s3_object.select_convs(2))
  next
    case False
    with assms have "r = Err precondition_failed" "b' = b"
      by (auto simp: mem_put_def Let_def conditions_met_def split: if_splits option.splits)
    then show ?thesis by simp
  qed
qed

lemma mem_put_tags_ok: "mem_tags_ok b \<Longrightarrow> mem_tags_ok (snd (mem_put req b))"
  by (simp add: mem_put_def Let_def mem_tags_ok_def table_simps)

definition mem_later :: "mem_bucket \<Rightarrow> mem_bucket \<Rightarrow> bool" where
  "mem_later b b' \<longleftrightarrow> (mem_tags_ok b \<longrightarrow> mem_tags_ok b')"

lemma mem_sdk_simps [simp]:
  "sdk_put mem_bucket_sdk n req = mem_put req"
  "snd (sdk_get mem_bucket_sdk n key rng b) = b" "snd (sdk_head mem_bucket_sdk n key b) = b"
  by (simp_all add: mem_bucket_sdk_def)

interpretation mb: s3_bucket mem_bucket_sdk c tget mem_tags_ok mem_later
  for c
proof unfold_locales
  show "r \<noteq> Ok () \<and> tget t = tget s \<or>
      conditions_met req (tget s (po_key req)) \<and>
      (\<exists>ob. tget t = (tget s)(po_key req \<mapsto> ob) \<and> body_matches (po_body req) (ob_body ob) \<and>
         (list_all (\<lambda>(k, v). plain_value v) (po_metadata req) \<longrightarrow> ob_metadata ob = po_metadata req))"
    if "sdk_put mem_bucket_sdk (sc_bucket c) req s = (r, t)" for req s r t
    using that by (simp add: mem_put_stores)
  show "mem_later s (snd (sdk_put mem_bucket_sdk (sc_bucket c) req s))" for s req
    by (simp add: mem_later_def mem_put_tags_ok)
  show "ob_body p = ob_body q" if "mem_tags_ok s" "mem_later s t" "tget s key = Some p" "tget t key = Some q"
    "ob_e_tag p = ob_e_tag q" for s t key p q
    using that by (auto simp: mem_later_def mem_tags_ok_def)
qed (auto simp: mem_sdk_defs mem_later_def split: option.splits)


section \<open>Keys do not collide\<close>

text \<open>The families of objects the node stores, and the key of each.\<close>

datatype object_name =
    Blob string | Outboard string | ManifestOf string | CatalogDocument string | CatalogOutboard string
  | CatalogIndex string | CatalogPointer string | ModerationRecord string string

fun object_key :: "S3Client \<Rightarrow> object_name \<Rightarrow> string" where
  "object_key c (Blob h) = blob_key c h"
| "object_key c (Outboard h) = outboard_key c h"
| "object_key c (ManifestOf h) = manifest_key c h"
| "object_key c (CatalogDocument h) = catalog_document_key c h"
| "object_key c (CatalogOutboard h) = catalog_outboard_key c h"
| "object_key c (CatalogIndex h) = catalog_index_key c h"
| "object_key c (CatalogPointer s) = catalog_pointer_key c s"
| "object_key c (ModerationRecord kind key) = moderation_prefix c kind @ key"

fun kind_ok :: "object_name \<Rightarrow> bool" where
  "kind_ok (ModerationRecord kind key) \<longleftrightarrow> CHR ''/'' \<notin> set kind"
| "kind_ok _ \<longleftrightarrow> True"

lemmas key_defs = blob_key_def outboard_key_def manifest_key_def catalog_document_key_def catalog_outboard_key_def
  catalog_index_key_def catalog_pointer_key_def moderation_prefix_def

lemma append_slash_inject:
  "c \<notin> set a \<Longrightarrow> c \<notin> set a' \<Longrightarrow> a @ c # b = a' @ c # b' \<longleftrightarrow> a = a' \<and> b = b'"
  by (auto simp: append_eq_append_conv2 Cons_eq_append_conv append_eq_Cons_conv)

text \<open>C39: Two stored objects have the same key only if they are the same object: no hash, subject or
  record key, whatever its characters, reaches into another family of objects, and a moderation
  record's kind and key can be told apart.\<close>

theorem object_keys_injective:
  assumes "kind_ok a" "kind_ok b" "object_key c a = object_key c b"
  shows "a = b"
  using assms by (cases a; cases b) (auto simp: key_defs append_slash_inject)

theorem object_keys_injective_witness:
  "object_key \<lparr>sc_bucket = ''b'', sc_prefix = ''p/''\<rparr> (ModerationRecord ''blocks'' ''x/y'')
   \<noteq> object_key \<lparr>sc_bucket = ''b'', sc_prefix = ''p/''\<rparr> (ModerationRecord ''suspensions'' ''x'')"
  using object_keys_injective[of "ModerationRecord ''blocks'' ''x/y''" "ModerationRecord ''suspensions'' ''x''"
      "\<lparr>sc_bucket = ''b'', sc_prefix = ''p/''\<rparr>"] by auto


section \<open>Listing ends\<close>

text \<open>The pages a bucket serves for a prefix from a continuation token on, to the one without a
  next token.\<close>

fun page_chain :: "(string option \<Rightarrow> list_output) \<Rightarrow> string option \<Rightarrow> list_output list \<Rightarrow> bool" where
  "page_chain pages tok [] = False"
| "page_chain pages tok [p] = (p = pages tok \<and> lo_next p = None)"
| "page_chain pages tok (p # ps) = (p = pages tok \<and> (\<exists>t. lo_next p = Some t \<and> page_chain pages (Some t) ps))"

lemma page_bodies_all:
  assumes "\<And>key. sdk_get sdk (sc_bucket c) key None s = (Ok (obj key), s)" and "\<And>key. go_body (obj key) = Ok (body key)"
  shows "page_bodies sdk c keys out s = (Ok (out @ map body (List.map_filter (\<lambda>k. k) keys)), s)"
  using assms
  by (induction sdk c keys out rule: page_bodies.induct) (simp_all add: io_defs with_context_def List.map_filter_simps)


definition sample_pages :: "string option \<Rightarrow> list_output" where
  "sample_pages tok = (if tok = None then \<lparr>lo_keys = [Some ''m/a'', None], lo_next = Some ''t''\<rparr>
     else \<lparr>lo_keys = [Some ''m/b''], lo_next = None\<rparr>)"

definition sample_sdk :: "unit s3_sdk" where
  "sample_sdk = \<lparr>sdk_put = (\<lambda>_ _. io_return ()),
     sdk_get = (\<lambda>_ key _. io_return \<lparr>go_body = Ok key, go_e_tag = None, go_metadata = None\<rparr>),
     sdk_head = (\<lambda>_ _. io_return \<lparr>ho_content_length = None, ho_metadata = None\<rparr>),
     sdk_delete = (\<lambda>_ _. io_return ()), sdk_list = (\<lambda>_ _ tok. io_return (sample_pages tok)),
     sdk_file = (\<lambda>p n. Ok (FromFile p n))\<rparr>"


end
