(* ===== verification/Tag_Store.thy ===== *)
theory Tag_Store
  imports S3_Store
begin

text \<open>
  The storage the catalog APIs use (\<open>src/tags_api.rs\<close>): the trait \<open>TagStore\<close> as a record of
  operations over a state, its implementation by \<open>S3Client\<close> and by the in-memory \<open>MemStore\<close>, and
  the contract the handlers rely on, \<open>catalog_store\<close>, interpreted on \<open>MemStore\<close>.
\<close>

section \<open>The trait\<close>

record StoredPointer =
  sp_body :: bytes
  sp_etag :: string

record StoredDocument =
  sd_body :: bytes
  sd_owner :: "string option"

record DocumentHead =
  dh_owner :: "string option"

record 's tag_store =
  ts_blob_size :: "string \<Rightarrow> ('s, nat option, string) io"
  ts_get_manifest :: "string \<Rightarrow> ('s, bytes option, string) io"
  ts_get_catalog_document :: "string \<Rightarrow> ('s, StoredDocument option, string) io"
  ts_head_catalog_document :: "string \<Rightarrow> ('s, DocumentHead option, string) io"
  ts_put_catalog_document :: "string \<Rightarrow> bytes \<Rightarrow> string \<Rightarrow> ('s, unit, string) io"
  ts_put_catalog_outboard :: "string \<Rightarrow> bytes \<Rightarrow> ('s, unit, string) io"
  ts_put_catalog_index :: "string \<Rightarrow> bytes \<Rightarrow> ('s, unit, string) io"
  ts_get_catalog_index :: "string \<Rightarrow> ('s, bytes option, string) io"
  ts_get_catalog_pointer :: "string \<Rightarrow> ('s, StoredPointer option, string) io"
  ts_put_catalog_pointer :: "string \<Rightarrow> bytes \<Rightarrow> string option \<Rightarrow> ('s, bool, string) io"

text \<open>\<open>impl TagStore for S3Client\<close>\<close>

definition io_map :: "('a \<Rightarrow> 'b) \<Rightarrow> ('s, 'a, 'e) io \<Rightarrow> ('s, 'b, 'e) io" where
  "io_map f m = io_bind m (\<lambda>x. io_return (f x))"

definition s3_tag_store :: "'s s3_sdk \<Rightarrow> S3Client \<Rightarrow> 's tag_store" where
  "s3_tag_store sdk c =
     \<lparr>ts_blob_size = blob_size sdk c,
      ts_get_manifest = get_manifest sdk c,
      ts_get_catalog_document = (\<lambda>h. io_map (map_option (\<lambda>(body, owner). \<lparr>sd_body = body, sd_owner = owner\<rparr>))
        (get_catalog_document sdk c h)),
      ts_head_catalog_document = (\<lambda>h. io_map (map_option (\<lambda>owner. \<lparr>dh_owner = owner\<rparr>)) (head_catalog_document sdk c h)),
      ts_put_catalog_document = put_catalog_document sdk c,
      ts_put_catalog_outboard = put_catalog_outboard sdk c,
      ts_put_catalog_index = put_catalog_index sdk c,
      ts_get_catalog_index = get_catalog_index sdk c,
      ts_get_catalog_pointer = (\<lambda>sub. io_map (map_option (\<lambda>(body, etag). \<lparr>sp_body = body, sp_etag = etag\<rparr>))
        (get_catalog_pointer sdk c sub)),
      ts_put_catalog_pointer = put_catalog_pointer sdk c\<rparr>"


section \<open>The in-memory store\<close>

record MemStore =
  mt_blobs :: "(string, nat) table"
  mt_manifests :: "(string, bytes) table"
  mt_manifest_reads :: nat
  mt_catalog_documents :: "(string, StoredDocument) table"
  mt_blob_lookups :: nat
  mt_down :: bool
  mt_catalog_outboards :: "(string, bytes) table"
  mt_catalog_indexes :: "(string, bytes) table"
  mt_catalog_pointers :: "(string, bytes \<times> nat) table"
  mt_pointer_versions :: nat
  mt_lose_next_pointer_race :: bool

definition mt_new :: MemStore where
  "mt_new = \<lparr>mt_blobs = [], mt_manifests = [], mt_manifest_reads = 0, mt_catalog_documents = [], mt_blob_lookups = 0,
     mt_down = False, mt_catalog_outboards = [], mt_catalog_indexes = [], mt_catalog_pointers = [],
     mt_pointer_versions = 0, mt_lose_next_pointer_race = False\<rparr>"

definition mt_ingest :: "string \<Rightarrow> nat \<Rightarrow> MemStore \<Rightarrow> MemStore" where
  "mt_ingest h n m = m\<lparr>mt_blobs := tinsert h n (mt_blobs m)\<rparr>"

definition mt_ingest_with_manifest :: "string \<Rightarrow> nat \<Rightarrow> bytes \<Rightarrow> MemStore \<Rightarrow> MemStore" where
  "mt_ingest_with_manifest h n manifest m =
     (let m = mt_ingest h n m in m\<lparr>mt_manifests := tinsert h manifest (mt_manifests m)\<rparr>)"

text \<open>\<open>self.up()?\<close>, then the rest.\<close>

definition mt_up :: "(MemStore \<Rightarrow> ('a, string) result \<times> MemStore) \<Rightarrow> (MemStore, 'a, string) io" where
  "mt_up f m = (if mt_down m then (Err ''store down'', m) else f m)"

definition mt_blob_size :: "string \<Rightarrow> (MemStore, nat option, string) io" where
  "mt_blob_size h = mt_up (\<lambda>m. (Ok (tget (mt_blobs m) h), m\<lparr>mt_blob_lookups := mt_blob_lookups m + 1\<rparr>))"

definition mt_get_manifest :: "string \<Rightarrow> (MemStore, bytes option, string) io" where
  "mt_get_manifest h = mt_up (\<lambda>m. (Ok (tget (mt_manifests m) h), m\<lparr>mt_manifest_reads := mt_manifest_reads m + 1\<rparr>))"

definition mt_get_catalog_document :: "string \<Rightarrow> (MemStore, StoredDocument option, string) io" where
  "mt_get_catalog_document h = mt_up (\<lambda>m. (Ok (tget (mt_catalog_documents m) h), m))"

definition mt_head_catalog_document :: "string \<Rightarrow> (MemStore, DocumentHead option, string) io" where
  "mt_head_catalog_document h =
     mt_up (\<lambda>m. (Ok (map_option (\<lambda>d. \<lparr>dh_owner = sd_owner d\<rparr>) (tget (mt_catalog_documents m) h)), m))"

definition mt_put_catalog_document :: "string \<Rightarrow> bytes \<Rightarrow> string \<Rightarrow> (MemStore, unit, string) io" where
  "mt_put_catalog_document h body owner = mt_up (\<lambda>m. (Ok (),
     m\<lparr>mt_catalog_documents := tinsert h \<lparr>sd_body = body, sd_owner = Some owner\<rparr> (mt_catalog_documents m)\<rparr>))"

definition mt_put_catalog_outboard :: "string \<Rightarrow> bytes \<Rightarrow> (MemStore, unit, string) io" where
  "mt_put_catalog_outboard h outboard =
     mt_up (\<lambda>m. (Ok (), m\<lparr>mt_catalog_outboards := tinsert h outboard (mt_catalog_outboards m)\<rparr>))"

definition mt_put_catalog_index :: "string \<Rightarrow> bytes \<Rightarrow> (MemStore, unit, string) io" where
  "mt_put_catalog_index h body =
     mt_up (\<lambda>m. (Ok (), m\<lparr>mt_catalog_indexes := tinsert h body (mt_catalog_indexes m)\<rparr>))"

definition mt_get_catalog_index :: "string \<Rightarrow> (MemStore, bytes option, string) io" where
  "mt_get_catalog_index h = mt_up (\<lambda>m. (Ok (tget (mt_catalog_indexes m) h), m))"

definition mt_version_tag :: "nat \<Rightarrow> string" where
  "mt_version_tag v = ''\"'' @ show_nat v @ ''\"''"

definition mt_get_catalog_pointer :: "string \<Rightarrow> (MemStore, StoredPointer option, string) io" where
  "mt_get_catalog_pointer sub = mt_up (\<lambda>m.
     (Ok (map_option (\<lambda>(body, v). \<lparr>sp_body = body, sp_etag = mt_version_tag v\<rparr>) (tget (mt_catalog_pointers m) sub)), m))"

definition mt_put_catalog_pointer :: "string \<Rightarrow> bytes \<Rightarrow> string option \<Rightarrow> (MemStore, bool, string) io" where
  "mt_put_catalog_pointer sub body expected = mt_up (\<lambda>m.
     let lost = mt_lose_next_pointer_race m; m = m\<lparr>mt_lose_next_pointer_race := False\<rparr> in
     if lost then (Ok False, m)
     else let current = map_option (\<lambda>(_, v). mt_version_tag v) (tget (mt_catalog_pointers m) sub) in
       if current \<noteq> expected then (Ok False, m)
       else let v = mt_pointer_versions m in
         (Ok True, m\<lparr>mt_pointer_versions := v + 1,
                      mt_catalog_pointers := tinsert sub (body, v) (mt_catalog_pointers m)\<rparr>))"

definition mt_store :: "MemStore tag_store" where
  "mt_store =
     \<lparr>ts_blob_size = mt_blob_size, ts_get_manifest = mt_get_manifest,
      ts_get_catalog_document = mt_get_catalog_document, ts_head_catalog_document = mt_head_catalog_document,
      ts_put_catalog_document = mt_put_catalog_document, ts_put_catalog_outboard = mt_put_catalog_outboard,
      ts_put_catalog_index = mt_put_catalog_index, ts_get_catalog_index = mt_get_catalog_index,
      ts_get_catalog_pointer = mt_get_catalog_pointer, ts_put_catalog_pointer = mt_put_catalog_pointer\<rparr>"


section \<open>The contract\<close>

text \<open>The objects a store holds: the sizes of the ingested blobs, their manifests, and the catalog objects.\<close>

record catalog_view =
  cw_blobs :: "string \<Rightarrow> nat option"
  cw_manifests :: "string \<Rightarrow> bytes option"
  cw_documents :: "string \<Rightarrow> StoredDocument option"
  cw_outboards :: "string \<Rightarrow> bytes option"
  cw_indexes :: "string \<Rightarrow> bytes option"
  cw_pointers :: "string \<Rightarrow> StoredPointer option"

text \<open>
  What the handlers rely on. Reads answer from the objects and change none of them; a write that
  succeeds stores its object and a write that fails stored it or nothing; a pointer is replaced only
  while its tag is the expected one, and a tag a subject's pointer had before comes back only with the
  same bundle (\<open>evolves\<close> relates a state to the later ones, whoever wrote in between).
\<close>

locale catalog_store =
  fixes st :: "'s tag_store" and inv :: "'s \<Rightarrow> bool" and view :: "'s \<Rightarrow> catalog_view" and evolves :: "'s \<Rightarrow> 's \<Rightarrow> bool"
  assumes get_blob_size: "ts_blob_size st h s = (Ok n, t) \<Longrightarrow> n = cw_blobs (view s) h"
    and get_manifest: "ts_get_manifest st h s = (Ok mf, t) \<Longrightarrow> mf = cw_manifests (view s) h"
    and get_document: "ts_get_catalog_document st h s = (Ok d, t) \<Longrightarrow> d = cw_documents (view s) h"
    and head_document: "ts_head_catalog_document st h s = (Ok dh, t) \<Longrightarrow>
      dh = map_option (\<lambda>d. \<lparr>dh_owner = sd_owner d\<rparr>) (cw_documents (view s) h)"
    and get_index: "ts_get_catalog_index st h s = (Ok i, t) \<Longrightarrow> i = cw_indexes (view s) h"
    and get_pointer: "ts_get_catalog_pointer st sub s = (Ok sp, t) \<Longrightarrow> sp = cw_pointers (view s) sub"
    and read_view:
      "view (snd (ts_blob_size st h s)) = view s" "view (snd (ts_get_manifest st h s)) = view s"
      "view (snd (ts_get_catalog_document st h s)) = view s" "view (snd (ts_head_catalog_document st h s)) = view s"
      "view (snd (ts_get_catalog_index st h s)) = view s" "view (snd (ts_get_catalog_pointer st h s)) = view s"
    and put_document: "ts_put_catalog_document st h b owner s = (r, t) \<Longrightarrow>
      r \<noteq> Ok () \<and> view t = view s \<or>
      (\<exists>ow. view t = (view s)\<lparr>cw_documents := (cw_documents (view s))(h \<mapsto> \<lparr>sd_body = b, sd_owner = ow\<rparr>)\<rparr> \<and>
         (plain_value owner \<longrightarrow> ow = Some owner))"
    and put_outboard: "ts_put_catalog_outboard st h b s = (r, t) \<Longrightarrow>
      r \<noteq> Ok () \<and> view t = view s \<or> view t = (view s)\<lparr>cw_outboards := (cw_outboards (view s))(h \<mapsto> b)\<rparr>"
    and put_index: "ts_put_catalog_index st h b s = (r, t) \<Longrightarrow>
      r \<noteq> Ok () \<and> view t = view s \<or> view t = (view s)\<lparr>cw_indexes := (cw_indexes (view s))(h \<mapsto> b)\<rparr>"
    and put_pointer: "ts_put_catalog_pointer st sub b expected s = (r', t) \<Longrightarrow>
      r' \<noteq> Ok True \<and> view t = view s \<or>
      map_option sp_etag (cw_pointers (view s) sub) = expected \<and>
      (\<exists>e. view t = (view s)\<lparr>cw_pointers := (cw_pointers (view s))(sub \<mapsto> \<lparr>sp_body = b, sp_etag = e\<rparr>)\<rparr>)"
    and evolves_refl: "evolves s s"
    and evolves_trans: "evolves s t \<Longrightarrow> evolves t u \<Longrightarrow> evolves s u"
    and evolves_read:
      "evolves s (snd (ts_blob_size st h s))" "evolves s (snd (ts_get_manifest st h s))"
      "evolves s (snd (ts_get_catalog_document st h s))" "evolves s (snd (ts_head_catalog_document st h s))"
      "evolves s (snd (ts_get_catalog_index st h s))" "evolves s (snd (ts_get_catalog_pointer st h s))"
    and evolves_write:
      "evolves s (snd (ts_put_catalog_document st h b owner s))" "evolves s (snd (ts_put_catalog_outboard st h b s))"
      "evolves s (snd (ts_put_catalog_index st h b s))" "evolves s (snd (ts_put_catalog_pointer st h b expected s))"
    and evolves_inv: "inv s \<Longrightarrow> evolves s t \<Longrightarrow> inv t"
    and tag_identifies: "inv s \<Longrightarrow> evolves s t \<Longrightarrow> cw_pointers (view s) sub = Some p \<Longrightarrow> cw_pointers (view t) sub = Some q \<Longrightarrow>
      sp_etag p = sp_etag q \<Longrightarrow> p = q"
begin

text \<open>A conditional write that succeeds after other writes replaced the pointer that was read.\<close>

lemma pointer_cas:
  assumes "inv s" and read: "ts_get_catalog_pointer st sub s = (Ok current, t)" and "evolves t u"
    and wr: "ts_put_catalog_pointer st sub b (map_option sp_etag current) u = (Ok True, w)"
  shows "cw_pointers (view u) sub = current"
proof -
  have c: "current = cw_pointers (view s) sub" by (rule get_pointer[OF read])
  have e: "evolves s u"
    using evolves_read(6)[of s sub] assms(3) read evolves_trans[of s t u] by simp
  have m: "map_option sp_etag (cw_pointers (view u) sub) = map_option sp_etag current"
    using put_pointer[OF wr] by auto
  show ?thesis
  proof (cases current)
    case None
    with m show ?thesis by simp
  next
    case (Some p)
    with m obtain q where "cw_pointers (view u) sub = Some q" "sp_etag q = sp_etag p" by auto
    with tag_identifies[OF assms(1) e, of sub p q] c Some show ?thesis by simp
  qed
qed

end

text \<open>\<open>S3Client\<close> provides it in every bucket that keeps the contract of S3: each family of objects has
  its own keys.\<close>

definition s3_view :: "S3Client \<Rightarrow> (string \<Rightarrow> s3_object option) \<Rightarrow> catalog_view" where
  "s3_view c objs =
     \<lparr>cw_blobs = (\<lambda>h. map_option (\<lambda>ob. length (ob_body ob)) (objs (blob_key c h))),
      cw_manifests = (\<lambda>h. map_option ob_body (objs (manifest_key c h))),
      cw_documents = (\<lambda>h. map_option (\<lambda>ob. \<lparr>sd_body = ob_body ob, sd_owner = tget (ob_metadata ob) CATALOG_OWNER_METADATA\<rparr>)
        (objs (catalog_document_key c h))),
      cw_outboards = (\<lambda>h. map_option ob_body (objs (catalog_outboard_key c h))),
      cw_indexes = (\<lambda>h. map_option ob_body (objs (catalog_index_key c h))),
      cw_pointers = (\<lambda>sub. map_option (\<lambda>ob. \<lparr>sp_body = ob_body ob, sp_etag = ob_e_tag ob\<rparr>) (objs (catalog_pointer_key c sub)))\<rparr>"

lemmas s3_read_defs = s3_tag_store_def blob_size_def get_manifest_def get_catalog_document_def head_catalog_document_def
  get_catalog_index_def get_catalog_pointer_def
lemmas s3_write_defs = s3_tag_store_def put_catalog_document_def put_catalog_outboard_def put_catalog_index_def
  put_request_def

lemma io_map_Ok_iff: "io_map f m s = (Ok y, t) \<longleftrightarrow> (\<exists>x. m s = (Ok x, t) \<and> y = f x)"
  by (auto simp: io_map_def io_Ok_iffs)

lemma snd_io_map: "snd (io_map f m s) = snd (m s)"
  by (auto simp: io_map_def io_defs split: prod.splits result.splits)

lemma owner_metadata_of: "owner_metadata m = tget (metadata_of m) CATALOG_OWNER_METADATA"
  by (cases m) (simp_all add: owner_metadata_def metadata_of_def)

context s3_bucket
begin

lemma s3_reads:
  "ts_blob_size (s3_tag_store sdk c) h s = (Ok n, t) \<Longrightarrow> n = cw_blobs (s3_view c (objects s)) h"
  "ts_get_manifest (s3_tag_store sdk c) h s = (Ok mf, t) \<Longrightarrow> mf = cw_manifests (s3_view c (objects s)) h"
  "ts_get_catalog_document (s3_tag_store sdk c) h s = (Ok d, t) \<Longrightarrow> d = cw_documents (s3_view c (objects s)) h"
  "ts_head_catalog_document (s3_tag_store sdk c) h s = (Ok dh, t) \<Longrightarrow>
     dh = map_option (\<lambda>d. \<lparr>dh_owner = sd_owner d\<rparr>) (cw_documents (s3_view c (objects s)) h)"
  "ts_get_catalog_index (s3_tag_store sdk c) h s = (Ok i, t) \<Longrightarrow> i = cw_indexes (s3_view c (objects s)) h"
  "ts_get_catalog_pointer (s3_tag_store sdk c) h s = (Ok sp, t) \<Longrightarrow> sp = cw_pointers (s3_view c (objects s)) h"
  by (auto simp: s3_read_defs s3_view_def io_map_Ok_iff result_simps owner_metadata_of split: option.splits
      dest!: get_unless_missing head_unless_missing head_size_Ok)

lemma s3_reads_keep:
  "objects (snd (ts_blob_size (s3_tag_store sdk c) h s)) = objects s"
  "objects (snd (ts_get_manifest (s3_tag_store sdk c) h s)) = objects s"
  "objects (snd (ts_get_catalog_document (s3_tag_store sdk c) h s)) = objects s"
  "objects (snd (ts_head_catalog_document (s3_tag_store sdk c) h s)) = objects s"
  "objects (snd (ts_get_catalog_index (s3_tag_store sdk c) h s)) = objects s"
  "objects (snd (ts_get_catalog_pointer (s3_tag_store sdk c) h s)) = objects s"
  by (simp_all add: s3_read_defs snd_io_map snd_unless_missing read_objects)

lemma s3_evolves:
  "evolves s (snd (ts_blob_size (s3_tag_store sdk c) h s))"
  "evolves s (snd (ts_get_manifest (s3_tag_store sdk c) h s))"
  "evolves s (snd (ts_get_catalog_document (s3_tag_store sdk c) h s))"
  "evolves s (snd (ts_head_catalog_document (s3_tag_store sdk c) h s))"
  "evolves s (snd (ts_get_catalog_index (s3_tag_store sdk c) h s))"
  "evolves s (snd (ts_get_catalog_pointer (s3_tag_store sdk c) h s))"
  "evolves s (snd (ts_put_catalog_document (s3_tag_store sdk c) h b owner s))"
  "evolves s (snd (ts_put_catalog_outboard (s3_tag_store sdk c) h b s))"
  "evolves s (snd (ts_put_catalog_index (s3_tag_store sdk c) h b s))"
  by (simp_all add: s3_read_defs s3_write_defs snd_io_map snd_unless_missing snd_with_context evolves_requests)

lemma s3_put_document:
  assumes "ts_put_catalog_document (s3_tag_store sdk c) h b owner s = (r, t)"
  shows "r \<noteq> Ok () \<and> s3_view c (objects t) = s3_view c (objects s) \<or>
    (\<exists>ow. s3_view c (objects t) = (s3_view c (objects s))\<lparr>cw_documents :=
        (cw_documents (s3_view c (objects s)))(h \<mapsto> \<lparr>sd_body = b, sd_owner = ow\<rparr>)\<rparr> \<and> (plain_value owner \<longrightarrow> ow = Some owner))"
proof -
  from put_with_context[OF assms[unfolded s3_write_defs, simplified]]
  consider "r \<noteq> Ok ()" "objects t = objects s"
    | ob where "objects t = (objects s)(catalog_document_key c h \<mapsto> ob)" "ob_body ob = b"
        "plain_value owner \<longrightarrow> ob_metadata ob = [(CATALOG_OWNER_METADATA, owner)]"
    by auto
  then show ?thesis
  proof cases
    case (2 ob)
    let ?ow = "tget (ob_metadata ob) CATALOG_OWNER_METADATA"
    have "s3_view c (objects t) = (s3_view c (objects s))\<lparr>cw_documents :=
        (cw_documents (s3_view c (objects s)))(h \<mapsto> \<lparr>sd_body = b, sd_owner = ?ow\<rparr>)\<rparr>"
      using 2 by (simp add: s3_view_def key_defs fun_eq_iff)
    moreover have "plain_value owner \<longrightarrow> ?ow = Some owner" using 2 by auto
    ultimately show ?thesis by blast
  qed simp
qed

lemma s3_put_outboard:
  assumes "ts_put_catalog_outboard (s3_tag_store sdk c) h b s = (r, t)"
  shows "r \<noteq> Ok () \<and> s3_view c (objects t) = s3_view c (objects s) \<or>
    s3_view c (objects t) = (s3_view c (objects s))\<lparr>cw_outboards := (cw_outboards (s3_view c (objects s)))(h \<mapsto> b)\<rparr>"
  using put_with_context[OF assms[unfolded s3_write_defs, simplified]]
  by (auto simp: s3_view_def key_defs fun_eq_iff)

lemma s3_put_index:
  assumes "ts_put_catalog_index (s3_tag_store sdk c) h b s = (r, t)"
  shows "r \<noteq> Ok () \<and> s3_view c (objects t) = s3_view c (objects s) \<or>
    s3_view c (objects t) = (s3_view c (objects s))\<lparr>cw_indexes := (cw_indexes (s3_view c (objects s)))(h \<mapsto> b)\<rparr>"
  using put_with_context[OF assms[unfolded s3_write_defs, simplified]]
  by (auto simp: s3_view_def key_defs fun_eq_iff)

lemma s3_put_pointer:
  assumes "ts_put_catalog_pointer (s3_tag_store sdk c) sub b expected s = (r, t)"
  shows "(r \<noteq> Ok True \<and> s3_view c (objects t) = s3_view c (objects s) \<or>
    map_option sp_etag (cw_pointers (s3_view c (objects s)) sub) = expected \<and>
      (\<exists>e. s3_view c (objects t) = (s3_view c (objects s))\<lparr>cw_pointers :=
         (cw_pointers (s3_view c (objects s)))(sub \<mapsto> \<lparr>sp_body = b, sp_etag = e\<rparr>)\<rparr>)) \<and> evolves s t"
proof -
  obtain a u where a: "sdk_put sdk (sc_bucket c) (pointer_put c sub b expected) s = (a, u)" by fastforce
  have t: "t = u" and r: "r = Ok True \<Longrightarrow> a = Ok ()"
    using assms a by (auto simp: s3_tag_store_def put_catalog_pointer_def split: result.splits if_splits)
  have key: "po_key (pointer_put c sub b expected) = catalog_pointer_key c sub"
    and body: "po_body (pointer_put c sub b expected) = InMemory b"
    by (simp_all add: pointer_put_def put_request_def Let_def split: option.splits)
  have ev: "evolves s t" using evolves_requests(3)[of s "pointer_put c sub b expected"] a t by simp
  from put_stores[OF a] key body t
  consider "a \<noteq> Ok ()" "objects t = objects s"
    | ob where "conditions_met (pointer_put c sub b expected) (objects s (catalog_pointer_key c sub))"
        "objects t = (objects s)(catalog_pointer_key c sub \<mapsto> ob)" "ob_body ob = b" by auto
  then show ?thesis
  proof cases
    case (2 ob)
    from 2(1) have "map_option ob_e_tag (objects s (catalog_pointer_key c sub)) = expected"
      by (cases expected) (auto simp: conditions_met_def pointer_put_def put_request_def Let_def)
    then have "map_option sp_etag (cw_pointers (s3_view c (objects s)) sub) = expected"
      by (simp add: s3_view_def option.map_comp comp_def)
    moreover have "s3_view c (objects t) = (s3_view c (objects s))\<lparr>cw_pointers :=
         (cw_pointers (s3_view c (objects s)))(sub \<mapsto> \<lparr>sp_body = b, sp_etag = ob_e_tag ob\<rparr>)\<rparr>"
      using 2 by (simp add: s3_view_def key_defs fun_eq_iff)
    ultimately show ?thesis using ev by blast
  qed (use r ev in auto)
qed

end

sublocale s3_bucket \<subseteq> s3: catalog_store "s3_tag_store sdk c" ok "\<lambda>s. s3_view c (objects s)" evolves
proof unfold_locales
  show "p = q" if st: "ok s" "evolves s t" and "cw_pointers (s3_view c (objects s)) sub = Some p"
    "cw_pointers (s3_view c (objects t)) sub = Some q" and e: "sp_etag p = sp_etag q" for s t sub p q
  proof -
    from that obtain x y where "objects s (catalog_pointer_key c sub) = Some x" "objects t (catalog_pointer_key c sub) = Some y"
      "p = \<lparr>sp_body = ob_body x, sp_etag = ob_e_tag x\<rparr>" "q = \<lparr>sp_body = ob_body y, sp_etag = ob_e_tag y\<rparr>"
      by (auto simp: s3_view_def)
    with e_tag_identifies[OF st, of "catalog_pointer_key c sub" x y] e show ?thesis by simp
  qed
  show "evolves s u" if "evolves s t" "evolves t u" for s t u using that by (rule evolves_trans)
  show "ok t" if "ok s" "evolves s t" for s t using that by (rule evolves_ok)
  show "evolves s (snd (ts_put_catalog_pointer (s3_tag_store sdk c) h b expected s))" for s h b expected
    using s3_put_pointer[of h b expected s] by (metis prod.collapse)
  show "r \<noteq> Ok True \<and> s3_view c (objects t) = s3_view c (objects s) \<or>
    map_option sp_etag (cw_pointers (s3_view c (objects s)) sub) = expected \<and>
      (\<exists>e. s3_view c (objects t) = (s3_view c (objects s))\<lparr>cw_pointers :=
         (cw_pointers (s3_view c (objects s)))(sub \<mapsto> \<lparr>sp_body = b, sp_etag = e\<rparr>)\<rparr>)"
    if "ts_put_catalog_pointer (s3_tag_store sdk c) sub b expected s = (r, t)" for sub b expected s r t
    using s3_put_pointer[OF that] by simp
qed (erule s3_reads s3_put_document s3_put_outboard s3_put_index | rule s3_evolves evolves_refl
    | simp only: s3_reads_keep)+

text \<open>\<open>MemStore\<close> provides it: a version is stored under a subject only if it was there before or is
  newer than every version of the earlier state.\<close>

definition mt_view :: "MemStore \<Rightarrow> catalog_view" where
  "mt_view m =
     \<lparr>cw_blobs = tget (mt_blobs m), cw_manifests = tget (mt_manifests m),
      cw_documents = tget (mt_catalog_documents m), cw_outboards = tget (mt_catalog_outboards m),
      cw_indexes = tget (mt_catalog_indexes m),
      cw_pointers = (\<lambda>sub. map_option (\<lambda>(b, v). \<lparr>sp_body = b, sp_etag = mt_version_tag v\<rparr>) (tget (mt_catalog_pointers m) sub))\<rparr>"

definition mt_evolves :: "MemStore \<Rightarrow> MemStore \<Rightarrow> bool" where
  "mt_evolves m n \<longleftrightarrow> mt_pointer_versions m \<le> mt_pointer_versions n \<and>
     (\<forall>sub b v. tget (mt_catalog_pointers n) sub = Some (b, v) \<longrightarrow>
        (mt_pointer_versions m \<le> v \<and> v < mt_pointer_versions n) \<or> tget (mt_catalog_pointers m) sub = Some (b, v))"

lemmas mt_op_defs = mt_store_def mt_up_def mt_blob_size_def mt_get_manifest_def mt_get_catalog_document_def
  mt_head_catalog_document_def mt_put_catalog_document_def mt_put_catalog_outboard_def mt_put_catalog_index_def
  mt_get_catalog_index_def mt_get_catalog_pointer_def mt_put_catalog_pointer_def Let_def

definition mt_versions_ok :: "MemStore \<Rightarrow> bool" where
  "mt_versions_ok m \<longleftrightarrow>
     (\<forall>sub b v. tget (mt_catalog_pointers m) sub = Some (b, v) \<longrightarrow> v < mt_pointer_versions m)"

lemma mt_version_tag_inject [simp]: "mt_version_tag v = mt_version_tag w \<longleftrightarrow> v = w"
  by (simp add: mt_version_tag_def)

lemma mt_evolves_trans: "mt_evolves m n \<Longrightarrow> mt_evolves n p \<Longrightarrow> mt_evolves m p"
  unfolding mt_evolves_def by (meson le_trans less_le_trans)

lemma mt_evolves_pointers:
  "mt_catalog_pointers n = mt_catalog_pointers m \<Longrightarrow> mt_pointer_versions n = mt_pointer_versions m \<Longrightarrow> mt_evolves m n"
  by (simp add: mt_evolves_def)

lemma mt_put_pointer_evolves: "mt_evolves m (snd (mt_put_catalog_pointer sub b expected m))"
  by (auto simp: mt_op_defs mt_evolves_def table_simps)

interpretation mt: catalog_store mt_store mt_versions_ok mt_view mt_evolves
proof unfold_locales
  fix s t :: MemStore and sub p q
  assume "mt_versions_ok s" "mt_evolves s t" "cw_pointers (mt_view s) sub = Some p" "cw_pointers (mt_view t) sub = Some q"
    "sp_etag p = sp_etag q"
  then show "p = q"
    by (fastforce simp: mt_view_def mt_evolves_def mt_versions_ok_def)
next
  fix s t :: MemStore
  assume "mt_versions_ok s" "mt_evolves s t"
  then show "mt_versions_ok t" unfolding mt_versions_ok_def mt_evolves_def by (meson less_le_trans)
next
  fix sub b expected s r t
  assume "ts_put_catalog_pointer mt_store sub b expected s = (r, t)"
  then show "r \<noteq> Ok True \<and> mt_view t = mt_view s \<or>
      map_option sp_etag (cw_pointers (mt_view s) sub) = expected \<and>
      (\<exists>e. mt_view t = (mt_view s)\<lparr>cw_pointers := (cw_pointers (mt_view s))(sub \<mapsto> \<lparr>sp_body = b, sp_etag = e\<rparr>)\<rparr>)"
    by (auto simp: mt_op_defs mt_view_def fun_eq_iff table_simps option.map_comp comp_def case_prod_unfold
        split: if_splits)
next
  show "mt_evolves s u" if "mt_evolves s t" "mt_evolves t u" for s t u using that by (rule mt_evolves_trans)
next
  show "mt_evolves s (snd (ts_put_catalog_pointer mt_store h b expected s))" for s h b expected
    using mt_put_pointer_evolves[of s h b expected] by (simp add: mt_store_def)
qed (auto simp: mt_op_defs mt_view_def fun_eq_iff table_simps intro!: mt_evolves_pointers split: if_splits)

end
