(* ===== verification/Ingest.thy ===== *)
theory Ingest
  imports Validation Tag_Store
begin

text \<open>
  \<open>src/ingest.rs\<close>: a pushed blob is exported from the local store to a scratch file, validated from
  it, and uploaded to S3 with its outboard and its manifest. A BLAKE3 hash is its lower-case hex. The
  local store and the file system are the record \<open>fs_store\<close> over a state \<open>'f\<close>; bao-tree's outboard
  construction is the parameter \<open>bao\<close>, which answers the root and the outboard of what a reader
  gives.
\<close>

section \<open>The outboard\<close>

type_synonym bao = "tdf_reader \<Rightarrow> nat \<Rightarrow> (string \<times> bytes, string) result"

definition compute_outboard :: "bao \<Rightarrow> tdf_reader \<Rightarrow> nat \<Rightarrow> string \<Rightarrow> (bytes, string) result" where
  "compute_outboard create_sized reader n expected =
     and_then (map_err (\<lambda>_. ''Failed to compute the blob's outboard'') (create_sized reader n)) (\<lambda>(root, outboard).
       if root \<noteq> expected
       then Err (''the blob's bytes hash to '' @ root @ '', not '' @ expected @ ''; refusing to store an outboard for it'')
       else Ok outboard)"


section \<open>Validation of a staged blob\<close>

record bitfield =
  bf_size :: nat
  bf_complete :: bool

text \<open>\<open>fs_join\<close> is the outcome of waiting for a \<open>spawn_blocking\<close> task.\<close>

record 'f fs_store =
  fs_observe :: "string \<Rightarrow> ('f, bitfield, string) io"
  fs_export :: "string \<Rightarrow> string \<Rightarrow> ('f, nat, string) io"
  fs_open :: "string \<Rightarrow> ('f, tdf_reader, string) io"
  fs_join :: "('f, unit, string) io"
  fs_remove_file :: "string \<Rightarrow> 'f \<Rightarrow> 'f"
  fs_remove_dir_all :: "string \<Rightarrow> ('f, bool, string) io"
  fs_create_dir_all :: "string \<Rightarrow> ('f, unit, string) io"
  fs_absolute :: "string \<Rightarrow> (string, string) result"

record IngestResult =
  ir_hash_hex :: string
  ir_size :: nat

datatype IngestError = Refused string | Failed string

record Validated =
  va_hash :: string
  va_size :: nat
  va_manifest :: TdfManifest
  va_outboard :: bytes
  va_file :: string

text \<open>The static counter \<open>NEXT\<close> is state beside the local store's.\<close>

record 'f staging_fs =
  sf_next :: "64 word"
  sf_fs :: 'f

definition on_fs :: "('f, 'a, 'e) io \<Rightarrow> ('f staging_fs, 'a, 'e) io" where
  "on_fs m st = (case m (sf_fs st) of (r, f) \<Rightarrow> (r, st\<lparr>sf_fs := f\<rparr>))"

definition scratch_path :: "string \<Rightarrow> string \<Rightarrow> 64 word \<Rightarrow> string" where
  "scratch_path dir h n = dir @ ''/'' @ h @ ''.'' @ show_nat (unat n) @ ''.tdf''"

definition scratch_file_new :: "string \<Rightarrow> string \<Rightarrow> ('f staging_fs, string, 'e) io" where
  "scratch_file_new dir h st = (Ok (scratch_path dir h (sf_next st)), st\<lparr>sf_next := sf_next st + 1\<rparr>)"

text \<open>Dropping a scratch file asks for its removal, whose failure is only logged.\<close>

definition scratch_file_drop :: "'f fs_store \<Rightarrow> string \<Rightarrow> 'f staging_fs \<Rightarrow> 'f staging_fs" where
  "scratch_file_drop fs path st = (if path = [] then st else st\<lparr>sf_fs := fs_remove_file fs path (sf_fs st)\<rparr>)"

text \<open>A task that opens the scratch file and works on it: \<open>join\<close> what a failed join is, \<open>refuse\<close>
  what an error of the task is.\<close>

definition blocking_on_file ::
  "'f fs_store \<Rightarrow> string \<Rightarrow> (tdf_reader \<Rightarrow> ('a, string) result) \<Rightarrow> string \<Rightarrow> (string \<Rightarrow> IngestError) \<Rightarrow>
   ('f staging_fs, 'a, IngestError) io" where
  "blocking_on_file fs path work what refuse =
     io_bind (io_map_err (\<lambda>e. Failed (what @ '' task failed: '' @ e)) (on_fs (fs_join fs))) (\<lambda>_.
     io_map_err refuse
       (io_bind (io_map_err (\<lambda>_. ''Failed to open '' @ path) (on_fs (fs_open fs path))) (\<lambda>reader.
          io_lift (work reader))))"

definition validate_exported ::
  "tdf_ext \<Rightarrow> bao \<Rightarrow> 'f fs_store \<Rightarrow> ValidationConfig \<Rightarrow> string \<Rightarrow> string \<Rightarrow> ('f staging_fs, Validated, IngestError) io" where
  "validate_exported e create_sized fs config h path =
     io_bind (io_map_err (\<lambda>_. Failed (''Failed to export blob to '' @ path)) (on_fs (fs_export fs h path))) (\<lambda>n.
     io_bind (blocking_on_file fs path (\<lambda>reader. validate_archive e reader n config) ''validation''
                (\<lambda>_. Refused ''Blob rejected by TDF validation'')) (\<lambda>manifest.
     io_bind (blocking_on_file fs path (\<lambda>reader. compute_outboard create_sized reader n h) ''outboard'' Failed) (\<lambda>outboard.
       io_return \<lparr>va_hash = h, va_size = n, va_manifest = manifest, va_outboard = outboard, va_file = path\<rparr>)))"

definition validate_from_store ::
  "tdf_ext \<Rightarrow> bao \<Rightarrow> 'f fs_store \<Rightarrow> ValidationConfig \<Rightarrow> string \<Rightarrow> string \<Rightarrow>
   ('f staging_fs, Validated option, IngestError) io" where
  "validate_from_store e create_sized fs config scratch_dir h st = (case on_fs (fs_observe fs h) st of
       (Err _, st) \<Rightarrow> (Ok None, st)
     | (Ok bitfield, st) \<Rightarrow>
         if check_blob_size (bf_size bitfield) config \<noteq> Ok () then (Err (Refused ''Blob refused before reading''), st)
         else if \<not> bf_complete bitfield then (Ok None, st)
         else (case scratch_file_new scratch_dir h st of
             (Err err, st) \<Rightarrow> (Err err, st)
           | (Ok path, st) \<Rightarrow>
               (case validate_exported e create_sized fs config h path st of
                  (Ok v, st) \<Rightarrow> (Ok (Some v), st)
                | (Err err, st) \<Rightarrow> (Err err, scratch_file_drop fs path st))))"


section \<open>Upload\<close>

text \<open>The manifest is written on a best-effort basis.\<close>

definition store_manifest :: "tdf_ext \<Rightarrow> 's s3_sdk \<Rightarrow> S3Client \<Rightarrow> string \<Rightarrow> TdfManifest \<Rightarrow> ('s, unit, IngestError) io" where
  "store_manifest e sdk c h manifest s = (case te_manifest_to_json e manifest of
       Ok json \<Rightarrow> (Ok (), snd (put_manifest sdk c h json s))
     | Err _ \<Rightarrow> (Ok (), s))"

definition upload :: "tdf_ext \<Rightarrow> 's s3_sdk \<Rightarrow> S3Client \<Rightarrow> Validated \<Rightarrow> ('s, IngestResult, IngestError) io" where
  "upload e sdk c v =
     (let h = va_hash v in
      io_bind (io_map_err (\<lambda>_. Failed ''Failed to upload outboard to S3'') (put_outboard sdk c h (va_outboard v))) (\<lambda>_.
      io_bind (io_map_err Failed (blob_size sdk c h)) (\<lambda>present.
      io_bind (if present \<noteq> None then io_return ()
               else io_map_err (\<lambda>_. Failed ''Failed to upload blob to S3'') (put_blob_file sdk c h (va_file v) (va_size v))) (\<lambda>_.
      io_bind (store_manifest e sdk c h (va_manifest v)) (\<lambda>_.
        io_return \<lparr>ir_hash_hex = h, ir_size = va_size v\<rparr>)))))"

text \<open>\<open>ingest_from_store\<close>, on the local store's state and the bucket's; \<open>validated\<close> is dropped when
  it returns.\<close>

definition ingest_from_store ::
  "tdf_ext \<Rightarrow> bao \<Rightarrow> 'f fs_store \<Rightarrow> 's s3_sdk \<Rightarrow> S3Client \<Rightarrow> ValidationConfig \<Rightarrow> string \<Rightarrow> string \<Rightarrow>
   ('f staging_fs \<times> 's, IngestResult option, IngestError) io" where
  "ingest_from_store e create_sized fs sdk c config scratch_dir h st =
     (case validate_from_store e create_sized fs config scratch_dir h (fst st) of
        (Err err, f) \<Rightarrow> (Err err, (f, snd st))
      | (Ok None, f) \<Rightarrow> (Ok None, (f, snd st))
      | (Ok (Some v), f) \<Rightarrow>
          (case upload e sdk c v (snd st) of (r, s) \<Rightarrow>
             (and_then r (\<lambda>x. Ok (Some x)), (scratch_file_drop fs (va_file v) f, s))))"

definition prepare_scratch_dir :: "'f fs_store \<Rightarrow> string \<Rightarrow> ('f, string, string) io" where
  "prepare_scratch_dir fs data_dir =
     io_bind (io_lift (map_err (\<lambda>_. ''Failed to resolve the ingest scratch directory'')
                (fs_absolute fs (data_dir @ ''/ingest'')))) (\<lambda>dir.
     io_bind (io_map_err (\<lambda>_. ''Failed to empty '' @ dir) (fs_remove_dir_all fs dir)) (\<lambda>_.
     io_bind (io_map_err (\<lambda>_. ''Failed to create '' @ dir) (fs_create_dir_all fs dir)) (\<lambda>_.
       io_return dir)))"


section \<open>What an upload leaves in the bucket\<close>

lemma snd_store_manifest:
  "snd (store_manifest e sdk c h m s) = s \<or> (\<exists>json. snd (store_manifest e sdk c h m s) = snd (put_manifest sdk c h json s))"
  by (cases "te_manifest_to_json e m") (auto simp: store_manifest_def)

text \<open>\<open>stored_at key P objs objs'\<close>: at most the object at \<open>key\<close> changed, to one that satisfies \<open>P\<close>.\<close>

definition stored_at ::
  "string \<Rightarrow> (s3_object \<Rightarrow> bool) \<Rightarrow> (string \<Rightarrow> s3_object option) \<Rightarrow> (string \<Rightarrow> s3_object option) \<Rightarrow> bool" where
  "stored_at key P objs objs' \<longleftrightarrow> objs' = objs \<or> (\<exists>ob. objs' = objs(key \<mapsto> ob) \<and> P ob)"

lemma stored_at_other: "stored_at key P objs objs' \<Longrightarrow> key' \<noteq> key \<Longrightarrow> objs' key' = objs key'"
  by (auto simp: stored_at_def)

lemma stored_at_present: "stored_at key P objs objs' \<Longrightarrow> objs key' \<noteq> None \<Longrightarrow> objs' key' \<noteq> None"
  by (auto simp: stored_at_def)

lemma put_blob_file_cases:
  assumes "put_blob_file sdk c h path n s = (r, t)"
  obtains "r \<noteq> Ok ()" "t = s"
    | bd what req where "sdk_file sdk path n = Ok bd" "with_context what (sdk_put sdk (sc_bucket c) req) s = (r, t)"
        "po_body req = bd" "po_key req = blob_key c h"
proof (cases "sdk_file sdk path n")
  case (Ok bd)
  show ?thesis
  proof (cases "in_i64 (int n)")
    case True
    show ?thesis
      by (rule that(2)[OF Ok, of "''Failed to PUT blob to S3''" "(put_request (blob_key c h) [])\<lparr>po_content_length := Some (int n),
            po_body := bd, po_checksum_when_required := True\<rparr>"])
        (use assms Ok True in \<open>simp_all add: put_blob_file_def io_bind_def io_lift_def put_request_def\<close>)
  qed (use assms Ok that(1) in \<open>auto simp: put_blob_file_def io_bind_def io_lift_def\<close>)
qed (use assms that(1) in \<open>auto simp: put_blob_file_def io_bind_def io_lift_def\<close>)

text \<open>The objects after the outboard (\<open>o1\<close>), after the blob (\<open>o2\<close>) and at the end.\<close>

definition upload_trace ::
  "S3Client \<Rightarrow> Validated \<Rightarrow> (IngestResult, IngestError) result \<Rightarrow> (string \<Rightarrow> s3_object option) \<Rightarrow>
   (string \<Rightarrow> s3_object option) \<Rightarrow> (string \<Rightarrow> s3_object option) \<Rightarrow> (string \<Rightarrow> s3_object option) \<Rightarrow> bool" where
  "upload_trace c v r objs o1 o2 objs' \<longleftrightarrow>
    stored_at (outboard_key c (va_hash v)) (\<lambda>ob. ob_body ob = va_outboard v) objs o1 \<and>
    stored_at (blob_key c (va_hash v)) (\<lambda>ob. length (ob_body ob) = va_size v) o1 o2 \<and>
    (o1 (blob_key c (va_hash v)) \<noteq> None \<longrightarrow> o2 = o1) \<and> stored_at (manifest_key c (va_hash v)) (\<lambda>ob. True) o2 objs' \<and>
    (o2 \<noteq> o1 \<or> is_ok r \<longrightarrow> (\<exists>ob. o1 (outboard_key c (va_hash v)) = Some ob \<and> ob_body ob = va_outboard v)) \<and>
    (is_ok r \<longrightarrow> o2 (blob_key c (va_hash v)) \<noteq> None \<and> r = Ok \<lparr>ir_hash_hex = va_hash v, ir_size = va_size v\<rparr>)"

lemma upload_cases:
  assumes "upload e sdk c v s = (r, t)" "put_outboard sdk c (va_hash v) (va_outboard v) s = (r1, s1)"
    "blob_size sdk c (va_hash v) s1 = (r2, s2)" "put_blob_file sdk c (va_hash v) (va_file v) (va_size v) s2 = (r3, s3)"
  obtains "\<not> is_ok r" "t = s1 \<or> t = s2"
    | n where "r1 = Ok ()" "r2 = Ok (Some n)" "t = snd (store_manifest e sdk c (va_hash v) (va_manifest v) s2)"
        "r = Ok \<lparr>ir_hash_hex = va_hash v, ir_size = va_size v\<rparr>"
    | "r1 = Ok ()" "r2 = Ok None" "\<not> is_ok r" "t = s3"
    | "r1 = Ok ()" "r2 = Ok None" "r3 = Ok ()" "t = snd (store_manifest e sdk c (va_hash v) (va_manifest v) s3)"
        "r = Ok \<lparr>ir_hash_hex = va_hash v, ir_size = va_size v\<rparr>"
proof -
  note unf = upload_def io_bind_def io_map_err_def io_lift_def Let_def
  have fst_ok: "fst (store_manifest e sdk c (va_hash v) (va_manifest v) x) = Ok ()"
    for x by (simp add: store_manifest_def split: result.splits)
  define mf where "mf x = snd (store_manifest e sdk c (va_hash v) (va_manifest v) x)" for x
  then have ok: "store_manifest e sdk c (va_hash v) (va_manifest v) = (\<lambda>x. (Ok (), mf x))"
    using fst_ok by (simp add: fun_eq_iff prod_eq_iff)
  show thesis
  proof (cases r1)
    case (Err e)
    then show thesis using that(1) assms by (auto simp: unf)
  next
    case r1: (Ok u)
    show thesis
    proof (cases r2)
      case (Err e)
      then show thesis using that(1) assms r1 by (auto simp: unf)
    next
      case r2: (Ok present)
      show thesis
      proof (cases present)
        case (Some n)
        with r1 r2 assms ok show thesis by (intro that(2)[of n]) (simp_all add: unf)
      next
        case None
        show thesis
        proof (cases r3)
          case (Ok u')
          with r1 r2 None assms ok show thesis by (intro that(4)) (simp_all add: unf)
        next
          case (Err e)
          with r1 r2 None assms show thesis by (intro that(3)) (auto simp: unf)
        qed
      qed
    qed
  qed
qed

context s3_bucket
begin

lemma put_outboard_stores:
  assumes "put_outboard sdk c h d s = (r, t)"
  shows "stored_at (outboard_key c h) (\<lambda>ob. ob_body ob = d) (objects s) (objects t)"
    and "r = Ok () \<Longrightarrow> \<exists>ob. objects t (outboard_key c h) = Some ob \<and> ob_body ob = d"
proof -
  note * = put_with_context[OF assms[unfolded put_outboard_def put_request_def], simplified]
  show "stored_at (outboard_key c h) (\<lambda>ob. ob_body ob = d) (objects s) (objects t)" using * unfolding stored_at_def by blast
  show "\<exists>ob. objects t (outboard_key c h) = Some ob \<and> ob_body ob = d" if "r = Ok ()" using * that by auto
qed

lemma put_manifest_stores: "stored_at (manifest_key c h) (\<lambda>ob. True) (objects s) (objects (snd (put_manifest sdk c h d s)))"
proof -
  obtain r t where rt: "put_manifest sdk c h d s = (r, t)" by fastforce
  show ?thesis using put_with_context[OF rt[unfolded put_manifest_def put_request_def], simplified] rt
    unfolding stored_at_def by auto
qed

lemma put_blob_file_stores:
  assumes "put_blob_file sdk c h path n s = (r, t)"
  shows "stored_at (blob_key c h) (\<lambda>ob. length (ob_body ob) = n) (objects s) (objects t)"
    and "r = Ok () \<Longrightarrow> \<exists>ob. objects t (blob_key c h) = Some ob \<and> length (ob_body ob) = n"
proof -
  have "r \<noteq> Ok () \<and> objects t = objects s \<or> (\<exists>ob. objects t = (objects s)(blob_key c h \<mapsto> ob) \<and> length (ob_body ob) = n)"
    using assms
  proof (cases rule: put_blob_file_cases)
    case (2 bd what req)
    from put_with_context[OF 2(2)] 2 file_length[OF 2(1)] show ?thesis by auto
  qed simp
  then show "stored_at (blob_key c h) (\<lambda>ob. length (ob_body ob) = n) (objects s) (objects t)"
    and "r = Ok () \<Longrightarrow> \<exists>ob. objects t (blob_key c h) = Some ob \<and> length (ob_body ob) = n"
    by (auto simp: stored_at_def)
qed

lemma blob_size_Ok:
  assumes "blob_size sdk c h s = (Ok r, t)"
  shows "objects t = objects s" "(r = None) = (objects s (blob_key c h) = None)"
  using head_unless_missing[OF assms[unfolded blob_size_def]] by (auto split: option.splits)

lemma blob_size_keeps: "objects (snd (blob_size sdk c h s)) = objects s"
  by (simp add: blob_size_def snd_unless_missing read_objects)

lemma store_manifest_stores:
  "stored_at (manifest_key c h) (\<lambda>ob. True) (objects s) (objects (snd (store_manifest e sdk c h m s)))"
proof (cases "te_manifest_to_json e m")
  case (Ok json)
  then show ?thesis using put_manifest_stores[of h s json] by (simp add: store_manifest_def)
qed (simp add: store_manifest_def stored_at_def)

lemma upload_effect:
  assumes "upload e sdk c v s = (r, t)"
  shows "\<exists>o1 o2. upload_trace c v r (objects s) o1 o2 (objects t)"
proof -
  let ?h = "va_hash v"
  let ?m = "\<lambda>x. snd (store_manifest e sdk c ?h (va_manifest v) x)"
  obtain r1 s1 where e1: "put_outboard sdk c ?h (va_outboard v) s = (r1, s1)" by fastforce
  note st1 = put_outboard_stores[OF e1]
  obtain r2 s2 where e2: "blob_size sdk c ?h s1 = (r2, s2)" by fastforce
  have s2: "objects s2 = objects s1" using blob_size_keeps[of ?h s1] e2 by simp
  obtain r3 s3 where e3: "put_blob_file sdk c ?h (va_file v) (va_size v) s2 = (r3, s3)" by fastforce
  note st3 = put_blob_file_stores[OF e3, unfolded s2]
  have m: "stored_at (manifest_key c ?h) (\<lambda>ob. True) (objects x) (objects (?m x))" for x by (rule store_manifest_stores)
  have same: "stored_at key P x x" for key P x by (simp add: stored_at_def)
  have "upload_trace c v r (objects s) (objects s1) (objects s1) (objects t) \<or>
      upload_trace c v r (objects s) (objects s1) (objects s3) (objects t)"
    using assms e1 e2 e3
  proof (cases rule: upload_cases)
    case 1
    then have "objects t = objects s1" using s2 by auto
    with 1(1) st1(1) same show ?thesis by (simp add: upload_trace_def)
  next
    case (2 n)
    have "objects s1 (blob_key c ?h) \<noteq> None" using blob_size_Ok(2)[of ?h s1 "Some n" s2] 2(2) e2 by simp
    with st1(1) st1(2)[OF 2(1)] same m[of s2] 2(3,4) s2 show ?thesis by (simp add: upload_trace_def)
  next
    case 3
    have "objects s1 (blob_key c ?h) = None" using blob_size_Ok(2)[of ?h s1 None s2] 3(2) e2 by simp
    with st1(1) st1(2)[OF 3(1)] st3(1) same 3(3,4) show ?thesis by (simp add: upload_trace_def)
  next
    case 4
    have "objects s1 (blob_key c ?h) = None" using blob_size_Ok(2)[of ?h s1 None s2] 4(2) e2 by simp
    moreover have "objects s3 (blob_key c ?h) \<noteq> None" using st3(2)[OF 4(3)] by auto
    ultimately show ?thesis using st1(1) st1(2)[OF 4(1)] st3(1) m[of s3] 4(4,5) by (simp add: upload_trace_def)
  qed
  then show ?thesis by blast
qed

end

text \<open>What a successful upload stored.\<close>

lemma uploaded:
  assumes "s3_bucket sdk c objects ok evolves" and "upload e sdk c v s = (r, t)" and "is_ok r"
  shows "r = Ok \<lparr>ir_hash_hex = va_hash v, ir_size = va_size v\<rparr> \<and>
    (\<exists>ob. objects t (outboard_key c (va_hash v)) = Some ob \<and> ob_body ob = va_outboard v) \<and>
    (\<exists>b. objects t (blob_key c (va_hash v)) = Some b \<and>
       (objects s (blob_key c (va_hash v)) = None \<longrightarrow> length (ob_body b) = va_size v))"
proof -
  let ?h = "va_hash v"
  obtain o1 o2 where tr: "upload_trace c v r (objects s) o1 o2 (objects t)" using s3_bucket.upload_effect[OF assms(1,2)] by blast
  have "objects t (outboard_key c ?h) = o1 (outboard_key c ?h)" "objects t (blob_key c ?h) = o2 (blob_key c ?h)"
    "o1 (blob_key c ?h) = objects s (blob_key c ?h)"
    using tr by (auto simp: upload_trace_def stored_at_def key_defs)
  moreover obtain b where "o2 (blob_key c ?h) = Some b" using tr assms(3) by (auto simp: upload_trace_def)
  moreover have "o1 (blob_key c ?h) = None \<Longrightarrow> length (ob_body b) = va_size v"
    using tr \<open>o2 (blob_key c ?h) = Some b\<close> by (auto simp: upload_trace_def stored_at_def)
  ultimately show ?thesis using tr assms(3) by (auto simp: upload_trace_def)
qed

text \<open>C19: Whatever happens during an upload, a blob that is in S3 has its outboard there if it had before
  the upload or was absent: the outboard is written first. No object but the blob, its outboard and
  its manifest changes, an existing blob is left as it is, and when the upload succeeds the outboard
  stored is the one computed and the blob stored has the validated size unless it was there already.
  This holds in every bucket that keeps the contract of S3.\<close>

theorem upload_outboard_first:
  assumes "s3_bucket sdk c objects ok evolves" and "upload e sdk c v s = (r, t)"
  shows "(\<forall>h. (objects s (blob_key c h) \<noteq> None \<longrightarrow> objects s (outboard_key c h) \<noteq> None) \<longrightarrow>
        objects t (blob_key c h) \<noteq> None \<longrightarrow> objects t (outboard_key c h) \<noteq> None) \<and>
    (\<forall>key. key \<notin> {blob_key c (va_hash v), outboard_key c (va_hash v), manifest_key c (va_hash v)} \<longrightarrow>
        objects t key = objects s key) \<and>
    (objects s (blob_key c (va_hash v)) \<noteq> None \<longrightarrow> objects t (blob_key c (va_hash v)) = objects s (blob_key c (va_hash v))) \<and>
    (is_ok r \<longrightarrow> r = Ok \<lparr>ir_hash_hex = va_hash v, ir_size = va_size v\<rparr> \<and>
       (\<exists>ob. objects t (outboard_key c (va_hash v)) = Some ob \<and> ob_body ob = va_outboard v) \<and>
       (\<exists>b. objects t (blob_key c (va_hash v)) = Some b \<and>
          (objects s (blob_key c (va_hash v)) = None \<longrightarrow> length (ob_body b) = va_size v)))"
proof -
  let ?h = "va_hash v"
  have keys: "outboard_key c h \<noteq> blob_key c h'" "outboard_key c h \<noteq> manifest_key c h'" "blob_key c h \<noteq> manifest_key c h'"
    "(blob_key c h = blob_key c h') = (h = h')" "(outboard_key c h = outboard_key c h') = (h = h')"
    "(manifest_key c h = manifest_key c h') = (h = h')" for h h'
    by (simp_all add: key_defs)
  from s3_bucket.upload_effect[OF assms] obtain o1 o2 where tr: "upload_trace c v r (objects s) o1 o2 (objects t)" by blast
  then have
    o1: "stored_at (outboard_key c ?h) (\<lambda>ob. ob_body ob = va_outboard v) (objects s) o1" and
    o2: "stored_at (blob_key c ?h) (\<lambda>ob. length (ob_body ob) = va_size v) o1 o2" and
    absent: "o1 (blob_key c ?h) \<noteq> None \<longrightarrow> o2 = o1" and
    o3: "stored_at (manifest_key c ?h) (\<lambda>ob. True) o2 (objects t)" and
    ob: "o2 \<noteq> o1 \<or> is_ok r \<longrightarrow> (\<exists>ob. o1 (outboard_key c ?h) = Some ob \<and> ob_body ob = va_outboard v)" and
    done': "is_ok r \<longrightarrow> o2 (blob_key c ?h) \<noteq> None \<and> r = Ok \<lparr>ir_hash_hex = ?h, ir_size = va_size v\<rparr>"
    unfolding upload_trace_def by blast+
  have blob: "objects t (blob_key c h) = o2 (blob_key c h)" "o1 (blob_key c h) = objects s (blob_key c h)"
    and outboard: "objects t (outboard_key c h) = o1 (outboard_key c h)" for h
    using stored_at_other[OF o1] stored_at_other[OF o2] stored_at_other[OF o3] keys by metis+
  have "objects t (outboard_key c h) \<noteq> None"
    if "objects s (blob_key c h) \<noteq> None \<longrightarrow> objects s (outboard_key c h) \<noteq> None" "objects t (blob_key c h) \<noteq> None" for h
  proof (cases "objects s (blob_key c h) = None")
    case True
    with that(2) blob have "o2 \<noteq> o1" "o2 (blob_key c h) \<noteq> o1 (blob_key c h)" by auto
    with stored_at_other[OF o2] keys(4) have "h = ?h" by metis
    with ob \<open>o2 \<noteq> o1\<close> outboard show ?thesis by auto
  next
    case False
    with that(1) stored_at_present[OF o1] outboard show ?thesis by simp
  qed
  moreover have "objects t key = objects s key" if "key \<notin> {blob_key c ?h, outboard_key c ?h, manifest_key c ?h}" for key
    using that stored_at_other[OF o1] stored_at_other[OF o2] stored_at_other[OF o3] by simp
  moreover have "\<exists>b. objects t (blob_key c ?h) = Some b \<and>
      (objects s (blob_key c ?h) = None \<longrightarrow> length (ob_body b) = va_size v)" if "is_ok r"
    using that done' blob o2 by (auto simp: stored_at_def)
  moreover have "objects t (blob_key c ?h) = objects s (blob_key c ?h)" if "objects s (blob_key c ?h) \<noteq> None"
    using that absent blob by simp
  ultimately show ?thesis using ob done' outboard by auto
qed


section \<open>What is ingested\<close>

text \<open>What ingest relies on of the local store and the file system: an export writes the staged bytes to
  the path it is given, a file that opens reads as its bytes, and nothing else touches the files.\<close>

definition reads_as :: "tdf_reader \<Rightarrow> bytes \<Rightarrow> bool" where
  "reads_as rd d \<longleftrightarrow> (\<forall>n. rd_len rd = Ok n \<longrightarrow> n = length d) \<and>
     (\<forall>off n b. rd_read_at rd off n = Ok b \<longrightarrow> b = take n (drop off d))"

locale local_store =
  fixes fs :: "'f fs_store" and files :: "'f \<Rightarrow> string \<Rightarrow> bytes option" and staged :: "'f \<Rightarrow> string \<Rightarrow> bytes option"
  assumes observe_keeps: "files (snd (fs_observe fs h f)) = files f" "staged (snd (fs_observe fs h f)) = staged f"
    and export_writes: "fs_export fs h path f = (Ok n, f') \<Longrightarrow>
      \<exists>d. staged f h = Some d \<and> n = length d \<and> files f' = (files f)(path \<mapsto> d)"
    and export_only: "path' \<noteq> path \<Longrightarrow> files (snd (fs_export fs h path f)) path' = files f path'"
    and open_keeps: "files (snd (fs_open fs path f)) = files f"
    and open_reads: "fs_open fs path f = (Ok rd, f') \<Longrightarrow> \<exists>d. files f path = Some d \<and> reads_as rd d"
    and join_keeps: "files (snd (fs_join fs f)) = files f"
    and remove_removes: "files (fs_remove_file fs path f) = (files f)(path := None)"
begin

text \<open>A task on a scratch file works on its bytes and leaves the files as they are.\<close>

lemma blocking_on_file_spec:
  "files (sf_fs (snd (blocking_on_file fs path work what refuse st))) = files (sf_fs st)"
  "blocking_on_file fs path work what refuse st = (Ok x, st') \<Longrightarrow> files (sf_fs st) path = Some d \<Longrightarrow>
     \<exists>rd. reads_as rd d \<and> work rd = Ok x"
proof -
  obtain r1 f1 where 1: "fs_join fs (sf_fs st) = (r1, f1)" by fastforce
  obtain r2 f2 where 2: "fs_open fs path f1 = (r2, f2)" by fastforce
  have f1: "files f1 = files (sf_fs st)" using join_keeps[of "sf_fs st"] 1 by simp
  have f2: "files f2 = files (sf_fs st)" using open_keeps[of path f1] 2 f1 by simp
  note unf = blocking_on_file_def io_bind_def io_map_err_def io_lift_def on_fs_def 1 2
  show "files (sf_fs (snd (blocking_on_file fs path work what refuse st))) = files (sf_fs st)"
    by (cases r1; cases r2) (simp_all add: unf f1 f2)
  assume ok: "blocking_on_file fs path work what refuse st = (Ok x, st')" and d: "files (sf_fs st) path = Some d"
  from ok obtain rd where "r2 = Ok rd" "work rd = Ok x" by (cases r1; cases r2) (auto simp: unf result_simps)
  with open_reads[of path f1 rd f2] 2 d f1 show "\<exists>rd. reads_as rd d \<and> work rd = Ok x" by auto
qed

lemma validate_exported_files:
  "path' \<noteq> path \<Longrightarrow> files (sf_fs (snd (validate_exported e create_sized fs config h path st))) path' = files (sf_fs st) path'"
proof -
  assume p: "path' \<noteq> path"
  have keep: "keeps (\<lambda>st'. files (sf_fs st') path' = files (sf_fs st) path') (blocking_on_file fs path work what refuse)"
    for work :: "tdf_reader \<Rightarrow> ('a, string) result" and what refuse
    by (rule keepsI) (simp add: blocking_on_file_spec(1))
  have "keeps (\<lambda>st'. files (sf_fs st') path' = files (sf_fs st) path') (on_fs (fs_export fs h path))"
    by (rule keepsI) (use export_only[OF p] in \<open>auto simp: on_fs_def split: prod.splits\<close>, metis snd_conv)
  then have "keeps (\<lambda>st'. files (sf_fs st') path' = files (sf_fs st) path') (validate_exported e create_sized fs config h path)"
    unfolding validate_exported_def by (intro keeps_intros keep)
  then show ?thesis by (rule keepsD) simp
qed

lemma validate_exported_Ok:
  assumes "validate_exported e create_sized fs config h path st = (Ok v, st')"
  shows "\<exists>d rd rd'. staged (sf_fs st) h = Some d \<and> reads_as rd d \<and> reads_as rd' d \<and>
    validate_archive e rd (length d) config = Ok (va_manifest v) \<and> create_sized rd' (length d) = Ok (h, va_outboard v) \<and>
    va_hash v = h \<and> va_size v = length d \<and> va_file v = path"
proof -
  from assms obtain n f1 manifest st2 outboard st3 where
    ex: "fs_export fs h path (sf_fs st) = (Ok n, f1)" and
    va: "blocking_on_file fs path (\<lambda>reader. validate_archive e reader n config) ''validation''
           (\<lambda>_. Refused ''Blob rejected by TDF validation'') (st\<lparr>sf_fs := f1\<rparr>) = (Ok manifest, st2)" and
    ob: "blocking_on_file fs path (\<lambda>reader. compute_outboard create_sized reader n h) ''outboard'' Failed st2 = (Ok outboard, st3)" and
    v: "v = \<lparr>va_hash = h, va_size = n, va_manifest = manifest, va_outboard = outboard, va_file = path\<rparr>"
    by (auto simp: validate_exported_def io_Ok_iffs on_fs_def split: prod.splits)
  from export_writes[OF ex] obtain d where d: "staged (sf_fs st) h = Some d" "n = length d" "files f1 path = Some d" by auto
  have st2: "files (sf_fs st2) path = Some d"
    using blocking_on_file_spec(1)[of path "\<lambda>reader. validate_archive e reader n config" "''validation''"
        "\<lambda>_. Refused ''Blob rejected by TDF validation''" "st\<lparr>sf_fs := f1\<rparr>"] va d(3) by simp
  from blocking_on_file_spec(2)[OF va, of d] d(3) obtain rd where rd: "reads_as rd d" "validate_archive e rd n config = Ok manifest"
    by auto
  from blocking_on_file_spec(2)[OF ob st2] obtain rd' where rd': "reads_as rd' d" "compute_outboard create_sized rd' n h = Ok outboard"
    by auto
  then have "create_sized rd' n = Ok (h, outboard)"
    by (auto simp: compute_outboard_def result_simps split: if_splits)
  with rd rd'(1) d v show ?thesis by auto
qed

text \<open>\<open>blob_validated\<close>: the staged blob passed validation and its outboard has the hash as its root.\<close>

lemma validate_from_store_spec:
  assumes "validate_from_store e create_sized fs config dir h st = (r, st')"
  shows "path \<noteq> scratch_path dir h (sf_next st) \<Longrightarrow> files (sf_fs st') path = files (sf_fs st) path"
    and "r = Ok (Some v) \<Longrightarrow> va_file v = scratch_path dir h (sf_next st) \<and> (\<exists>d rd rd'. staged (sf_fs st) h = Some d \<and>
      reads_as rd d \<and> reads_as rd' d \<and> validate_archive e rd (length d) config = Ok (va_manifest v) \<and>
      create_sized rd' (length d) = Ok (h, va_outboard v) \<and> va_hash v = h \<and> va_size v = length d)"
    and "(\<And>v. r \<noteq> Ok (Some v)) \<Longrightarrow> files (sf_fs st') path = None \<or> files (sf_fs st') path = files (sf_fs st) path"
proof -
  let ?path = "scratch_path dir h (sf_next st)"
  obtain ob f1 where 1: "fs_observe fs h (sf_fs st) = (ob, f1)" by fastforce
  have f1: "files f1 = files (sf_fs st)" "staged f1 = staged (sf_fs st)" using observe_keeps[of h "sf_fs st"] 1 by simp_all
  let ?st = "st\<lparr>sf_fs := f1, sf_next := sf_next st + 1\<rparr>"
  obtain rv st2 where 2: "validate_exported e create_sized fs config h ?path ?st = (rv, st2)" by fastforce
  have st2: "p \<noteq> ?path \<Longrightarrow> files (sf_fs st2) p = files (sf_fs st) p" for p
    using validate_exported_files[of p ?path e create_sized config h ?st] 2 f1 by simp
  consider (early) "\<And>v. r \<noteq> Ok (Some v)" "sf_fs st' = f1"
    | (valid) w where "rv = Ok w" "r = Ok (Some w)" "st' = st2"
    | (refused) err where "rv = Err err" "r = Err err" "st' = scratch_file_drop fs ?path st2"
    using assms 2 by (cases ob; cases rv)
      (auto simp: validate_from_store_def on_fs_def 1 scratch_file_new_def split: if_splits)
  note cases = this
  have drop: "files (sf_fs (scratch_file_drop fs ?path st2)) = (files (sf_fs st2))(?path := None)"
    by (simp add: scratch_file_drop_def remove_removes scratch_path_def)
  show "files (sf_fs st') path = files (sf_fs st) path" if "path \<noteq> ?path"
    using cases by cases (simp_all add: f1 st2[OF that] drop that)
  show "va_file v = ?path \<and> (\<exists>d rd rd'. staged (sf_fs st) h = Some d \<and>
      reads_as rd d \<and> reads_as rd' d \<and> validate_archive e rd (length d) config = Ok (va_manifest v) \<and>
      create_sized rd' (length d) = Ok (h, va_outboard v) \<and> va_hash v = h \<and> va_size v = length d)" if "r = Ok (Some v)"
    using cases
  proof cases
    case (valid w)
    with that have "validate_exported e create_sized fs config h ?path ?st = (Ok v, st2)" using 2 by simp
    from validate_exported_Ok[OF this] f1(2) show ?thesis by auto
  qed (use that in auto)
  show "files (sf_fs st') path = None \<or> files (sf_fs st') path = files (sf_fs st) path" if "\<And>v. r \<noteq> Ok (Some v)"
    using cases that st2[of path] f1(1) drop by cases auto
qed

end



section \<open>A sample ingest\<close>

text \<open>A local store in memory, which keeps the contract.\<close>

record mem_fs =
  mf_blobs :: "(string, bytes) table"
  mf_files :: "(string, bytes) table"

definition mem_fs_store :: "mem_fs fs_store" where
  "mem_fs_store =
     \<lparr>fs_observe = (\<lambda>h f. (case tget (mf_blobs f) h of None \<Rightarrow> Err ''no entry''
        | Some d \<Rightarrow> Ok \<lparr>bf_size = length d, bf_complete = True\<rparr>, f)),
      fs_export = (\<lambda>h path f. case tget (mf_blobs f) h of None \<Rightarrow> (Err ''no entry'', f)
        | Some d \<Rightarrow> (Ok (length d), f\<lparr>mf_files := tinsert path d (mf_files f)\<rparr>)),
      fs_open = (\<lambda>path f. (case tget (mf_files f) path of None \<Rightarrow> Err ''not found'' | Some d \<Rightarrow> Ok (cursor d), f)),
      fs_join = io_return (),
      fs_remove_file = (\<lambda>path f. f\<lparr>mf_files := tremove path (mf_files f)\<rparr>),
      fs_remove_dir_all = (\<lambda>dir. io_return True), fs_create_dir_all = (\<lambda>dir. io_return ()), fs_absolute = Ok\<rparr>"

lemma reads_as_cursor [simp]: "reads_as (cursor d) d"
  by (simp add: reads_as_def cursor_def)

interpretation mf: local_store mem_fs_store "\<lambda>f. tget (mf_files f)" "\<lambda>f. tget (mf_blobs f)"
  by unfold_locales
    (auto simp: mem_fs_store_def io_defs fun_eq_iff table_simps split: option.splits if_splits)

definition sample_bao :: bao where
  "sample_bao rd n = Ok (''h'', ''tree'')"

definition sample_fs :: "mem_fs staging_fs" where
  "sample_fs = \<lparr>sf_next = 0, sf_fs = \<lparr>mf_blobs = [(''h'', ''xyz'')], mf_files = []\<rparr>\<rparr>"

definition sample_client :: S3Client where
  "sample_client = \<lparr>sc_bucket = ''b'', sc_prefix = ''p/''\<rparr>"

definition sample_validated :: Validated where
  "sample_validated = \<lparr>va_hash = ''h'', va_size = 3, va_manifest = sample_manifest, va_outboard = ''tree'', va_file = ''d/h.0.tdf''\<rparr>"

lemma sample_upload: "fst (upload sample_tdf_ext mem_bucket_sdk sample_client sample_validated []) = Ok \<lparr>ir_hash_hex = ''h'', ir_size = 3\<rparr>"
  by (simp add: upload_def sample_validated_def Let_def io_defs put_outboard_def with_context_def blob_size_def unless_missing_def
      mem_put_def put_request_def mem_bucket_sdk_def key_defs sample_client_def no_object_def table_simps put_blob_file_def
      in_i64_def store_manifest_def sample_tdf_ext_def)

lemma sample_validate_from_store:
  "\<exists>f'. validate_from_store sample_tdf_ext sample_bao mem_fs_store sample_validation ''d'' ''h'' sample_fs = (Ok (Some sample_validated), f')"
proof -
  have "show_nat 0 = ''0''" by code_simp
  then have "scratch_path ''d'' ''h'' 0 = ''d/h.0.tdf''" by (simp add: scratch_path_def)
  then show ?thesis
    by (simp add: validate_from_store_def on_fs_def mem_fs_store_def sample_fs_def check_blob_size_def sample_validation_def
        scratch_file_new_def validate_exported_def blocking_on_file_def io_defs table_simps
        sample_validate_archive[unfolded sample_validation_def numeral_3_eq_3] numeral_3_eq_3 compute_outboard_def sample_bao_def sample_validated_def)
qed

lemma sample_ingest:
  "fst (ingest_from_store sample_tdf_ext sample_bao mem_fs_store mem_bucket_sdk sample_client sample_validation ''d'' ''h''
      (sample_fs, [])) = Ok (Some \<lparr>ir_hash_hex = ''h'', ir_size = 3\<rparr>)"
  using sample_validate_from_store sample_upload
  by (auto simp: ingest_from_store_def split: prod.splits)


theorem upload_outboard_first_witness:
  "\<exists>ob. tget (snd (upload sample_tdf_ext mem_bucket_sdk sample_client sample_validated [])) (outboard_key sample_client ''h'')
      = Some ob \<and> ob_body ob = ''tree''"
proof -
  obtain t where "upload sample_tdf_ext mem_bucket_sdk sample_client sample_validated [] = (Ok \<lparr>ir_hash_hex = ''h'', ir_size = 3\<rparr>, t)"
    using sample_upload by (metis prod.collapse)
  with upload_outboard_first[OF mb.s3_bucket_axioms this] show ?thesis by (simp add: sample_validated_def)
qed

end
