(* ===== verification/Creator_Catalog.thy ===== *)
theory Creator_Catalog
  imports Json
begin

text \<open>
  The clear entry list of a creator catalog and the small validators the catalog code shares
  (\<open>src/creator_catalog.rs\<close>). Decoding one entry from JSON (\<open>serde_json::from_value\<close>) is a
  parameter; a JSON syntax tree keeps repeated keys, so that refusing them is a function here.
\<close>

definition MAX_CATALOG_BYTES :: nat where "MAX_CATALOG_BYTES = 4 * 1024 * 1024"
definition MAX_ENTRIES :: nat where "MAX_ENTRIES = 1000"
definition MAX_OWNER_BYTES :: nat where "MAX_OWNER_BYTES = 248"
definition MAX_CONTENT_ID_BYTES :: nat where "MAX_CONTENT_ID_BYTES = 256"
definition MAX_VERSION :: nat where "MAX_VERSION = 9007199254740991"
definition MAX_PAYLOAD_SIZE :: nat where "MAX_PAYLOAD_SIZE = 4294967295"

record CreatorCatalogEntry =
  en_content_id :: string
  en_version :: nat
  en_payload_hash :: string
  en_payload_size :: nat

definition identifier_char :: "char \<Rightarrow> bool" where
  "identifier_char b \<longleftrightarrow> is_ascii_alphanumeric b \<or> b \<in> set '':._@-''"

definition valid_identifier :: "string \<Rightarrow> nat \<Rightarrow> bool" where
  "valid_identifier s mx \<longleftrightarrow> 1 \<le> length s \<and> length s \<le> mx \<and> s \<noteq> ''.'' \<and> \<not> str_contains ''..'' s \<and>
     list_all identifier_char s"

definition is_lower_hex_hash :: "string \<Rightarrow> bool" where
  "is_lower_hex_hash s \<longleftrightarrow> length s = 64 \<and> list_all is_lower_hexdigit s"

definition catalog_entry ::
  "(json \<Rightarrow> (CreatorCatalogEntry, string) result) \<Rightarrow> json \<Rightarrow> (CreatorCatalogEntry, string) result" where
  "catalog_entry from_value raw =
     and_then (from_value raw) (\<lambda>e.
       if \<not> valid_identifier (en_content_id e) MAX_CONTENT_ID_BYTES
       then Err ''contentID must be 1-256 bytes of [A-Za-z0-9:._@-] without \"..\"''
       else if \<not> (1 \<le> en_version e \<and> en_version e \<le> MAX_VERSION)
       then Err ''version must be an integer from 1 to 9007199254740991''
       else if \<not> is_lower_hex_hash (en_payload_hash e)
       then Err ''payloadHash must be 64 lowercase hex characters''
       else if \<not> (1 \<le> en_payload_size e \<and> en_payload_size e \<le> MAX_PAYLOAD_SIZE)
       then Err ''payloadSize must be an integer from 1 to 4294967295''
       else Ok e)"

text \<open>The loop of \<open>parse_index\<close>: \<open>i\<close> is the next index, \<open>ids\<close> the content ids seen and where.\<close>

fun index_entries ::
  "(json \<Rightarrow> (CreatorCatalogEntry, string) result) \<Rightarrow> json list \<Rightarrow> nat \<Rightarrow> (string, nat) table \<Rightarrow>
   (CreatorCatalogEntry list, string) result" where
  "index_entries from_value [] i ids = Ok []"
| "index_entries from_value (raw # rest) i ids =
     and_then (map_err (\<lambda>reason. ''entries['' @ show_nat i @ ''].'' @ reason) (catalog_entry from_value raw)) (\<lambda>e.
       case tget ids (en_content_id e) of
         Some first \<Rightarrow> Err (''entries['' @ show_nat i @ ''].contentID duplicates entries['' @ show_nat first @ ''].contentID'')
       | None \<Rightarrow>
           and_then (index_entries from_value rest (i + 1) (tinsert (en_content_id e) i ids)) (\<lambda>es. Ok (e # es)))"

definition parse_index ::
  "(json \<Rightarrow> (CreatorCatalogEntry, string) result) \<Rightarrow> json \<Rightarrow> (CreatorCatalogEntry list, string) result" where
  "parse_index from_value index = (case json_as_array index of
       None \<Rightarrow> Err ''must be an array of at most 1000 entries''
     | Some raw \<Rightarrow>
         if length raw > MAX_ENTRIES then Err ''must be an array of at most 1000 entries''
         else index_entries from_value raw 0 [])"


section \<open>Timestamps\<close>

definition timestamp_shape :: "string \<Rightarrow> bool" where
  "timestamp_shape b \<longleftrightarrow> list_all (\<lambda>(i, c).
     if i = 4 \<or> i = 7 then c = CHR ''-''
     else if i = 10 then c = CHR ''T''
     else if i = 13 \<or> i = 16 then c = CHR '':''
     else if i = 19 then c = CHR ''Z''
     else is_ascii_digit c) (enumerate 0 b)"

definition timestamp_num :: "string \<Rightarrow> nat \<Rightarrow> nat \<Rightarrow> nat" where
  "timestamp_num b start stop =
     foldl (\<lambda>n c. n * 10 + (byte_of c - 48)) 0 (take (stop - start) (drop start b))"

definition days_in_month :: "nat \<Rightarrow> nat \<Rightarrow> nat option" where
  "days_in_month year month =
     (let leap = (year mod 4 = 0 \<and> year mod 100 \<noteq> 0) \<or> year mod 400 = 0 in
      if month \<in> {1, 3, 5, 7, 8, 10, 12} then Some 31
      else if month \<in> {4, 6, 9, 11} then Some 30
      else if month = 2 \<and> leap then Some 29
      else if month = 2 then Some 28
      else None)"

definition is_utc_timestamp :: "string \<Rightarrow> bool" where
  "is_utc_timestamp b =
     (if length b \<noteq> 20 then False
      else if \<not> timestamp_shape b then False
      else let year = timestamp_num b 0 4; month = timestamp_num b 5 7; day = timestamp_num b 8 10;
               hour = timestamp_num b 11 13; minute = timestamp_num b 14 16; second = timestamp_num b 17 19 in
        (case days_in_month year month of
           None \<Rightarrow> False
         | Some days \<Rightarrow> 1 \<le> day \<and> day \<le> days \<and> hour \<le> 23 \<and> minute \<le> 59 \<and> second \<le> 59))"


section \<open>Repeated keys\<close>

text \<open>The visitor of \<open>NoDuplicateKeys\<close>, over a syntax tree whose objects list their members as written.\<close>

fun no_duplicate_keys :: "json \<Rightarrow> (unit, string) result"
  and visit_seq :: "json list \<Rightarrow> (unit, string) result"
  and visit_map :: "(string \<times> json) list \<Rightarrow> string list \<Rightarrow> (unit, string) result" where
  "no_duplicate_keys JNull = Ok ()"
| "no_duplicate_keys (JBool b) = Ok ()"
| "no_duplicate_keys (JInt n) = Ok ()"
| "no_duplicate_keys (JFloat f) = Ok ()"
| "no_duplicate_keys (JString s) = Ok ()"
| "no_duplicate_keys (JArray a) = visit_seq a"
| "no_duplicate_keys (JObject m) = visit_map m []"
| "visit_seq [] = Ok ()"
| "visit_seq (v # vs) = and_then (no_duplicate_keys v) (\<lambda>_. visit_seq vs)"
| "visit_map [] seen = Ok ()"
| "visit_map ((k, v) # m) seen =
     (if k \<in> set seen then Err (''duplicate key `'' @ k @ ''`'')
      else and_then (no_duplicate_keys v) (\<lambda>_. visit_map m (k # seen)))"


section \<open>Lemmas\<close>

lemma catalog_entry_Ok:
  "catalog_entry from_value raw = Ok e \<longleftrightarrow>
   from_value raw = Ok e \<and> valid_identifier (en_content_id e) 256 \<and>
   1 \<le> en_version e \<and> en_version e \<le> MAX_VERSION \<and> is_lower_hex_hash (en_payload_hash e) \<and>
   1 \<le> en_payload_size e \<and> en_payload_size e \<le> MAX_PAYLOAD_SIZE"
  by (auto simp: catalog_entry_def result_simps MAX_CONTENT_ID_BYTES_def split: if_splits)

lemma index_entries_Ok:
  "index_entries from_value raw i ids = Ok es \<longleftrightarrow>
   list_all2 (\<lambda>r e. catalog_entry from_value r = Ok e) raw es \<and>
   distinct (map en_content_id es) \<and> (\<forall>e\<in>set es. tget ids (en_content_id e) = None)"
proof (induction from_value raw i ids arbitrary: es rule: index_entries.induct)
  case (2 from_value raw rest i ids)
  show ?case
  proof (cases "catalog_entry from_value raw")
    case (Ok e)
    show ?thesis
    proof (cases "tget ids (en_content_id e)")
      case None
      have fresh: "(if en_content_id x = en_content_id e then Some i else tget ids (en_content_id x)) = None \<longleftrightarrow>
          en_content_id x \<noteq> en_content_id e \<and> tget ids (en_content_id x) = None" for x by simp
      from None Ok "2.IH"[of e] show ?thesis
        by (cases es) (auto simp: result_simps table_simps list_all2_Cons1 fresh image_iff)
    qed (use Ok in \<open>cases es; auto simp: list_all2_Cons1\<close>)
  qed (cases es; auto simp: list_all2_Cons1)
qed (auto)

text \<open>An index is accepted exactly when it is an array of at most 1000 elements, each decoding
  to an entry with a safe content id, a version and a size in range and a lowercase hash, and no
  content id is used twice; the result lists the entries in order.\<close>

theorem parse_index_accepts_iff:
  "parse_index from_value index = Ok es \<longleftrightarrow>
   (\<exists>raw. index = JArray raw \<and> length raw \<le> 1000 \<and> distinct (map en_content_id es) \<and>
      list_all2 (\<lambda>r e. from_value r = Ok e \<and> valid_identifier (en_content_id e) 256 \<and>
        1 \<le> en_version e \<and> en_version e \<le> MAX_VERSION \<and> is_lower_hex_hash (en_payload_hash e) \<and>
        1 \<le> en_payload_size e \<and> en_payload_size e \<le> MAX_PAYLOAD_SIZE) raw es)"
  by (cases index)
    (auto simp: parse_index_def index_entries_Ok catalog_entry_Ok MAX_ENTRIES_def)

lemma valid_identifier_no_traversal:
  "valid_identifier s mx \<Longrightarrow> CHR ''/'' \<notin> set s \<and> \<not> str_contains ''..'' s \<and> s \<noteq> []"
  by (auto simp: valid_identifier_def identifier_char_def ascii_defs list_all_iff)

fun distinct_keys :: "json \<Rightarrow> bool" where
  "distinct_keys (JArray a) = list_all distinct_keys a"
| "distinct_keys (JObject m) = (distinct (map fst m) \<and> list_all (\<lambda>(_, v). distinct_keys v) m)"
| "distinct_keys _ = True"

lemma no_duplicate_keys_iff:
  "no_duplicate_keys v = Ok () \<longleftrightarrow> distinct_keys v"
  "visit_seq vs = Ok () \<longleftrightarrow> list_all distinct_keys vs"
  "visit_map m seen = Ok () \<longleftrightarrow>
     distinct (map fst m) \<and> set (map fst m) \<inter> set seen = {} \<and> list_all (\<lambda>(_, v). distinct_keys v) m"
proof (induction v and vs and m seen rule: no_duplicate_keys_visit_seq_visit_map.induct)
  case (9 v vs)
  then show ?case by (auto simp: result_simps)
next
  case (11 k v m seen)
  then show ?case by (auto simp: result_simps)
qed auto

text \<open>The duplicate-key check accepts a document exactly when no object in it, at any depth,
  repeats a key.\<close>

theorem no_duplicate_keys_spec: "no_duplicate_keys v = Ok () \<longleftrightarrow> distinct_keys v"
  by (rule no_duplicate_keys_iff)



section \<open>The calendar\<close>

definition leap_year :: "nat \<Rightarrow> bool" where
  "leap_year y \<longleftrightarrow> 4 dvd y \<and> (100 dvd y \<longrightarrow> 400 dvd y)"

definition month_lengths :: "nat \<Rightarrow> nat list" where
  "month_lengths y = [31, if leap_year y then 29 else 28, 31, 30, 31, 30, 31, 31, 30, 31, 30, 31]"

definition fmt2 :: "nat \<Rightarrow> string" where
  "fmt2 n = [digit_char (n div 10), digit_char (n mod 10)]"

definition fmt4 :: "nat \<Rightarrow> string" where
  "fmt4 n = fmt2 (n div 100) @ fmt2 (n mod 100)"

definition fmt_timestamp :: "nat \<Rightarrow> nat \<Rightarrow> nat \<Rightarrow> nat \<Rightarrow> nat \<Rightarrow> nat \<Rightarrow> string" where
  "fmt_timestamp y mo d h mi se =
     fmt4 y @ ''-'' @ fmt2 mo @ ''-'' @ fmt2 d @ ''T'' @ fmt2 h @ '':'' @ fmt2 mi @ '':'' @ fmt2 se @ ''Z''"

lemma leap_year_rust: "(y mod 4 = 0 \<and> y mod 100 \<noteq> 0) \<or> y mod 400 = 0 \<longleftrightarrow> leap_year (y::nat)"
  unfolding leap_year_def by presburger

lemma days_in_month_calendar:
  "days_in_month y m = (if 1 \<le> m \<and> m \<le> 12 then Some (month_lengths y ! (m - 1)) else None)"
proof -
  have "m \<in> {1, 2, 3, 4, 5, 6, 7, 8, 9, 10, 11, 12}" if "1 \<le> m" "m \<le> 12" using that by (simp; presburger)
  then show ?thesis
    unfolding days_in_month_def Let_def leap_year_rust
    by (cases "1 \<le> m \<and> m \<le> 12") (auto simp: month_lengths_def)
qed

definition digits_num :: "string \<Rightarrow> nat" where
  "digits_num cs = foldl (\<lambda>n c. n * 10 + (byte_of c - 48)) 0 cs"

lemma digit_char_of: "is_ascii_digit c \<Longrightarrow> digit_char (byte_of c - 48) = c \<and> byte_of c - 48 < 10"
  by (auto simp: ascii_defs digit_char_def)

lemma fmt2E:
  assumes "n < 100"
  obtains a b where "fmt2 n = [a, b]" "is_ascii_digit a" "is_ascii_digit b" "digits_num [a, b] = n"
proof (rule that)
  have "n div 10 < 10" "n mod 10 < 10" using assms by simp_all
  then show "is_ascii_digit (digit_char (n div 10))" "is_ascii_digit (digit_char (n mod 10))"
    "digits_num [digit_char (n div 10), digit_char (n mod 10)] = n"
    by (simp_all add: digits_num_def byte_of_digit_char)
qed (simp add: fmt2_def)

lemma fmt2_digits:
  assumes "is_ascii_digit a" "is_ascii_digit b"
  shows "fmt2 (digits_num [a, b]) = [a, b]" and "digits_num [a, b] < 100"
proof -
  note a = digit_char_of[OF assms(1)] and b = digit_char_of[OF assms(2)]
  define p q where "p = byte_of a - 48" and "q = byte_of b - 48"
  have n: "digits_num [a, b] = p * 10 + q" by (simp add: digits_num_def p_def q_def)
  have "(p * 10 + q) div 10 = p" "(p * 10 + q) mod 10 = q" using b by (simp_all add: q_def)
  with a b show "fmt2 (digits_num [a, b]) = [a, b]" by (simp add: n fmt2_def p_def[symmetric] q_def[symmetric])
  show "digits_num [a, b] < 100" using a b by (simp add: n p_def q_def)
qed

lemma digits_append4: "digits_num [a, b, c, d] = digits_num [a, b] * 100 + digits_num [c, d]"
  by (simp add: digits_num_def)

lemma fmt4_digits:
  assumes "is_ascii_digit a" "is_ascii_digit b" "is_ascii_digit c" "is_ascii_digit d"
  shows "fmt4 (digits_num [a, b, c, d]) = [a, b, c, d]" and "digits_num [a, b, c, d] < 10000"
  using fmt2_digits[OF assms(1,2)] fmt2_digits[OF assms(3,4)]
  by (simp_all add: digits_append4 fmt4_def)

lemma timestamp_20:
  fixes a b c d e f g h i j k l m n p q r t u v :: char
  defines "s \<equiv> [a, b, c, d, e, f, g, h, i, j, k, l, m, n, p, q, r, t, u, v]"
  shows "timestamp_num s 0 4 = digits_num [a, b, c, d]" "timestamp_num s 5 7 = digits_num [f, g]"
    "timestamp_num s 8 10 = digits_num [i, j]" "timestamp_num s 11 13 = digits_num [l, m]"
    "timestamp_num s 14 16 = digits_num [p, q]" "timestamp_num s 17 19 = digits_num [t, u]"
    "timestamp_shape s \<longleftrightarrow> list_all is_ascii_digit [a, b, c, d, f, g, i, j, l, m, p, q, t, u] \<and>
      e = CHR ''-'' \<and> h = CHR ''-'' \<and> k = CHR ''T'' \<and> n = CHR '':'' \<and> r = CHR '':'' \<and> v = CHR ''Z''"
  by (auto simp: s_def timestamp_num_def digits_num_def timestamp_shape_def)

lemma fmt_timestamp_num:
  assumes "y < 10000" "mo < 100" "d < 100" "h < 100" "mi < 100" "se < 100"
  defines "s \<equiv> fmt_timestamp y mo d h mi se"
  shows "length s = 20 \<and> timestamp_shape s \<and> timestamp_num s 0 4 = y \<and> timestamp_num s 5 7 = mo \<and>
    timestamp_num s 8 10 = d \<and> timestamp_num s 11 13 = h \<and> timestamp_num s 14 16 = mi \<and> timestamp_num s 17 19 = se"
proof -
  have "y div 100 < 100" "y mod 100 < 100" using assms(1) by simp_all
  then obtain y1 y2 y3 y4 where y: "fmt2 (y div 100) = [y1, y2]" "is_ascii_digit y1" "is_ascii_digit y2"
    "digits_num [y1, y2] = y div 100" "fmt2 (y mod 100) = [y3, y4]" "is_ascii_digit y3" "is_ascii_digit y4"
    "digits_num [y3, y4] = y mod 100" by (metis fmt2E)
  obtain m1 m2 where m: "fmt2 mo = [m1, m2]" "is_ascii_digit m1" "is_ascii_digit m2" "digits_num [m1, m2] = mo"
    by (rule fmt2E[OF assms(2)])
  obtain d1 d2 where d: "fmt2 d = [d1, d2]" "is_ascii_digit d1" "is_ascii_digit d2" "digits_num [d1, d2] = d"
    by (rule fmt2E[OF assms(3)])
  obtain h1 h2 where h: "fmt2 h = [h1, h2]" "is_ascii_digit h1" "is_ascii_digit h2" "digits_num [h1, h2] = h"
    by (rule fmt2E[OF assms(4)])
  obtain i1 i2 where i: "fmt2 mi = [i1, i2]" "is_ascii_digit i1" "is_ascii_digit i2" "digits_num [i1, i2] = mi"
    by (rule fmt2E[OF assms(5)])
  obtain s1 s2 where e: "fmt2 se = [s1, s2]" "is_ascii_digit s1" "is_ascii_digit s2" "digits_num [s1, s2] = se"
    by (rule fmt2E[OF assms(6)])
  have s: "s = [y1, y2, y3, y4, CHR ''-'', m1, m2, CHR ''-'', d1, d2, CHR ''T'', h1, h2, CHR '':'', i1, i2, CHR '':'', s1, s2, CHR ''Z'']"
    by (simp add: s_def fmt_timestamp_def fmt4_def y m d h i e)
  show ?thesis unfolding s timestamp_20 by (simp add: digits_append4 y m d h i e)
qed

lemma length_20E:
  assumes "length s = 20"
  obtains a b c d e f g h i j k l m n p q r t u v where "s = [a, b, c, d, e, f, g, h, i, j, k, l, m, n, p, q, r, t, u, v]"
  using assms by (auto simp: length_Suc_conv numeral_eq_Suc)

lemma is_utc_timestamp_fmt:
  assumes "length s = 20" and "timestamp_shape s"
  shows "s = fmt_timestamp (timestamp_num s 0 4) (timestamp_num s 5 7) (timestamp_num s 8 10)
      (timestamp_num s 11 13) (timestamp_num s 14 16) (timestamp_num s 17 19) \<and> timestamp_num s 0 4 < 10000"
  using assms(1)
proof (rule length_20E)
  fix a b c d e f g h i j k l m n p q r t u v
  assume s: "s = [a, b, c, d, e, f, g, h, i, j, k, l, m, n, p, q, r, t, u, v]"
  from assms(2) show ?thesis
    unfolding s timestamp_20 fmt_timestamp_def by (simp add: fmt4_digits fmt2_digits)
qed

text \<open>A timestamp is accepted exactly when it spells a second of the Gregorian calendar: a year
  below 10000, a month and a day that month has, leap years included, and a time of day without
  leap seconds, zero-padded in the form \<open>YYYY-MM-DDTHH:MM:SSZ\<close>.\<close>

theorem is_utc_timestamp_spec:
  "is_utc_timestamp s \<longleftrightarrow>
   (\<exists>y mo d h mi se. y < 10000 \<and> 1 \<le> mo \<and> mo \<le> 12 \<and> 1 \<le> d \<and> d \<le> month_lengths y ! (mo - 1) \<and>
      h < 24 \<and> mi < 60 \<and> se < 60 \<and> s = fmt_timestamp y mo d h mi se)"
  (is "?l \<longleftrightarrow> ?r")
proof
  assume ?l
  then have "length s = 20" "timestamp_shape s" by (auto simp: is_utc_timestamp_def split: if_splits)
  with \<open>?l\<close> have "1 \<le> timestamp_num s 5 7 \<and> timestamp_num s 5 7 \<le> 12 \<and> 1 \<le> timestamp_num s 8 10 \<and>
      timestamp_num s 8 10 \<le> month_lengths (timestamp_num s 0 4) ! (timestamp_num s 5 7 - 1) \<and>
      timestamp_num s 11 13 < 24 \<and> timestamp_num s 14 16 < 60 \<and> timestamp_num s 17 19 < 60"
    unfolding is_utc_timestamp_def Let_def days_in_month_calendar by (auto split: if_splits)
  with is_utc_timestamp_fmt[OF \<open>length s = 20\<close> \<open>timestamp_shape s\<close>] show ?r by blast
next
  assume ?r
  then obtain y mo d h mi se where *: "y < 10000" "1 \<le> mo" "mo \<le> 12" "1 \<le> d" "d \<le> month_lengths y ! (mo - 1)"
    "h < 24" "mi < 60" "se < 60" "s = fmt_timestamp y mo d h mi se" by blast
  have "month_lengths y ! (mo - 1) \<in> set (month_lengths y)" using *(2,3) by (intro nth_mem) (simp add: month_lengths_def)
  then have "d < 100" using *(5) by (auto simp: month_lengths_def split: if_splits)
  with * fmt_timestamp_num[of y mo d h mi se] show ?l
    by (auto simp: is_utc_timestamp_def Let_def days_in_month_calendar)
qed

end
