(* ===== verification/Catalog_Metadata.thy ===== *)
theory Catalog_Metadata
  imports Creator_Catalog
begin

text \<open>
  \<open>src/catalog_metadata.rs\<close>: the checks on the clear manifests of a catalog's TDFs. The JSON and
  base64 codecs, the decoder of opentdf's \<open>AttributePolicy\<close> and the printing of numbers and dates are
  the fields of \<open>manifest_ext\<close>; the date type of opentdf is the type parameter.
\<close>

section \<open>Constants and data\<close>

definition CATALOG_ENTRY_MIME_TYPE :: string where
  "CATALOG_ENTRY_MIME_TYPE = ''application/vnd.arkavo.catalog-entry+json''"

definition CATALOG_MIME_TYPE :: string where
  "CATALOG_MIME_TYPE = ''application/vnd.arkavo.creator-catalog+json''"

definition CAMPAIGN_FQN_PREFIX :: string where
  "CAMPAIGN_FQN_PREFIX = ''https://patreon.arkavo.com/attr/campaign/value/''"

definition CREATOR_FQN_PREFIX :: string where
  "CREATOR_FQN_PREFIX = ''https://arkavo.net/attr/creator/value/''"

record ManifestPolicy =
  mp_mime_type :: "string option"
  mp_policy :: json_map

datatype EnvelopeRefusal = NotCatalog | NoPolicyId | PolicyRefusal

datatype 'dt AttributeValue =
    AvString string
  | AvStringArray "string list"
  | AvNumber "64 word"
  | AvNumberArray "64 word list"
  | AvBoolean bool
  | AvDateTime 'dt

record 'dt AttributeCondition =
  cond_namespace :: string
  cond_name :: string
  cond_value :: "'dt AttributeValue option"

datatype 'dt AttributePolicy =
    Condition "'dt AttributeCondition"
  | LogicalAnd "'dt AttributePolicy list"
  | LogicalOr "'dt AttributePolicy list"
  | LogicalNot "'dt AttributePolicy"

record 'dt manifest_ext =
  me_from_slice :: "bytes \<Rightarrow> json option"
  me_to_string :: "json \<Rightarrow> string option"
  me_base64 :: "string \<Rightarrow> bytes option"
  me_attribute_policy :: "json \<Rightarrow> 'dt AttributePolicy option"
  me_number :: "64 word \<Rightarrow> string"
  me_rfc3339 :: "'dt \<Rightarrow> string"


section \<open>Operations\<close>

definition read_manifest :: "'dt manifest_ext \<Rightarrow> bytes \<Rightarrow> ManifestPolicy option" where
  "read_manifest e bs =
     Option.bind (me_from_slice e bs) (\<lambda>manifest.
     let mime_type = Option.bind (json_get ''payload'' manifest) (json_get_str ''mimeType'') in
     Option.bind (json_get ''encryptionInformation'' manifest) (\<lambda>info.
     Option.bind (json_get_str ''policy'' info) (\<lambda>encoded.
     Option.bind (me_base64 e encoded) (\<lambda>decoded.
     Option.bind (me_from_slice e decoded) (\<lambda>value.
     Option.bind (json_as_object value) (\<lambda>policy.
     Option.bind (json_get ''keyAccess'' info) (\<lambda>ka.
     Option.bind (json_as_array ka) (\<lambda>key_access.
     if \<not> list_all (\<lambda>k. json_get_str ''url'' k \<noteq> None) key_access then None
     else Some \<lparr>mp_mime_type = mime_type, mp_policy = policy\<rparr>))))))))"

definition policy_id :: "ManifestPolicy \<Rightarrow> string option" where
  "policy_id mp = Option.bind (json_get_str ''uuid'' (JObject (mp_policy mp)))
     (\<lambda>i. if i \<noteq> [] then Some i else None)"

definition value_fqn :: "string \<Rightarrow> string \<Rightarrow> string" where
  "value_fqn base s = base @ ''/value/'' @ s"

definition condition_fqns :: "'dt manifest_ext \<Rightarrow> 'dt AttributeCondition \<Rightarrow> string list" where
  "condition_fqns e cond =
     (let base = ''https://'' @ cond_namespace cond @ ''/attr/'' @ cond_name cond in
      case cond_value cond of
        Some (AvString s) \<Rightarrow> [value_fqn base s]
      | Some (AvStringArray values) \<Rightarrow> map (value_fqn base) values
      | Some (AvNumber n) \<Rightarrow> [value_fqn base (me_number e n)]
      | Some (AvBoolean b) \<Rightarrow> [value_fqn base (if b then ''true'' else ''false'')]
      | Some (AvDateTime dt) \<Rightarrow> [value_fqn base (me_rfc3339 e dt)]
      | Some (AvNumberArray values) \<Rightarrow> map (value_fqn base \<circ> me_number e) values
      | None \<Rightarrow> [base])"

fun collect_fqns :: "'dt manifest_ext \<Rightarrow> 'dt AttributePolicy \<Rightarrow> string list \<Rightarrow> string list"
  and collect_each :: "'dt manifest_ext \<Rightarrow> 'dt AttributePolicy list \<Rightarrow> string list \<Rightarrow> string list" where
  "collect_fqns e (Condition cond) out = out @ condition_fqns e cond"
| "collect_fqns e (LogicalAnd conditions) out = collect_each e conditions out"
| "collect_fqns e (LogicalOr conditions) out = collect_each e conditions out"
| "collect_fqns e (LogicalNot condition) out = collect_fqns e condition out"
| "collect_each e [] out = out"
| "collect_each e (c # cs) out = collect_each e cs (collect_fqns e c out)"

fun policy_attributes :: "json \<Rightarrow> (json list, string) result" where
  "policy_attributes body = (case json_get ''dataAttributes'' body of
       None \<Rightarrow> Ok []
     | Some JNull \<Rightarrow> Ok []
     | Some (JArray a) \<Rightarrow> Ok a
     | Some _ \<Rightarrow> Err ''TDF policy dataAttributes is not an array'')"

definition attribute_fqns :: "'dt manifest_ext \<Rightarrow> json \<Rightarrow> string list \<Rightarrow> (string list, string) result" where
  "attribute_fqns e attribute fqns = (case json_get_str ''attribute'' attribute of
       Some fqn \<Rightarrow> Ok (fqns @ [fqn])
     | None \<Rightarrow>
         and_then (ok_or ''Failed to parse TDF policy data attribute'' (me_attribute_policy e attribute))
           (\<lambda>attr_policy. Ok (collect_fqns e attr_policy fqns)))"

definition extract_attribute_fqns :: "'dt manifest_ext \<Rightarrow> string \<Rightarrow> (string list, string) result" where
  "extract_attribute_fqns e policy_json =
     and_then (ok_or ''Failed to parse TDF policy JSON'' (me_from_slice e policy_json)) (\<lambda>policy.
     and_then (ok_or ''TDF policy has no body'' (json_get ''body'' policy)) (\<lambda>body.
     and_then (policy_attributes body) (\<lambda>attributes.
     and_then (fold_result (attribute_fqns e) attributes []) (\<lambda>fqns.
     Ok (remdups_adj (sort fqns))))))"

definition has_attribute :: "'dt manifest_ext \<Rightarrow> ManifestPolicy \<Rightarrow> string \<Rightarrow> bool" where
  "has_attribute e mp fqn =
     (case Option.bind (me_to_string e (JObject (mp_policy mp)))
             (\<lambda>json. result_ok (extract_attribute_fqns e json)) of
        None \<Rightarrow> False
      | Some fqns \<Rightarrow> list_ex (\<lambda>f. f = fqn) fqns)"

definition body_list :: "json_map \<Rightarrow> string \<Rightarrow> json list option" where
  "body_list policy key =
     (case Option.bind (map_of policy ''body'') (json_get key) of
        None \<Rightarrow> Some []
      | Some JNull \<Rightarrow> Some []
      | Some (JArray a) \<Rightarrow> Some a
      | Some _ \<Rightarrow> None)"

definition is_lower_uuid :: "string \<Rightarrow> bool" where
  "is_lower_uuid s \<longleftrightarrow> length s = 36 \<and>
     list_all (\<lambda>(i, b). if i = 8 \<or> i = 13 \<or> i = 18 \<or> i = 23 then b = CHR ''-'' else is_lower_hexdigit b)
       (enumerate 0 s)"

definition is_campaign :: "string \<Rightarrow> bool" where
  "is_campaign f = (case strip_prefix CAMPAIGN_FQN_PREFIX f of
       None \<Rightarrow> False
     | Some i \<Rightarrow> i \<noteq> [] \<and> list_all is_ascii_digit i)"

definition is_creator :: "string \<Rightarrow> string \<Rightarrow> bool" where
  "is_creator sub f \<longleftrightarrow> strip_prefix CREATOR_FQN_PREFIX f = Some sub \<and> is_lower_uuid sub"

definition check_envelope :: "ManifestPolicy \<Rightarrow> string \<Rightarrow> (string, EnvelopeRefusal) result" where
  "check_envelope envelope sub =
     (if mp_mime_type envelope \<noteq> Some CATALOG_MIME_TYPE then Err NotCatalog
      else if sort (map fst (mp_policy envelope)) \<noteq> [''body'', ''uuid''] then Err PolicyRefusal
      else if policy_id envelope = None then Err NoPolicyId
      else if body_list (mp_policy envelope) ''dissem'' \<noteq> Some [] then Err PolicyRefusal
      else case (case body_list (mp_policy envelope) ''dataAttributes'' of
                   Some [one] \<Rightarrow> json_get_str ''attribute'' one
                 | _ \<Rightarrow> None) of
             Some f \<Rightarrow> if is_campaign f \<or> is_creator sub f then Ok f else Err PolicyRefusal
           | None \<Rightarrow> Err PolicyRefusal)"


section \<open>The attributes a policy references\<close>

text \<open>A reference without the accumulator: the set of FQNs below a policy.\<close>

fun referenced :: "'dt manifest_ext \<Rightarrow> 'dt AttributePolicy \<Rightarrow> string set" where
  "referenced e (Condition cond) = set (condition_fqns e cond)"
| "referenced e (LogicalAnd cs) = (\<Union>c\<in>set cs. referenced e c)"
| "referenced e (LogicalOr cs) = (\<Union>c\<in>set cs. referenced e c)"
| "referenced e (LogicalNot c) = referenced e c"

definition attribute_refs :: "'dt manifest_ext \<Rightarrow> json \<Rightarrow> string set option" where
  "attribute_refs e a = (case json_get_str ''attribute'' a of
       Some fqn \<Rightarrow> Some {fqn}
     | None \<Rightarrow> map_option (referenced e) (me_attribute_policy e a))"

lemma collect_fqns_referenced:
  "set (collect_fqns e p out) = set out \<union> referenced e p"
  "set (collect_each e ps out) = set out \<union> (\<Union>p\<in>set ps. referenced e p)"
  by (induction e p out and e ps out rule: collect_fqns_collect_each.induct) auto

lemma fold_attribute_fqns:
  "(\<exists>fqns. fold_result (attribute_fqns e) attributes out = Ok fqns \<and> set fqns = S) \<longleftrightarrow>
   (\<forall>a\<in>set attributes. attribute_refs e a \<noteq> None) \<and>
   S = set out \<union> (\<Union>a\<in>set attributes. the (attribute_refs e a))"
proof (induction attributes arbitrary: out)
  case (Cons a as)
  show ?case
  proof (cases "attribute_fqns e a out")
    case (Ok out')
    then have "attribute_refs e a \<noteq> None" "set out' = set out \<union> the (attribute_refs e a)"
      by (auto simp: attribute_fqns_def attribute_refs_def result_simps collect_fqns_referenced split: option.splits)
    with Cons[of out'] Ok show ?thesis by (auto simp: Un_assoc)
  next
    case (Err x)
    then have "attribute_refs e a = None"
      by (auto simp: attribute_fqns_def attribute_refs_def result_simps split: option.splits)
    with Err show ?thesis by simp
  qed
qed auto

lemma distinct_remdups_adj_if_sorted: "sorted xs \<Longrightarrow> distinct (remdups_adj xs)" for xs :: "'a::linorder list"
  by (induction xs rule: remdups_adj.induct) auto

lemma remdups_adj_sort: "remdups_adj (sort xs) = sorted_list_of_set (set xs)" for xs :: "'a::linorder list"
  by (rule sorted_distinct_set_unique) (auto simp: sorted_remdups_adj distinct_remdups_adj_if_sorted)

text \<open>Extracting the attributes of a policy succeeds exactly when every element of
  \<open>dataAttributes\<close> can be read in one of the two forms, and the result is the sorted list, without
  repetitions, of the FQNs those elements reference; nothing else of the policy contributes.\<close>

theorem extract_attribute_fqns_spec:
  "extract_attribute_fqns e policy_json = Ok fqns \<longleftrightarrow>
   (\<exists>policy body attributes. me_from_slice e policy_json = Some policy \<and> json_get ''body'' policy = Some body \<and>
      policy_attributes body = Ok attributes \<and> (\<forall>a\<in>set attributes. attribute_refs e a \<noteq> None) \<and>
      fqns = sorted_list_of_set (\<Union>a\<in>set attributes. the (attribute_refs e a)))"
proof -
  have "extract_attribute_fqns e policy_json = Ok fqns \<longleftrightarrow>
     (\<exists>policy body attributes. me_from_slice e policy_json = Some policy \<and> json_get ''body'' policy = Some body \<and>
        policy_attributes body = Ok attributes \<and>
        (\<exists>S. (\<exists>l. fold_result (attribute_fqns e) attributes [] = Ok l \<and> set l = S) \<and> fqns = sorted_list_of_set S))"
    by (simp add: extract_attribute_fqns_def result_simps remdups_adj_sort del: policy_attributes.simps) blast
  then show ?thesis unfolding fold_attribute_fqns by simp
qed

text \<open>The witness reads one attribute in each form.\<close>

definition sample_manifest_ext :: "nat manifest_ext" where
  "sample_manifest_ext =
     \<lparr>me_from_slice = (\<lambda>b. Some (JObject [(''body'', JObject [(''dataAttributes'', JArray
        [JObject [(''attribute'', JString ''b'')], JNull])])])),
      me_to_string = (\<lambda>_. Some []), me_base64 = Some,
      me_attribute_policy = (\<lambda>_. Some (LogicalNot (Condition
        \<lparr>cond_namespace = ''n'', cond_name = ''a'', cond_value = Some (AvBoolean True)\<rparr>))),
      me_number = (\<lambda>_. []), me_rfc3339 = (\<lambda>_. [])\<rparr>"

theorem extract_attribute_fqns_spec_witness:
  "extract_attribute_fqns sample_manifest_ext [] = Ok [''b'', ''https://n/attr/a/value/true'']"
  unfolding extract_attribute_fqns_spec
  by (simp add: sample_manifest_ext_def attribute_refs_def json_get_str_def condition_fqns_def value_fqn_def)


section \<open>Envelopes\<close>

lemma sort_eq_pair: "a < b \<Longrightarrow> sort xs = [a, b] \<longleftrightarrow> set xs = {a, b} \<and> length xs = 2" for a :: "'a::linorder"
proof
  assume "a < b" and r: "set xs = {a, b} \<and> length xs = 2"
  then obtain x y where "xs = [x, y]" by (auto simp: numeral_2_eq_2 length_Suc_conv)
  with r \<open>a < b\<close> show "sort xs = [a, b]" by (auto simp: doubleton_eq_iff)
next
  assume "sort xs = [a, b]"
  then have "set (sort xs) = {a, b}" "length (sort xs) = 2" by simp_all
  then show "set xs = {a, b} \<and> length xs = 2" by (simp only: set_sort length_sort)
qed

lemma policy_id_eq_Some:
  "policy_id mp = Some i \<longleftrightarrow> map_of (mp_policy mp) ''uuid'' = Some (JString i) \<and> i \<noteq> []"
  by (auto simp: policy_id_def json_get_str_eq_Some Option.bind_eq_Some_conv split: if_splits)

lemma body_list_empty:
  "body_list policy k = Some [] \<longleftrightarrow>
   (case map_of policy ''body'' of None \<Rightarrow> True | Some b \<Rightarrow> json_get k b \<in> {None, Some JNull, Some (JArray [])})"
  by (auto simp: body_list_def split: option.splits json.splits)

lemma body_list_Cons:
  "body_list policy k = Some (x # xs) \<longleftrightarrow>
   (\<exists>b. map_of policy ''body'' = Some b \<and> json_get k b = Some (JArray (x # xs)))"
  by (auto simp: body_list_def Option.bind_eq_Some_conv split: option.splits json.splits)

definition own_attribute :: "string \<Rightarrow> string \<Rightarrow> bool" where
  "own_attribute sub f \<longleftrightarrow>
     (\<exists>i. f = CAMPAIGN_FQN_PREFIX @ i \<and> i \<noteq> [] \<and> list_all is_ascii_digit i) \<or>
     (f = CREATOR_FQN_PREFIX @ sub \<and> is_lower_uuid sub)"

lemma own_attribute_iff: "is_campaign f \<or> is_creator sub f \<longleftrightarrow> own_attribute sub f"
  by (auto simp: is_campaign_def is_creator_def own_attribute_def strip_prefix_eq_Some split: option.splits)

text \<open>A manifest is accepted as the catalog envelope of a creator exactly when it has the catalog
  type, its policy has the keys \<open>uuid\<close> (a non-empty string) and \<open>body\<close> and no other, nobody is
  named in \<open>dissem\<close>, and its one data attribute is a numeric Patreon campaign or that creator's own
  attribute; the result is that attribute.\<close>

theorem check_envelope_accepts_iff:
  "check_envelope env sub = Ok f \<longleftrightarrow>
   mp_mime_type env = Some CATALOG_MIME_TYPE \<and>
   set (map fst (mp_policy env)) = {''body'', ''uuid''} \<and> length (mp_policy env) = 2 \<and>
   (\<exists>i. map_of (mp_policy env) ''uuid'' = Some (JString i) \<and> i \<noteq> []) \<and>
   (\<exists>body a. map_of (mp_policy env) ''body'' = Some body \<and>
      json_get ''dissem'' body \<in> {None, Some JNull, Some (JArray [])} \<and>
      json_get ''dataAttributes'' body = Some (JArray [a]) \<and> json_get ''attribute'' a = Some (JString f)) \<and>
   own_attribute sub f"
proof -
  have one: "(case body_list p k of Some [x] \<Rightarrow> json_get_str ''attribute'' x | _ \<Rightarrow> None) = Some f \<longleftrightarrow>
      (\<exists>b a. map_of p ''body'' = Some b \<and> json_get k b = Some (JArray [a]) \<and>
         json_get ''attribute'' a = Some (JString f))" for p k
    using body_list_Cons[of p k _ "[]"]
    by (cases "\<exists>x. body_list p k = Some [x]") (auto simp: json_get_str_eq_Some split: option.splits list.splits)
  have lt: "''body'' < (''uuid'' :: string)" by (simp add: list_less_def less_char_def)
  have keys: "sort (map fst p) = [''body'', ''uuid''] \<longleftrightarrow>
      set (map fst p) = {''body'', ''uuid''} \<and> length p = 2" for p :: json_map
    using sort_eq_pair[OF lt, of "map fst p"] by simp
  have pid: "policy_id env = None \<longleftrightarrow> \<not> (\<exists>i. map_of (mp_policy env) ''uuid'' = Some (JString i) \<and> i \<noteq> [])"
    using policy_id_eq_Some[of env] by (metis not_None_eq)
  define fqn where "fqn = (case body_list (mp_policy env) ''dataAttributes'' of
      Some [one] \<Rightarrow> json_get_str ''attribute'' one | _ \<Rightarrow> None)"
  have "check_envelope env sub = Ok f \<longleftrightarrow>
     mp_mime_type env = Some CATALOG_MIME_TYPE \<and> sort (map fst (mp_policy env)) = [''body'', ''uuid''] \<and>
     policy_id env \<noteq> None \<and> body_list (mp_policy env) ''dissem'' = Some [] \<and> fqn = Some f \<and>
     (is_campaign f \<or> is_creator sub f)"
    unfolding check_envelope_def fqn_def[symmetric] by (auto split: option.splits if_splits)
  also have "\<dots> \<longleftrightarrow> mp_mime_type env = Some CATALOG_MIME_TYPE \<and>
     (set (map fst (mp_policy env)) = {''body'', ''uuid''} \<and> length (mp_policy env) = 2) \<and>
     (\<exists>i. map_of (mp_policy env) ''uuid'' = Some (JString i) \<and> i \<noteq> []) \<and>
     (body_list (mp_policy env) ''dissem'' = Some [] \<and> fqn = Some f) \<and> own_attribute sub f"
    unfolding keys pid own_attribute_iff by blast
  also have "body_list (mp_policy env) ''dissem'' = Some [] \<and> fqn = Some f \<longleftrightarrow>
     (\<exists>body a. map_of (mp_policy env) ''body'' = Some body \<and>
        json_get ''dissem'' body \<in> {None, Some JNull, Some (JArray [])} \<and>
        json_get ''dataAttributes'' body = Some (JArray [a]) \<and> json_get ''attribute'' a = Some (JString f))"
    unfolding fqn_def one body_list_empty by (auto split: option.splits)
  finally show ?thesis by (simp only: conj_assoc)
qed

end
