(* ===== verification/Catalogs_Api.thy ===== *)
theory Catalogs_Api
  imports Tag_Store Catalog_Metadata Publish_Policy
begin

text \<open>
  The checks the catalog routes share (\<open>src/tags_api.rs\<close>) and the routes of
  \<open>src/catalogs_api.rs\<close>: the token checks of readers and publishers, the checks on a catalog's
  index entries, \<open>GET /catalog-documents/{hash}\<close> and \<open>GET /blobs/{hash}\<close>. A handler runs on the
  store's state; the token checks run on the verifier's state and the decision client's.
\<close>

section \<open>Shared checks\<close>

text \<open>\<open>ApiState\<close>: the store, and the publishing gate of a gated node. The key cache of the verifier and
  the decision client are state.\<close>

record 'p TagPublishing =
  tp_policy :: "'p PublishPolicy"
  tp_moderation :: Moderation

record ('s, 'p) ApiState =
  api_store :: "'s tag_store"
  api_publishing :: "'p TagPublishing option"

definition authorize_catalog_reader ::
  "verify_env \<Rightarrow> int \<Rightarrow> headers \<Rightarrow> (CwtVerifier, VerifiedClaims, http_error) io" where
  "authorize_catalog_reader env now headers = (case bearer headers of
       None \<Rightarrow> io_fail (UNAUTHORIZED, ''token required'')
     | Some token \<Rightarrow>
         io_map_err (\<lambda>e. case e of
             KeySet _ \<Rightarrow> (BAD_GATEWAY, ''key set unavailable'')
           | _ \<Rightarrow> (UNAUTHORIZED, ''invalid token''))
           (verify env token now))"

definition authorize_publisher ::
  "verify_env \<Rightarrow> int \<Rightarrow> int \<Rightarrow> ('s, 'p) ApiState \<Rightarrow> headers \<Rightarrow>
   (CwtVerifier \<times> 'p, VerifiedClaims, http_error) io" where
  "authorize_publisher env now now' api headers st = (case api_publishing api of
       Some p \<Rightarrow> publisher env now now' (tp_policy p) (tp_moderation p) headers st
     | None \<Rightarrow>
         (case bearer headers of
            None \<Rightarrow> (Err (UNAUTHORIZED, ''missing bearer token''), st)
          | Some token \<Rightarrow>
              (case verify env token now (fst st) of (r, v) \<Rightarrow>
                (map_err (\<lambda>e. case e of
                     KeySet _ \<Rightarrow> (BAD_GATEWAY, ''invalid token'')
                   | _ \<Rightarrow> (UNAUTHORIZED, ''invalid token'')) r, (v, snd st)))))"

definition api_is_blocked :: "('s, 'p) ApiState \<Rightarrow> string \<Rightarrow> bool" where
  "api_is_blocked api h = (case api_publishing api of
       Some p \<Rightarrow> is_blocked (tp_moderation p) h | None \<Rightarrow> False)"

definition owner_hidden :: "('s, 'p) ApiState \<Rightarrow> string option \<Rightarrow> bool" where
  "owner_hidden api owner = (case api_publishing api of
       Some p \<Rightarrow> (case owner of Some o' \<Rightarrow> catalog_hidden (tp_moderation p) o' | None \<Rightarrow> False)
     | None \<Rightarrow> False)"

definition storage_unavailable :: http_error where
  "storage_unavailable = (BAD_GATEWAY, ''storage unavailable'')"


section \<open>The entries of an index\<close>

definition INGEST_CHECK_CONCURRENCY :: nat where
  "INGEST_CHECK_CONCURRENCY = 16"

fun distinct_hashes :: "CreatorCatalogEntry list \<Rightarrow> string list \<Rightarrow> string list" where
  "distinct_hashes [] seen = []"
| "distinct_hashes (e # es) seen =
     (if en_payload_hash e \<in> set seen then distinct_hashes es seen
      else en_payload_hash e # distinct_hashes es (en_payload_hash e # seen))"

definition hashes :: "CreatorCatalogEntry list \<Rightarrow> string list" where
  "hashes entries = distinct_hashes entries []"

text \<open>\<open>look_up\<close>: the results are taken in the order of the hashes, whatever the order the lookups
  finish in, and the first refusal ends the loop. Lookups started ahead of it (at most 16 at a time)
  only read, so they are left out.\<close>

fun look_up_all :: "(string \<Rightarrow> ('s, 'a, http_error) io) \<Rightarrow> string list \<Rightarrow> (string, 'a) table \<Rightarrow>
    ('s, (string, 'a) table, http_error) io" where
  "look_up_all f [] found = io_return found"
| "look_up_all f (h # hs) found = io_bind (f h) (\<lambda>x. look_up_all f hs (tinsert h x found))"

definition ingested_size :: "('s, 'p) ApiState \<Rightarrow> string \<Rightarrow> ('s, nat, http_error) io" where
  "ingested_size api h = io_bind (io_map_err (\<lambda>_. storage_unavailable) (ts_blob_size (api_store api) h)) (\<lambda>r.
     io_lift (ok_or (UNPROCESSABLE_ENTITY, ''payload '' @ h @ '' is not ingested'') r))"

definition stored_manifest ::
  "'dt manifest_ext \<Rightarrow> ('s, 'p) ApiState \<Rightarrow> string \<Rightarrow> ('s, ManifestPolicy, http_error) io" where
  "stored_manifest me api h = io_bind (io_map_err (\<lambda>_. storage_unavailable) (ts_get_manifest (api_store api) h)) (\<lambda>r.
     case r of
       Some bs \<Rightarrow> io_lift (ok_or (UNPROCESSABLE_ENTITY, ''payload '' @ h @ '' manifest is unreadable'') (read_manifest me bs))
     | None \<Rightarrow> io_fail (UNPROCESSABLE_ENTITY, ''payload '' @ h @ '' manifest is not stored''))"

definition check_sizes :: "CreatorCatalogEntry list \<Rightarrow> (string, nat) table \<Rightarrow> (unit, http_error) result" where
  "check_sizes entries sizes = (case find (\<lambda>e. tget sizes (en_payload_hash e) \<noteq> Some (en_payload_size e)) entries of
       Some e \<Rightarrow> Err (UNPROCESSABLE_ENTITY, ''payload '' @ en_payload_hash e @ '' size does not match'')
     | None \<Rightarrow> Ok ())"

definition check_policies ::
  "'dt manifest_ext \<Rightarrow> CreatorCatalogEntry list \<Rightarrow> string \<Rightarrow> (string, ManifestPolicy) table \<Rightarrow> (unit, http_error) result" where
  "check_policies me entries attribute manifests =
     (case find (\<lambda>e. \<not> (case tget manifests (en_payload_hash e) of
          Some p \<Rightarrow> has_attribute me p attribute | None \<Rightarrow> False)) entries of
       Some e \<Rightarrow> Err (UNPROCESSABLE_ENTITY, ''entry '' @ en_content_id e @ '' policy does not include the catalog attribute'')
     | None \<Rightarrow> Ok ())"

definition check_payloads ::
  "'dt manifest_ext \<Rightarrow> ('s, 'p) ApiState \<Rightarrow> CreatorCatalogEntry list \<Rightarrow> string \<Rightarrow> ('s, unit, http_error) io" where
  "check_payloads me api entries attribute =
     (if list_ex (\<lambda>e. api_is_blocked api (en_payload_hash e)) entries
      then io_fail (FORBIDDEN, ''content is blocked'')
      else
      io_bind (look_up_all (ingested_size api) (hashes entries) []) (\<lambda>sizes.
      io_bind (io_lift (check_sizes entries sizes)) (\<lambda>_.
      io_bind (look_up_all (stored_manifest me api) (hashes entries) []) (\<lambda>manifests.
      io_lift (check_policies me entries attribute manifests)))))"


section \<open>Documents and blobs\<close>

definition is_json :: "headers \<Rightarrow> bool" where
  "is_json headers = (case Option.bind (header_get headers ''content-type'') header_to_str of
       None \<Rightarrow> False
     | Some v \<Rightarrow> eq_ignore_ascii_case (trim (hd (split_on (CHR '';'') v))) ''application/json'')"

definition CATALOG_DOCUMENT_CACHE_CONTROL :: string where
  "CATALOG_DOCUMENT_CACHE_CONTROL = ''public, max-age=300''"

definition if_none_match :: "headers \<Rightarrow> string \<Rightarrow> bool" where
  "if_none_match headers etag =
     list_ex (\<lambda>t. t = ''*'' \<or> (case strip_prefix ''W/'' t of Some r \<Rightarrow> r | None \<Rightarrow> t) = etag)
       (map trim (concat (map (split_on (CHR '','')) (List.map_filter header_to_str (header_get_all headers ''if-none-match'')))))"

record http_response =
  hr_status :: nat
  hr_headers :: "(string \<times> string) list"
  hr_body :: bytes

definition api_get_catalog_document ::
  "('s, 'p) ApiState \<Rightarrow> string \<Rightarrow> headers \<Rightarrow> ('s, http_response, http_error) io" where
  "api_get_catalog_document api h headers =
     (let not_found = (NOT_FOUND, ''catalog not found'');
          etag = ''\"'' @ h @ ''\"'';
          cache_headers = [(''etag'', etag), (''cache-control'', CATALOG_DOCUMENT_CACHE_CONTROL)] in
      if \<not> is_lower_hex_hash h then io_fail (BAD_REQUEST, ''invalid hash'')
      else if api_is_blocked api h then io_fail not_found
      else if if_none_match headers etag then
        io_bind (io_map_err (\<lambda>_. storage_unavailable) (ts_head_catalog_document (api_store api) h)) (\<lambda>r.
          case r of
            None \<Rightarrow> io_fail not_found
          | Some head \<Rightarrow>
              if owner_hidden api (dh_owner head) then io_fail not_found
              else io_return \<lparr>hr_status = 304, hr_headers = cache_headers, hr_body = []\<rparr>)
      else
        io_bind (io_map_err (\<lambda>_. storage_unavailable) (ts_get_catalog_document (api_store api) h)) (\<lambda>r.
          case r of
            None \<Rightarrow> io_fail not_found
          | Some doc \<Rightarrow>
              if owner_hidden api (sd_owner doc) then io_fail not_found
              else io_return \<lparr>hr_status = 200, hr_headers = cache_headers @ [(''content-type'', ''application/zip'')],
                              hr_body = sd_body doc\<rparr>))"

definition api_get_blob :: "('s, 'p) ApiState \<Rightarrow> string \<Rightarrow> ('s, string \<times> nat, http_error) io" where
  "api_get_blob api h =
     (if \<not> is_lower_hex_hash h then io_fail (BAD_REQUEST, ''invalid hash'')
      else if api_is_blocked api h then io_fail (NOT_FOUND, ''blob not found'')
      else io_bind (io_map_err (\<lambda>_. storage_unavailable) (ts_blob_size (api_store api) h)) (\<lambda>r.
        case r of
          Some n \<Rightarrow> io_return (h, n)
        | None \<Rightarrow> io_fail (NOT_FOUND, ''blob not found'')))"


section \<open>What the entry checks establish\<close>

lemma distinct_hashes_props:
  "set (distinct_hashes es seen) = en_payload_hash ` set es - set seen" "distinct (distinct_hashes es seen)"
  by (induction es seen rule: distinct_hashes.induct) auto

lemma hashes_props: "set (hashes es) = en_payload_hash ` set es" "distinct (hashes es)"
  by (simp_all add: hashes_def distinct_hashes_props)

text \<open>A lookup that answers from a function \<open>g\<close> of what \<open>P\<close> keeps finds \<open>g\<close> at every hash.\<close>

lemma look_up_all_Ok:
  assumes "look_up_all f hs found s = (Ok r, t)" and "P s"
    and f: "\<And>h x u w. f h u = (Ok x, w) \<Longrightarrow> P u \<Longrightarrow> g h = Some x \<and> P w"
    and found: "\<And>h x. tget found h = Some x \<Longrightarrow> g h = Some x"
  shows "P t \<and> (\<forall>h x. tget r h = Some x \<longrightarrow> g h = Some x)"
  using assms(1,2) found
proof (induction hs arbitrary: found s)
  case (Cons a hs)
  then obtain x u where x: "f a s = (Ok x, u)" "look_up_all f hs (tinsert a x found) u = (Ok r, t)"
    by (auto simp: io_Ok_iffs)
  from f[OF x(1) Cons.prems(2)] have g: "g a = Some x" "P u" by simp_all
  show ?case
  proof (rule Cons.IH[OF x(2) g(2)])
    fix h y assume "tget (tinsert a x found) h = Some y"
    then show "g h = Some y" using Cons.prems(3)[of h y] g(1) by (cases "h = a") (simp_all add: table_simps)
  qed
qed (simp add: io_Ok_iffs)

lemma check_sizes_Ok:
  "check_sizes entries sizes = Ok u \<longleftrightarrow> (\<forall>e\<in>set entries. tget sizes (en_payload_hash e) = Some (en_payload_size e))"
proof -
  have "check_sizes entries sizes = Ok u \<longleftrightarrow>
     find (\<lambda>e. tget sizes (en_payload_hash e) \<noteq> Some (en_payload_size e)) entries = None"
    by (simp add: check_sizes_def split: option.splits)
  then show ?thesis by (auto simp: find_None_iff)
qed

lemma check_policies_Ok:
  "check_policies me entries attribute manifests = Ok u \<longleftrightarrow>
   (\<forall>e\<in>set entries. \<exists>p. tget manifests (en_payload_hash e) = Some p \<and> has_attribute me p attribute)"
proof -
  have "check_policies me entries attribute manifests = Ok u \<longleftrightarrow>
     find (\<lambda>e. \<not> (case tget manifests (en_payload_hash e) of Some p \<Rightarrow> has_attribute me p attribute | None \<Rightarrow> False)) entries = None"
    by (simp add: check_policies_def split: option.splits)
  then show ?thesis by (auto simp: find_None_iff split: option.splits)
qed

lemma ingested_size_Ok:
  "ingested_size api h s = (Ok n, t) \<longleftrightarrow> ts_blob_size (api_store api) h s = (Ok (Some n), t)"
  by (auto simp: ingested_size_def io_Ok_iffs result_simps)

lemma stored_manifest_Ok:
  "stored_manifest me api h s = (Ok mp, t) \<longleftrightarrow>
   (\<exists>bs. ts_get_manifest (api_store api) h s = (Ok (Some bs), t) \<and> read_manifest me bs = Some mp)"
  by (auto simp: stored_manifest_def io_Ok_iffs result_simps split: option.splits)

text \<open>What one entry is in a store that holds \<open>w\<close>.\<close>

definition entry_backed ::
  "'dt manifest_ext \<Rightarrow> ('s, 'p) ApiState \<Rightarrow> catalog_view \<Rightarrow> string \<Rightarrow> CreatorCatalogEntry \<Rightarrow> bool" where
  "entry_backed me api w attribute e \<longleftrightarrow> \<not> api_is_blocked api (en_payload_hash e) \<and>
     cw_blobs w (en_payload_hash e) = Some (en_payload_size e) \<and>
     (\<exists>bs mp. cw_manifests w (en_payload_hash e) = Some bs \<and> read_manifest me bs = Some mp \<and> has_attribute me mp attribute)"

lemma check_payloads_Ok:
  assumes st: "catalog_store (api_store api) ok view evolves"
    and "check_payloads me api entries attribute s = (Ok (), t)"
  shows "view t = view s \<and> (\<forall>e\<in>set entries. entry_backed me api (view s) attribute e)"
proof -
  from assms(2) obtain sizes manifests u where *:
    "look_up_all (ingested_size api) (hashes entries) [] s = (Ok sizes, u)" "check_sizes entries sizes = Ok ()"
    "look_up_all (stored_manifest me api) (hashes entries) [] u = (Ok manifests, t)"
    "check_policies me entries attribute manifests = Ok ()"
    "\<not> list_ex (\<lambda>e. api_is_blocked api (en_payload_hash e)) entries"
    by (auto simp: check_payloads_def io_Ok_iffs split: if_splits)
  let ?manifest = "\<lambda>h. Option.bind (cw_manifests (view s) h) (read_manifest me)"
  have size: "cw_blobs (view s) h = Some n \<and> view w = view s"
    if "ingested_size api h x = (Ok n, w)" "view x = view s" for h n x w
    using that catalog_store.get_blob_size[OF st, of h x "Some n" w] catalog_store.read_view(1)[OF st, of h x]
    by (simp add: ingested_size_Ok)
  have manifest: "?manifest h = Some mp \<and> view w = view s"
    if "stored_manifest me api h x = (Ok mp, w)" "view x = view s" for h mp x w
  proof -
    from that obtain bs where "ts_get_manifest (api_store api) h x = (Ok (Some bs), w)" "read_manifest me bs = Some mp"
      by (auto simp: stored_manifest_Ok)
    with that(2) catalog_store.get_manifest[OF st, of h x "Some bs" w] catalog_store.read_view(2)[OF st, of h x]
    show ?thesis by (metis Option.bind_lunit snd_conv)
  qed
  have sizes: "view u = view s \<and> (\<forall>h x. tget sizes h = Some x \<longrightarrow> cw_blobs (view s) h = Some x)"
    using *(1) by (rule look_up_all_Ok[where P = "\<lambda>x. view x = view s"]) (simp_all add: size)
  have "view t = view s \<and> (\<forall>h x. tget manifests h = Some x \<longrightarrow> ?manifest h = Some x)"
    using *(3) by (rule look_up_all_Ok[where P = "\<lambda>x. view x = view s"]) (simp_all add: manifest sizes)
  moreover have "entry_backed me api (view s) attribute e" if e: "e \<in> set entries" for e
  proof -
    from e *(2) sizes have "cw_blobs (view s) (en_payload_hash e) = Some (en_payload_size e)" by (simp add: check_sizes_Ok)
    moreover from e *(4) obtain mp where "tget manifests (en_payload_hash e) = Some mp" "has_attribute me mp attribute"
      by (auto simp: check_policies_Ok)
    moreover from this calculation have "?manifest (en_payload_hash e) = Some mp"
      using \<open>view t = view s \<and> _\<close> by blast
    ultimately show ?thesis using e *(5) unfolding entry_backed_def list_ex_iff
      by (cases "cw_manifests (view s) (en_payload_hash e)") auto
  qed
  ultimately show ?thesis by blast
qed

text \<open>C37: When the checks on a catalog's index pass, every entry's recording is unblocked, is ingested
  with exactly the size the entry states, and has a stored, readable manifest whose policy names the
  catalog's attribute, so that whoever may open the recording may open the catalog; and the checks
  changed nothing in the store. This holds for every store that keeps the store contract.\<close>

theorem check_payloads_sound:
  assumes "catalog_store (api_store api) ok view evolves"
    and "check_payloads me api entries attribute s = (Ok (), t)"
  shows "view t = view s \<and> (\<forall>e\<in>set entries. \<not> api_is_blocked api (en_payload_hash e) \<and>
     cw_blobs (view s) (en_payload_hash e) = Some (en_payload_size e) \<and>
     (\<exists>bs mp. cw_manifests (view s) (en_payload_hash e) = Some bs \<and>
        read_manifest me bs = Some mp \<and> has_attribute me mp attribute))"
  using check_payloads_Ok[OF assms] unfolding entry_backed_def by blast


section \<open>What a reader is served\<close>

text \<open>C38: A catalog document is served, or confirmed with 304, only under a well-formed hash that is not
  blocked, only while it is stored, and never when its owner's catalog is hidden; the body is the
  stored one, and reading changes no catalog object. This holds for every store that keeps the
  store contract.\<close>

theorem catalog_document_served:
  assumes "catalog_store (api_store api) ok view evolves"
    and "api_get_catalog_document api h headers s = (Ok resp, t)"
  shows "view t = view s \<and> is_lower_hex_hash h \<and> \<not> api_is_blocked api h \<and>
    (\<exists>doc. cw_documents (view s) h = Some doc \<and> \<not> owner_hidden api (sd_owner doc) \<and>
       (hr_status resp = 200 \<and> hr_body resp = sd_body doc \<or>
        hr_status resp = 304 \<and> hr_body resp = [] \<and> if_none_match headers (''\"'' @ h @ ''\"'')))"
proof -
  from assms(2) have g: "is_lower_hex_hash h" "\<not> api_is_blocked api h"
    by (auto simp: api_get_catalog_document_def Let_def io_Ok_iffs split: if_splits)
  show ?thesis
  proof (cases "if_none_match headers (''\"'' @ h @ ''\"'')")
    case True
    with assms(2) g obtain head where "ts_head_catalog_document (api_store api) h s = (Ok (Some head), t)"
      "\<not> owner_hidden api (dh_owner head)" "hr_status resp = 304" "hr_body resp = []"
      by (auto simp: api_get_catalog_document_def Let_def io_Ok_iffs split: if_splits option.splits)
    moreover from this catalog_store.head_document[OF assms(1), of h s "Some head" t]
    obtain doc where "cw_documents (view s) h = Some doc" "dh_owner head = sd_owner doc"
      by (cases "cw_documents (view s) h") auto
    ultimately show ?thesis using catalog_store.read_view(4)[OF assms(1), of h s] g True by auto
  next
    case False
    with assms(2) g obtain doc where "ts_get_catalog_document (api_store api) h s = (Ok (Some doc), t)"
      "\<not> owner_hidden api (sd_owner doc)" "hr_status resp = 200" "hr_body resp = sd_body doc"
      by (auto simp: api_get_catalog_document_def Let_def io_Ok_iffs split: if_splits option.splits)
    moreover from this have "cw_documents (view s) h = Some doc"
      using catalog_store.get_document[OF assms(1), of h s "Some doc" t] by simp
    ultimately show ?thesis using catalog_store.read_view(3)[OF assms(1), of h s] g by auto
  qed
qed


section \<open>A sample store\<close>

definition sample_hash :: string where
  "sample_hash = replicate 64 (CHR ''a'')"

definition sample_entry :: CreatorCatalogEntry where
  "sample_entry = \<lparr>en_content_id = ''c'', en_version = 1, en_payload_hash = sample_hash, en_payload_size = 3\<rparr>"

definition sample_store :: MemStore where
  "sample_store = mt_ingest_with_manifest sample_hash 3 ''m''
     (mt_new\<lparr>mt_catalog_documents := [(sample_hash, \<lparr>sd_body = ''zip'', sd_owner = Some ''alice''\<rparr>)]\<rparr>)"

definition sample_catalog_api :: "(MemStore, unit) ApiState" where
  "sample_catalog_api = \<lparr>api_store = mt_store, api_publishing = None\<rparr>"

definition sample_entry_ext :: "nat manifest_ext" where
  "sample_entry_ext = sample_manifest_ext\<lparr>me_from_slice := (\<lambda>b. Some (JObject
     [(''body'', JObject [(''dataAttributes'', JArray [JObject [(''attribute'', JString ''att'')]])]),
      (''encryptionInformation'', JObject [(''keyAccess'', JArray []), (''policy'', JString ''p'')])]))\<rparr>"

lemma sample_check_payloads:
  "fst (check_payloads sample_entry_ext sample_catalog_api [sample_entry] ''att'' sample_store) = Ok ()"
  by code_simp

theorem check_payloads_sound_witness:
  "cw_blobs (mt_view sample_store) sample_hash = Some 3"
proof -
  obtain t where "check_payloads sample_entry_ext sample_catalog_api [sample_entry] ''att'' sample_store = (Ok (), t)"
    using sample_check_payloads by (metis prod.collapse)
  moreover have "catalog_store (api_store sample_catalog_api) mt_versions_ok mt_view mt_evolves"
    using mt.catalog_store_axioms by (simp add: sample_catalog_api_def)
  ultimately show ?thesis
    using check_payloads_sound[of sample_catalog_api mt_versions_ok mt_view mt_evolves sample_entry_ext "[sample_entry]" "''att''" sample_store t]
    by (simp add: sample_entry_def)
qed

lemma sample_get_document:
  "fst (api_get_catalog_document sample_catalog_api sample_hash [] sample_store) =
   Ok \<lparr>hr_status = 200, hr_headers = [(''etag'', ''\"'' @ sample_hash @ ''\"''),
     (''cache-control'', CATALOG_DOCUMENT_CACHE_CONTROL), (''content-type'', ''application/zip'')], hr_body = ''zip''\<rparr>"
  by code_simp

theorem catalog_document_served_witness:
  "\<exists>doc. cw_documents (mt_view sample_store) sample_hash = Some doc"
proof -
  obtain resp t where "api_get_catalog_document sample_catalog_api sample_hash [] sample_store = (Ok resp, t)"
    using sample_get_document by (metis prod.collapse)
  moreover have "catalog_store (api_store sample_catalog_api) mt_versions_ok mt_view mt_evolves"
    using mt.catalog_store_axioms by (simp add: sample_catalog_api_def)
  ultimately show ?thesis
    using catalog_document_served[of sample_catalog_api mt_versions_ok mt_view mt_evolves sample_hash "[]" sample_store resp t]
    by blast
qed

end
