(* ===== verification/Catalog_V2.thy ===== *)
theory Catalog_V2
  imports Creator_Catalog Auth
begin

unbundle bit_operations_syntax

text \<open>
  \<open>src/catalog_v2.rs\<close>: the pointer to a creator's current catalog, signed with a passkey, and the
  identity provider's attestation of that passkey. The decoders the module calls are the fields of
  \<open>bundle_ext\<close>, beside those of the token verifier (\<open>Auth\<close>): JSON into a syntax tree
  (\<open>NoDuplicateKeys\<close> visits it), into a \<open>Value\<close> and into the pointer, tagged \<open>COSE_Sign1\<close>, SHA-256
  and DER signatures.
\<close>

section \<open>Constants and data\<close>

definition POINTER_SCHEMA :: string where
  "POINTER_SCHEMA = ''arkavo.catalog-pointer/1''"

definition CREDENTIAL_CONTENT_TYPE :: string where
  "CREDENTIAL_CONTENT_TYPE = ''application/arkavo-passkey-credential+cbor''"

definition MAX_SEQ :: nat where
  "MAX_SEQ = 9007199254740991"

definition MAX_POINTER_BYTES :: nat where [simp]: "MAX_POINTER_BYTES = 1024"
definition MAX_CREDENTIAL_ID_BYTES :: nat where [simp]: "MAX_CREDENTIAL_ID_BYTES = 1023"
definition MAX_AUTHENTICATOR_DATA_BYTES :: nat where [simp]: "MAX_AUTHENTICATOR_DATA_BYTES = 4096"
definition MAX_CLIENT_DATA_BYTES :: nat where [simp]: "MAX_CLIENT_DATA_BYTES = 4096"
definition MAX_SIGNATURE_BYTES :: nat where [simp]: "MAX_SIGNATURE_BYTES = 80"
definition MAX_ATTESTATION_BYTES :: nat where [simp]: "MAX_ATTESTATION_BYTES = 4096"

definition FLAG_UP :: "8 word" where "FLAG_UP = 0x01"
definition FLAG_UV :: "8 word" where "FLAG_UV = 0x04"

definition ATTESTATION_SKEW_SECS :: int where
  "ATTESTATION_SKEW_SECS = 60"

record Passkeys =
  pk_rp_id :: string
  pk_origin :: string

definition for_rp :: "string \<Rightarrow> Passkeys" where
  "for_rp rp_id = \<lparr>pk_rp_id = rp_id, pk_origin = ''https://'' @ rp_id\<rparr>"

record Pointer =
  pt_schema :: string
  pt_owner :: string
  pt_seq :: nat
  pt_catalog_hash :: string
  pt_catalog_size :: nat
  pt_issued_at :: string

record Assertion =
  as_credential_id :: string
  as_authenticator_data :: string
  as_client_data_json :: string
  as_signature :: string

record Bundle =
  bu_pointer :: string
  bu_assertion :: Assertion
  bu_credential :: string

datatype BundleError = Invalid string | KeySetUnavailable string

record Credential =
  cr_sub :: string
  cr_credential_id :: bytes
  cr_public_key :: VerifyingKey
  cr_rp_id :: string
  cr_iss :: string
  cr_iat :: int

record VerifiedBundle =
  vb_pointer :: Pointer
  vb_credential_id :: bytes

record bundle_ext =
  be_syntax :: "bytes \<Rightarrow> (json, string) result"
  be_pointer :: "bytes \<Rightarrow> (Pointer, string) result"
  be_value :: "bytes \<Rightarrow> json option"
  be_sign1_tagged :: "bytes \<Rightarrow> CoseSign1 option"
  be_sha256 :: "bytes \<Rightarrow> bytes"
  be_signature_from_der :: "bytes \<Rightarrow> bytes option"


section \<open>Pointers\<close>

definition parse_pointer :: "bundle_ext \<Rightarrow> bytes \<Rightarrow> (Pointer, string) result" where
  "parse_pointer e bs =
     (if length bs > MAX_POINTER_BYTES then Err ''pointer larger than 1024 bytes''
      else if \<not> from_utf8 bs then Err ''pointer is not UTF-8''
      else and_then (map_err ((@) ''pointer: '') (and_then (be_syntax e bs) no_duplicate_keys)) (\<lambda>_.
      and_then (map_err ((@) ''pointer: '') (be_pointer e bs)) (\<lambda>p.
      if pt_schema p \<noteq> POINTER_SCHEMA then Err (''pointer schema must be \"'' @ POINTER_SCHEMA @ ''\"'')
      else if \<not> valid_identifier (pt_owner p) MAX_OWNER_BYTES
        then Err (''pointer owner must be 1-'' @ show_nat MAX_OWNER_BYTES @
          '' bytes of [A-Za-z0-9:._@-] without \"..\"'')
      else if \<not> (1 \<le> pt_seq p \<and> pt_seq p \<le> MAX_SEQ) then Err (''pointer seq must be 1-'' @ show_nat MAX_SEQ)
      else if \<not> is_lower_hex_hash (pt_catalog_hash p)
        then Err ''pointer catalogHash must be 64 lowercase hex characters''
      else if \<not> (1 \<le> pt_catalog_size p \<and> pt_catalog_size p \<le> MAX_CATALOG_BYTES)
        then Err (''pointer catalogSize must be 1-'' @ show_nat MAX_CATALOG_BYTES)
      else if \<not> is_utc_timestamp (pt_issued_at p) then Err ''pointer issuedAt must be YYYY-MM-DDTHH:MM:SSZ''
      else Ok p)))"

definition b64 :: "auth_ext \<Rightarrow> string \<Rightarrow> string \<Rightarrow> nat \<Rightarrow> (bytes, BundleError) result" where
  "b64 x field v mx =
     (if length v > (mx + 2) div 3 * 4 then Err (Invalid (field @ '' too large''))
      else and_then (ok_or (Invalid (field @ '' is not unpadded base64url'')) (b64url_decode x v)) (\<lambda>bs.
      if bs = [] \<or> length bs > mx then Err (Invalid (field @ '' must be 1-'' @ show_nat mx @ '' bytes''))
      else Ok bs))"


section \<open>The attestation\<close>

record cred_state =
  cd_seen :: "string list"
  cd_typ :: "string option"
  cd_iss :: "string option"
  cd_sub :: "string option"
  cd_id :: "bytes option"
  cd_key :: "VerifyingKey option"
  cd_rp :: "string option"
  cd_iat :: "int option"

definition cred_start :: cred_state where
  "cred_start = \<lparr>cd_seen = [], cd_typ = None, cd_iss = None, cd_sub = None, cd_id = None, cd_key = None,
     cd_rp = None, cd_iat = None\<rparr>"

definition cred_public_key :: "auth_ext \<Rightarrow> cbor \<Rightarrow> (VerifyingKey, string) result" where
  "cred_public_key x m =
     and_then (ok_or ''credential publicKey is not a COSE_Key'' (cose_key_from_cbor x m)) (\<lambda>cose.
       map_err ((@) ''credential publicKey: '') (p256_from_cose_key x cose))"

definition cred_entry :: "auth_ext \<Rightarrow> string \<Rightarrow> cbor \<Rightarrow> cred_state \<Rightarrow> (cred_state, string) result" where
  "cred_entry x k v s =
     (let mistyped = Err (''credential has unexpected or mistyped '' @ k) in
      if k = ''typ'' then (case v of CText t \<Rightarrow> Ok (s\<lparr>cd_typ := Some t\<rparr>) | _ \<Rightarrow> mistyped)
      else if k = ''iss'' then (case v of CText t \<Rightarrow> Ok (s\<lparr>cd_iss := Some t\<rparr>) | _ \<Rightarrow> mistyped)
      else if k = ''sub'' then (case v of CText t \<Rightarrow> Ok (s\<lparr>cd_sub := Some t\<rparr>) | _ \<Rightarrow> mistyped)
      else if k = ''credentialId'' then (case v of CBytes b \<Rightarrow> Ok (s\<lparr>cd_id := Some b\<rparr>) | _ \<Rightarrow> mistyped)
      else if k = ''publicKey'' then (case v of
          CMap m \<Rightarrow> and_then (cred_public_key x (CMap m)) (\<lambda>vk. Ok (s\<lparr>cd_key := Some vk\<rparr>))
        | _ \<Rightarrow> mistyped)
      else if k = ''rpId'' then (case v of CText t \<Rightarrow> Ok (s\<lparr>cd_rp := Some t\<rparr>) | _ \<Rightarrow> mistyped)
      else if k = ''iat'' then (case v of
          CInteger n \<Rightarrow> and_then (ok_or ''credential iat'' (i64_try_from n)) (\<lambda>n. Ok (s\<lparr>cd_iat := Some n\<rparr>))
        | _ \<Rightarrow> mistyped)
      else mistyped)"

definition cred_step :: "auth_ext \<Rightarrow> cbor \<times> cbor \<Rightarrow> cred_state \<Rightarrow> (cred_state, string) result" where
  "cred_step x e s = (case fst e of
       CText k \<Rightarrow>
         if k \<in> set (cd_seen s) then Err (''credential repeats '' @ k)
         else cred_entry x k (snd e) (s\<lparr>cd_seen := k # cd_seen s\<rparr>)
     | _ \<Rightarrow> Err ''credential keys must be text'')"

definition cred_missing :: "string \<Rightarrow> string" where
  "cred_missing name = ''credential is missing '' @ name"

definition some_non_empty :: "string option \<Rightarrow> string option" where
  "some_non_empty v = Option.bind v (\<lambda>s. if s \<noteq> [] then Some s else None)"

definition cred_finish :: "cred_state \<Rightarrow> (Credential, string) result" where
  "cred_finish s =
     (if cd_typ s \<noteq> Some PASSKEY_CREDENTIAL_TYP
      then Err (''credential typ must be \"'' @ PASSKEY_CREDENTIAL_TYP @ ''\"'')
      else and_then (ok_or (cred_missing ''iss'') (cd_iss s)) (\<lambda>iss.
        and_then (ok_or (cred_missing ''sub'') (some_non_empty (cd_sub s))) (\<lambda>sub.
        and_then (ok_or (cred_missing ''credentialId'') (some_non_empty (cd_id s))) (\<lambda>cid.
        and_then (ok_or (cred_missing ''publicKey'') (cd_key s)) (\<lambda>key.
        and_then (ok_or (cred_missing ''rpId'') (cd_rp s)) (\<lambda>rp.
        and_then (ok_or (cred_missing ''iat'') (cd_iat s)) (\<lambda>iat.
          Ok \<lparr>cr_sub = sub, cr_credential_id = cid, cr_public_key = key, cr_rp_id = rp, cr_iss = iss,
              cr_iat = iat\<rparr>)))))))"

definition parse_credential :: "auth_ext \<Rightarrow> bytes \<Rightarrow> (Credential, string) result" where
  "parse_credential x payload =
     and_then (ok_or ''credential payload is not CBOR'' (cbor_from_reader x payload)) (\<lambda>v. case v of
         CMap entries \<Rightarrow> and_then (fold_result (cred_step x) entries cred_start) cred_finish
       | _ \<Rightarrow> Err ''credential payload is not a map'')"

fun credential_auth_error :: "AuthError \<Rightarrow> BundleError" where
  "credential_auth_error (KeySet why) = KeySetUnavailable why"
| "credential_auth_error UnknownKid = Invalid ''credential signed by an unknown key''"
| "credential_auth_error Algorithm = Invalid ''credential must be ES256''"
| "credential_auth_error _ = Invalid ''credential signature does not verify''"

definition credential_sign1 :: "bundle_ext \<Rightarrow> auth_ext \<Rightarrow> bytes \<Rightarrow> CoseSign1 option" where
  "credential_sign1 e x bs =
     (if bs \<noteq> [] \<and> hd bs = CHR 0xD2 then be_sign1_tagged e bs else cose_sign1_from_slice x bs)"

definition verify_credential ::
  "bundle_ext \<Rightarrow> verify_env \<Rightarrow> bytes \<Rightarrow> int \<Rightarrow> (CwtVerifier, Credential, BundleError) io" where
  "verify_credential e env bs now =
     io_bind (io_lift (ok_or (Invalid ''credential is not a COSE_Sign1'') (credential_sign1 e (ve_ext env) bs)))
       (\<lambda>sign1.
     if s1_content_type sign1 \<noteq> Some (CtText CREDENTIAL_CONTENT_TYPE)
     then io_fail (Invalid (''credential content type must be \"'' @ CREDENTIAL_CONTENT_TYPE @ ''\"''))
     else
     io_bind (io_map_err credential_auth_error (verify_sign1 env sign1)) (\<lambda>_.
     io_bind (io_lift (ok_or (Invalid ''credential has no payload'') (s1_payload sign1))) (\<lambda>payload.
     io_bind (io_lift (map_err Invalid (parse_credential (ve_ext env) payload))) (\<lambda>credential. \<lambda>v.
       (if (case cv_expected_iss v of Some iss \<Rightarrow> cr_iss credential \<noteq> iss | None \<Rightarrow> False)
        then Err (Invalid ''credential issuer mismatch'')
        else if cr_iat credential > add_i64 now ATTESTATION_SKEW_SECS
        then Err (Invalid ''credential issued in the future'')
        else Ok credential, v)))))"

definition check_credential :: "Credential \<Rightarrow> Pointer \<Rightarrow> Passkeys \<Rightarrow> (unit, BundleError) result" where
  "check_credential credential pointer passkeys =
     (if cr_sub credential \<noteq> pt_owner pointer
      then Err (Invalid ''credential subject does not match the pointer owner'')
      else if cr_rp_id credential \<noteq> pk_rp_id passkeys
      then Err (Invalid ''credential rpId is not this relying party'')
      else Ok ())"


section \<open>The assertion and the bundle\<close>

definition flags_byte :: "bytes \<Rightarrow> 8 word" where
  "flags_byte auth_data = word_of_nat (byte_of (auth_data ! 32))"

definition verify_assertion ::
  "bundle_ext \<Rightarrow> auth_ext \<Rightarrow> bytes \<Rightarrow> Assertion \<Rightarrow> VerifyingKey \<Rightarrow> Passkeys \<Rightarrow> (unit, BundleError) result" where
  "verify_assertion e x pointer_bytes assertion key passkeys =
     and_then (b64 x ''assertion.authenticatorData'' (as_authenticator_data assertion)
                 MAX_AUTHENTICATOR_DATA_BYTES) (\<lambda>auth_data.
     and_then (b64 x ''assertion.clientDataJSON'' (as_client_data_json assertion)
                 MAX_CLIENT_DATA_BYTES) (\<lambda>client_data.
     and_then (b64 x ''assertion.signature'' (as_signature assertion) MAX_SIGNATURE_BYTES) (\<lambda>signature.
     and_then (ok_or (Invalid ''clientDataJSON is not JSON'') (be_value e client_data)) (\<lambda>cd.
     if json_get_str ''type'' cd \<noteq> Some ''webauthn.get''
     then Err (Invalid ''clientDataJSON type must be webauthn.get'')
     else
     and_then (ok_or (Invalid ''clientDataJSON challenge missing or not base64url'')
                 (Option.bind (json_get_str ''challenge'' cd) (b64url_decode x))) (\<lambda>challenge.
     if challenge \<noteq> be_sha256 e pointer_bytes
     then Err (Invalid ''assertion challenge is not SHA-256 of the pointer'')
     else if json_get_str ''origin'' cd \<noteq> Some (pk_origin passkeys)
     then Err (Invalid ''clientDataJSON origin is not this relying party'')
     else if Option.bind (json_get ''crossOrigin'' cd) json_as_bool = Some True
     then Err (Invalid ''cross-origin assertions are refused'')
     else if length auth_data < 37 then Err (Invalid ''authenticatorData too short'')
     else if take 32 auth_data \<noteq> be_sha256 e (pk_rp_id passkeys)
     then Err (Invalid ''authenticatorData rpIdHash is not this relying party'')
     else if flags_byte auth_data AND FLAG_UP = 0 \<or> flags_byte auth_data AND FLAG_UV = 0
     then Err (Invalid ''assertion must have user presence and verification'')
     else
     and_then (ok_or (Invalid ''assertion signature is not DER ECDSA'') (be_signature_from_der e signature))
       (\<lambda>sig.
     ensure (ecdsa_verify x key (auth_data @ be_sha256 e client_data) sig)
       (Invalid ''assertion signature does not verify'')))))))"

definition verify_bundle ::
  "bundle_ext \<Rightarrow> verify_env \<Rightarrow> Bundle \<Rightarrow> string \<Rightarrow> Passkeys \<Rightarrow> int \<Rightarrow>
   (CwtVerifier, VerifiedBundle, BundleError) io" where
  "verify_bundle e env bundle expected_owner passkeys now =
     io_bind (io_lift (b64 (ve_ext env) ''pointer'' (bu_pointer bundle) MAX_POINTER_BYTES)) (\<lambda>pointer_bytes.
     io_bind (io_lift (map_err Invalid (parse_pointer e pointer_bytes))) (\<lambda>pointer.
     if pt_owner pointer \<noteq> expected_owner
     then io_fail (Invalid ''pointer owner does not match the catalog subject'')
     else
     io_bind (io_lift (b64 (ve_ext env) ''credential'' (bu_credential bundle) MAX_ATTESTATION_BYTES)) (\<lambda>attestation.
     io_bind (verify_credential e env attestation now) (\<lambda>credential.
     io_bind (io_lift (check_credential credential pointer passkeys)) (\<lambda>_.
     io_bind (io_lift (b64 (ve_ext env) ''assertion.credentialId'' (as_credential_id (bu_assertion bundle))
                MAX_CREDENTIAL_ID_BYTES)) (\<lambda>credential_id.
     if credential_id \<noteq> cr_credential_id credential
     then io_fail (Invalid ''assertion credentialId does not match the attested credential'')
     else
     io_bind (io_lift (verify_assertion e (ve_ext env) pointer_bytes (bu_assertion bundle)
                (cr_public_key credential) passkeys)) (\<lambda>_.
     io_return \<lparr>vb_pointer = pointer, vb_credential_id = credential_id\<rparr>)))))))"


section \<open>What an attestation must contain\<close>

definition cred_names :: "string list" where
  "cred_names = [''typ'', ''iss'', ''sub'', ''credentialId'', ''publicKey'', ''rpId'', ''iat'']"

lemma cred_step_seen:
  "cred_step x (k, v) s = Ok t \<Longrightarrow>
   \<exists>n. k = CText n \<and> n \<in> set cred_names \<and> n \<notin> set (cd_seen s) \<and> cd_seen t = n # cd_seen s"
  by (auto simp: cred_step_def cred_entry_def cred_names_def Let_def result_simps split: if_splits cbor.splits)

lemma cred_loop_keys:
  assumes "fold_result (cred_step x) es cred_start = Ok t"
  shows "distinct (map fst es) \<and> fst ` set es \<subseteq> CText ` set cred_names"
proof -
  define I where "I pre s \<longleftrightarrow> distinct (map fst pre) \<and> fst ` set pre \<subseteq> CText ` set cred_names \<and>
    fst ` set pre = CText ` set (cd_seen s)" for pre :: "(cbor \<times> cbor) list" and s :: cred_state
  have "I es t"
  proof (rule fold_result_invariant[OF assms])
    fix pre e u v
    assume i: "I pre u" and e: "cred_step x e u = Ok v"
    obtain k w where [simp]: "e = (k, w)" by force
    from cred_step_seen[of x k w u v] e obtain n where "k = CText n" "n \<in> set cred_names"
      "n \<notin> set (cd_seen u)" "cd_seen v = n # cd_seen u" by auto
    with i show "I (pre @ [e]) v" by (auto simp: I_def)
  qed (simp add: I_def cred_start_def)
  then show ?thesis unfolding I_def by blast
qed

text \<open>A local of the loop: one key sets it, from a value that encodes it.\<close>

locale credential_field =
  fixes get :: "cred_state \<Rightarrow> 'a option" and key :: cbor and encodes :: "auth_ext \<Rightarrow> cbor \<Rightarrow> 'a \<Rightarrow> bool"
  assumes start: "get cred_start = None"
    and step: "cred_step x (k, v) s = Ok t \<Longrightarrow>
       if k = key then \<exists>a. get t = Some a \<and> encodes x v a else get t = get s"
begin

lemma loop_field:
  assumes "fold_result (cred_step x) es cred_start = Ok t"
  shows "get t = Some a \<Longrightarrow> \<exists>v. map_of es key = Some v \<and> encodes x v a"
    and "map_of es key = Some v \<Longrightarrow> \<exists>a. get t = Some a \<and> encodes x v a"
proof -
  define I where "I pre s \<longleftrightarrow> fst ` set pre = CText ` set (cd_seen s) \<and>
     (\<forall>v. (key, v) \<in> set pre \<longrightarrow> (\<exists>a. get s = Some a \<and> encodes x v a)) \<and>
     (key \<notin> fst ` set pre \<longrightarrow> get s = None)" for pre :: "(cbor \<times> cbor) list" and s
  have "I es t"
  proof (rule fold_result_invariant[OF assms])
    show "I [] cred_start" using start by (simp add: I_def cred_start_def)
  next
    fix pre e u v
    assume i: "I pre u" and e: "cred_step x e u = Ok v"
    obtain k w where [simp]: "e = (k, w)" by force
    from cred_step_seen[of x k w u v] e obtain n where n: "k = CText n" "n \<notin> set (cd_seen u)" "cd_seen v = n # cd_seen u"
      by auto
    then have "k \<notin> fst ` set pre" using i by (auto simp: I_def)
    with i n step[of x k w u v] e show "I (pre @ [e]) v"
      by (cases "k = key") (auto simp: I_def image_iff)
  qed
  then show "get t = Some a \<Longrightarrow> \<exists>v. map_of es key = Some v \<and> encodes x v a"
    and "map_of es key = Some v \<Longrightarrow> \<exists>a. get t = Some a \<and> encodes x v a"
    using cred_loop_keys[OF assms] by (force simp: I_def)+
qed

end

lemmas cred_step_defs = cred_start_def cred_step_def cred_entry_def Let_def

interpretation typ_cred: credential_field cd_typ "CText ''typ''" "\<lambda>_ v a. v = CText a"
  by unfold_locales (auto simp: cred_step_defs result_simps split: if_splits cbor.splits)

interpretation iss_cred: credential_field cd_iss "CText ''iss''" "\<lambda>_ v a. v = CText a"
  by unfold_locales (auto simp: cred_step_defs result_simps split: if_splits cbor.splits)

interpretation sub_cred: credential_field cd_sub "CText ''sub''" "\<lambda>_ v a. v = CText a"
  by unfold_locales (auto simp: cred_step_defs result_simps split: if_splits cbor.splits)

interpretation id_cred: credential_field cd_id "CText ''credentialId''" "\<lambda>_ v a. v = CBytes a"
  by unfold_locales (auto simp: cred_step_defs result_simps split: if_splits cbor.splits)

interpretation key_cred: credential_field cd_key "CText ''publicKey''"
  "\<lambda>x v a. (\<exists>m. v = CMap m) \<and> cred_public_key x v = Ok a"
  by unfold_locales (auto simp: cred_step_defs result_simps split: if_splits cbor.splits)

interpretation rp_cred: credential_field cd_rp "CText ''rpId''" "\<lambda>_ v a. v = CText a"
  by unfold_locales (auto simp: cred_step_defs result_simps split: if_splits cbor.splits)

interpretation iat_cred: credential_field cd_iat "CText ''iat''" "\<lambda>_ v a. v = CInteger a \<and> in_i64 a"
  by unfold_locales (auto simp: cred_step_defs result_simps i64_try_from_def split: if_splits cbor.splits)

text \<open>What the entries of a payload attest.\<close>

definition attests :: "auth_ext \<Rightarrow> (cbor \<times> cbor) list \<Rightarrow> Credential \<Rightarrow> bool" where
  "attests x es c \<longleftrightarrow>
     map_of es (CText ''typ'') = Some (CText PASSKEY_CREDENTIAL_TYP) \<and>
     map_of es (CText ''iss'') = Some (CText (cr_iss c)) \<and>
     map_of es (CText ''sub'') = Some (CText (cr_sub c)) \<and> cr_sub c \<noteq> [] \<and>
     map_of es (CText ''credentialId'') = Some (CBytes (cr_credential_id c)) \<and> cr_credential_id c \<noteq> [] \<and>
     (\<exists>m. map_of es (CText ''publicKey'') = Some (CMap m) \<and> cred_public_key x (CMap m) = Ok (cr_public_key c)) \<and>
     map_of es (CText ''rpId'') = Some (CText (cr_rp_id c)) \<and>
     map_of es (CText ''iat'') = Some (CInteger (cr_iat c)) \<and> in_i64 (cr_iat c)"

lemma cred_finish_Ok:
  "cred_finish s = Ok c \<longleftrightarrow> cd_typ s = Some PASSKEY_CREDENTIAL_TYP \<and> cd_iss s = Some (cr_iss c) \<and>
   cd_sub s = Some (cr_sub c) \<and> cr_sub c \<noteq> [] \<and> cd_id s = Some (cr_credential_id c) \<and> cr_credential_id c \<noteq> [] \<and>
   cd_key s = Some (cr_public_key c) \<and> cd_rp s = Some (cr_rp_id c) \<and> cd_iat s = Some (cr_iat c)"
  by (cases c) (auto simp: cred_finish_def some_non_empty_def result_simps Option.bind_eq_Some_conv split: if_splits)

lemma cred_loop_finish:
  assumes "fold_result (cred_step x) es cred_start = Ok t"
  shows "cred_finish t = Ok c \<longleftrightarrow> attests x es c"
proof
  note f = typ_cred.loop_field(1)[OF assms] iss_cred.loop_field(1)[OF assms] sub_cred.loop_field(1)[OF assms]
    id_cred.loop_field(1)[OF assms] key_cred.loop_field(1)[OF assms] rp_cred.loop_field(1)[OF assms]
    iat_cred.loop_field(1)[OF assms]
  assume "cred_finish t = Ok c"
  then show "attests x es c" unfolding cred_finish_Ok attests_def by (auto dest!: f)
next
  note b = typ_cred.loop_field(2)[OF assms] iss_cred.loop_field(2)[OF assms] sub_cred.loop_field(2)[OF assms]
    id_cred.loop_field(2)[OF assms] key_cred.loop_field(2)[OF assms] rp_cred.loop_field(2)[OF assms]
    iat_cred.loop_field(2)[OF assms]
  assume "attests x es c"
  then show "cred_finish t = Ok c" unfolding cred_finish_Ok attests_def by (auto dest!: b)
qed

lemma attests_entry:
  assumes "attests x fs c" and "n \<in> set cred_names" and "map_of fs (CText n) = Some v"
  shows "\<exists>t. cred_entry x n v s = Ok t"
proof -
  have "list_all (\<lambda>n. \<forall>v. map_of fs (CText n) = Some v \<longrightarrow> (\<exists>t. cred_entry x n v s = Ok t)) cred_names"
    using assms(1) by (clarsimp simp: cred_names_def attests_def cred_entry_def i64_try_from_def)
  with assms(2,3) show ?thesis by (simp add: list_all_iff)
qed

lemma cred_loop_complete:
  assumes "distinct (map fst es)" and "fst ` set es \<subseteq> CText ` set cred_names" and "attests x fs c"
    and "\<And>e. e \<in> set es \<Longrightarrow> map_of fs (fst e) = Some (snd e)" and "fst ` set es \<inter> CText ` set (cd_seen s) = {}"
  shows "\<exists>t. fold_result (cred_step x) es s = Ok t"
  using assms
proof (induction es arbitrary: s)
  case (Cons e es)
  obtain n v where e: "e = (CText n, v)" "n \<in> set cred_names" using Cons.prems(2) by (cases e) auto
  have n: "n \<notin> set (cd_seen s)" using Cons.prems(5) e by auto
  have "map_of fs (CText n) = Some v" using Cons.prems(4)[of e] e by simp
  with attests_entry[OF Cons.prems(3) e(2)] obtain t where "cred_entry x n v (s\<lparr>cd_seen := n # cd_seen s\<rparr>) = Ok t"
    by blast
  then have t: "cred_step x e s = Ok t" using e n by (simp add: cred_step_def)
  moreover have "cd_seen t = n # cd_seen s" using cred_step_seen[of x "CText n" v s t] t e by auto
  moreover have "fst ` set es \<inter> CText ` set (n # cd_seen s) = {}" using Cons.prems(1,5) e by auto
  ultimately have "\<exists>t'. fold_result (cred_step x) es t = Ok t'"
    using Cons.prems by (intro Cons.IH) simp_all
  with t show ?case by simp
qed simp

lemma attests_names: "attests x es c \<Longrightarrow> CText ` set cred_names \<subseteq> fst ` set es"
proof -
  have dom: "map_of es k = Some v \<Longrightarrow> k \<in> fst ` set es" for k v by (force dest: map_of_SomeD)
  assume "attests x es c"
  then show ?thesis
    unfolding cred_names_def by (auto simp: attests_def dest: dom)
qed

text \<open>A payload parses to a credential exactly when it is a CBOR map whose keys are the seven
  names of an attestation, each once and in any order, its \<open>typ\<close> is that of a passkey
  attestation, and the credential's fields are the values under their names: a non-empty subject
  and credential id, a P-256 key that the COSE key encodes, and an issue time within \<open>i64\<close>.\<close>

theorem parse_credential_iff:
  "parse_credential x payload = Ok c \<longleftrightarrow>
   (\<exists>es. cbor_from_reader x payload = Some (CMap es) \<and> distinct (map fst es) \<and>
      fst ` set es = CText ` set cred_names \<and> attests x es c)"
proof -
  have "(\<exists>t. fold_result (cred_step x) es cred_start = Ok t \<and> cred_finish t = Ok c) \<longleftrightarrow>
     distinct (map fst es) \<and> fst ` set es = CText ` set cred_names \<and> attests x es c" for es
  proof
    assume "\<exists>t. fold_result (cred_step x) es cred_start = Ok t \<and> cred_finish t = Ok c"
    then obtain t where t: "fold_result (cred_step x) es cred_start = Ok t" "cred_finish t = Ok c" by blast
    then have "attests x es c" using cred_loop_finish by simp
    with cred_loop_keys[OF t(1)] attests_names
    show "distinct (map fst es) \<and> fst ` set es = CText ` set cred_names \<and> attests x es c"
      by (simp add: subset_antisym)
  next
    assume *: "distinct (map fst es) \<and> fst ` set es = CText ` set cred_names \<and> attests x es c"
    then have "\<exists>t. fold_result (cred_step x) es cred_start = Ok t"
      by (intro cred_loop_complete[of es x es c]) (auto simp: cred_start_def)
    then obtain t where "fold_result (cred_step x) es cred_start = Ok t" by blast
    with * cred_loop_finish[of x es t c] show "\<exists>t. fold_result (cred_step x) es cred_start = Ok t \<and> cred_finish t = Ok c"
      by simp
  qed
  then have loop: "and_then (fold_result (cred_step x) es cred_start) cred_finish = Ok c \<longleftrightarrow>
     distinct (map fst es) \<and> fst ` set es = CText ` set cred_names \<and> attests x es c" for es
    unfolding and_then_eq_Ok .
  show ?thesis
  proof (cases "cbor_from_reader x payload")
    case (Some v)
    then show ?thesis by (cases v) (simp_all add: parse_credential_def loop)
  qed (simp add: parse_credential_def)
qed


text \<open>No payload is both a token's claims and a passkey attestation, although the identity
  provider signs both with the same keys: what parses as claims is refused as a credential.\<close>

theorem claims_are_not_credentials:
  assumes "parse_claims x payload = Ok claims"
  shows "\<exists>why. parse_credential x payload = Err why"
proof (cases "parse_credential x payload")
  case (Ok c)
  then obtain es where es: "cbor_from_reader x payload = Some (CMap es)" "fst ` set es = CText ` set cred_names"
    unfolding parse_credential_iff by blast
  from assms obtain s where "fold_result (claim_step x) es claims_start = Ok s"
    using es(1) by (elim parse_claims_Ok) simp
  from claims_loop_no_typ[OF this] es(2) show ?thesis by (simp add: cred_names_def)
qed simp

theorem claims_are_not_credentials_witness:
  "\<exists>why. parse_credential sample_ext ''person'' = Err why"
  using claims_are_not_credentials[OF sample_parse_person] by simp


section \<open>Pointers and fields\<close>

text \<open>Pointer bytes are accepted exactly when they are at most 1024 bytes of UTF-8 JSON in which
  no object repeats a key, they decode to the pointer returned, its schema is the supported one,
  its owner is safe as a key segment, its sequence number fits every JSON reader's integers, it names
  a lowercase hash and a size within the catalog bound, and it is dated by a UTC timestamp.\<close>

theorem parse_pointer_accepts_iff:
  "parse_pointer e bs = Ok p \<longleftrightarrow>
   length bs \<le> 1024 \<and> from_utf8 bs \<and> (\<exists>v. be_syntax e bs = Ok v \<and> distinct_keys v) \<and> be_pointer e bs = Ok p \<and>
   pt_schema p = POINTER_SCHEMA \<and> valid_identifier (pt_owner p) MAX_OWNER_BYTES \<and>
   pt_seq p \<in> {1..2 ^ 53 - 1} \<and> is_lower_hex_hash (pt_catalog_hash p) \<and>
   pt_catalog_size p \<in> {1..MAX_CATALOG_BYTES} \<and> is_utc_timestamp (pt_issued_at p)"
proof -
  have "no_duplicate_keys v = Ok u \<longleftrightarrow> distinct_keys v" for v u
    using no_duplicate_keys_iff(1)[of v] by (cases u) simp
  moreover have "MAX_SEQ = 2 ^ 53 - 1" by (simp add: MAX_SEQ_def)
  ultimately show ?thesis by (auto simp: parse_pointer_def result_simps split: if_splits)
qed

lemma b64_Ok: "b64 x field v mx = Ok bs \<longleftrightarrow>
   length v \<le> (mx + 2) div 3 * 4 \<and> b64url_decode x v = Some bs \<and> bs \<noteq> [] \<and> length bs \<le> mx"
  by (auto simp: b64_def result_simps split: if_splits)

lemma encoded_bound:
  assumes "n \<le> mx"
  shows "(4 * n + 2) div 3 \<le> (mx + 2) div 3 * 4" and "n \<le> (mx + 2) div 3 * (4::nat)"
proof -
  have "mx \<le> 3 * ((mx + 2) div 3)" by linarith
  with assms have "n \<le> 3 * ((mx + 2) div 3)" by linarith
  then show "(4 * n + 2) div 3 \<le> (mx + 2) div 3 * 4" and "n \<le> (mx + 2) div 3 * 4" by linarith+
qed

text \<open>The bound on a field's encoding never refuses a field whose decoded form is within bounds:
  with unpadded base64, which spends \<open>\<lceil>4n/3\<rceil>\<close> characters on \<open>n\<close> bytes, a field is
  accepted exactly when it decodes to between 1 and \<open>max\<close> bytes.\<close>

theorem b64_bounds_exact:
  assumes "\<And>bs. b64url_decode x v = Some bs \<Longrightarrow> length v = (4 * length bs + 2) div 3"
  shows "b64 x field v mx = Ok bs \<longleftrightarrow> b64url_decode x v = Some bs \<and> 1 \<le> length bs \<and> length bs \<le> mx"
  using assms encoded_bound(1)[of _ mx] by (auto simp: b64_Ok Suc_le_eq)

theorem b64_bounds_exact_witness:
  "b64 (sample_ext\<lparr>b64url_decode := (\<lambda>s. if s = ''QUI'' then Some ''AB'' else None)\<rparr>) ''f'' ''QUI'' 2 = Ok ''AB''"
  by (subst b64_bounds_exact) (auto split: if_splits)


section \<open>Assertions\<close>

lemma flag_up: "w AND FLAG_UP \<noteq> 0 \<longleftrightarrow> bit w 0"
  unfolding FLAG_UP_def using and_exp_eq_0_iff_not_bit[of w 0] by simp

lemma flag_uv: "w AND FLAG_UV \<noteq> 0 \<longleftrightarrow> bit w 2"
  unfolding FLAG_UV_def using and_exp_eq_0_iff_not_bit[of w 2] by simp

text \<open>What a WebAuthn assertion over a pointer has to be.\<close>

definition asserted ::
  "bundle_ext \<Rightarrow> auth_ext \<Rightarrow> bytes \<Rightarrow> bytes \<Rightarrow> bytes \<Rightarrow> bytes \<Rightarrow> VerifyingKey \<Rightarrow> Passkeys \<Rightarrow> bool" where
  "asserted e x pointer_bytes auth_data client_data signature key passkeys \<longleftrightarrow>
     (\<exists>cd c sig. be_value e client_data = Some cd \<and> json_get ''type'' cd = Some (JString ''webauthn.get'') \<and>
        json_get ''challenge'' cd = Some (JString c) \<and> b64url_decode x c = Some (be_sha256 e pointer_bytes) \<and>
        json_get ''origin'' cd = Some (JString (pk_origin passkeys)) \<and>
        json_get ''crossOrigin'' cd \<noteq> Some (JBool True) \<and>
        be_signature_from_der e signature = Some sig \<and>
        ecdsa_verify x key (auth_data @ be_sha256 e client_data) sig) \<and>
     37 \<le> length auth_data \<and> take 32 auth_data = be_sha256 e (pk_rp_id passkeys) \<and>
     bit (flags_byte auth_data) 0 \<and> bit (flags_byte auth_data) 2"

lemma json_as_bool_eq_Some: "json_as_bool v = Some b \<longleftrightarrow> v = JBool b"
  by (cases v) auto

lemma verify_assertion_Ok:
  "verify_assertion e x pointer_bytes assertion key passkeys = Ok u \<longleftrightarrow>
   (\<exists>auth_data client_data signature.
      b64 x ''assertion.authenticatorData'' (as_authenticator_data assertion) 4096 = Ok auth_data \<and>
      b64 x ''assertion.clientDataJSON'' (as_client_data_json assertion) 4096 = Ok client_data \<and>
      b64 x ''assertion.signature'' (as_signature assertion) 80 = Ok signature \<and>
      asserted e x pointer_bytes auth_data client_data signature key passkeys)"
proof -
  have guard: "(if b then Err y else r) = Ok u \<longleftrightarrow> \<not> b \<and> r = Ok u" for b and y :: BundleError and r
    by simp
  have "asserted e x pointer_bytes auth_data client_data signature key passkeys \<longleftrightarrow>
     (\<exists>cd. be_value e client_data = Some cd \<and> \<not> json_get_str ''type'' cd \<noteq> Some ''webauthn.get'' \<and>
       (\<exists>ch. Option.bind (json_get_str ''challenge'' cd) (b64url_decode x) = Some ch \<and>
          \<not> ch \<noteq> be_sha256 e pointer_bytes \<and> \<not> json_get_str ''origin'' cd \<noteq> Some (pk_origin passkeys) \<and>
          Option.bind (json_get ''crossOrigin'' cd) json_as_bool \<noteq> Some True \<and> \<not> length auth_data < 37 \<and>
          \<not> take 32 auth_data \<noteq> be_sha256 e (pk_rp_id passkeys) \<and>
          \<not> (flags_byte auth_data AND FLAG_UP = 0 \<or> flags_byte auth_data AND FLAG_UV = 0) \<and>
          (\<exists>sig. be_signature_from_der e signature = Some sig \<and>
             ecdsa_verify x key (auth_data @ be_sha256 e client_data) sig)))"
    for auth_data client_data signature
    unfolding asserted_def json_get_str_eq_Some flag_up[symmetric] flag_uv[symmetric]
    by (auto simp: json_as_bool_eq_Some json_get_str_eq_Some Option.bind_eq_Some_conv not_less)
  then show ?thesis
    by (simp only: verify_assertion_def guard and_then_eq_Ok ok_or_eq_Ok ensure_eq_Ok simp_thms
        MAX_AUTHENTICATOR_DATA_BYTES_def MAX_CLIENT_DATA_BYTES_def MAX_SIGNATURE_BYTES_def)
      (simp add: ex_simps[symmetric] del: ex_simps)
qed


section \<open>Bundles\<close>

lemma verify_sign1_expected_iss: "verify_sign1 env sign1 v = (r, v') \<Longrightarrow> cv_expected_iss v' = cv_expected_iss v"
  using verify_sign1_state[of env sign1 v] refresh_keys_expected_iss[of env v] by auto

text \<open>The attestation's part of a bundle's chain of trust.\<close>

definition attested_by ::
  "bundle_ext \<Rightarrow> verify_env \<Rightarrow> CwtVerifier \<Rightarrow> int \<Rightarrow> bytes \<Rightarrow> Credential \<Rightarrow> bool" where
  "attested_by e env v now attestation c \<longleftrightarrow>
     (\<exists>sign1 key payload. credential_sign1 e (ve_ext env) attestation = Some sign1 \<and>
        s1_content_type sign1 = Some (CtText CREDENTIAL_CONTENT_TYPE) \<and> s1_alg sign1 = Some ES256 \<and>
        s1_crit sign1 = [] \<and> s1_key_id sign1 \<noteq> [] \<and> fst (find_key env (s1_key_id sign1) v) = Ok key \<and>
        verify_signature (ve_ext env) sign1 key \<and> s1_payload sign1 = Some payload \<and>
        parse_credential (ve_ext env) payload = Ok c) \<and>
     (\<forall>iss. cv_expected_iss v = Some iss \<longrightarrow> cr_iss c = iss) \<and> cr_iat c \<le> now + 60"

lemma verify_credential_Ok:
  assumes "clock_ok now"
  shows "fst (verify_credential e env bs now v) = Ok c \<longleftrightarrow> attested_by e env v now bs c"
proof -
  have sign: "(\<exists>v'. verify_sign1 env sign1 v = (Ok u, v') \<and> P v') \<longleftrightarrow>
     s1_alg sign1 = Some ES256 \<and> s1_crit sign1 = [] \<and> s1_key_id sign1 \<noteq> [] \<and>
     (\<exists>key. fst (find_key env (s1_key_id sign1) v) = Ok key \<and> verify_signature (ve_ext env) sign1 key) \<and>
     P (snd (find_key env (s1_key_id sign1) v))" for u sign1 P
    by (cases u) (auto simp: verify_sign1_Ok; metis prod.collapse)
  have iss: "cv_expected_iss (snd (find_key env kid v)) = cv_expected_iss v" for kid
    using find_key_state[of env kid v] refresh_keys_expected_iss[of env v] by auto
  have skew: "add_i64 now ATTESTATION_SKEW_SECS = now + 60"
    using assms by (simp add: add_i64_clock ATTESTATION_SKEW_SECS_def)
  show ?thesis
    unfolding verify_credential_def attested_by_def fst_io_bind_Ok_iff
    by (cases "credential_sign1 e (ve_ext env) bs")
      (auto simp: io_lift_def io_map_err_Ok_iff fst_io_bind_Ok_iff sign result_simps iss skew not_less
        split: if_splits option.splits)
qed

definition bundle_valid ::
  "bundle_ext \<Rightarrow> verify_env \<Rightarrow> Bundle \<Rightarrow> string \<Rightarrow> Passkeys \<Rightarrow> int \<Rightarrow> CwtVerifier \<Rightarrow> VerifiedBundle \<Rightarrow> bool" where
  "bundle_valid e env bundle owner passkeys now v vb \<longleftrightarrow>
    (\<exists>pointer_bytes attestation c auth_data client_data signature.
       b64 (ve_ext env) ''pointer'' (bu_pointer bundle) 1024 = Ok pointer_bytes \<and>
       parse_pointer e pointer_bytes = Ok (vb_pointer vb) \<and> pt_owner (vb_pointer vb) = owner \<and>
       b64 (ve_ext env) ''credential'' (bu_credential bundle) 4096 = Ok attestation \<and>
       attested_by e env v now attestation c \<and> cr_sub c = owner \<and> cr_rp_id c = pk_rp_id passkeys \<and>
       b64 (ve_ext env) ''assertion.credentialId'' (as_credential_id (bu_assertion bundle)) 1023
         = Ok (cr_credential_id c) \<and> vb_credential_id vb = cr_credential_id c \<and>
       b64 (ve_ext env) ''assertion.authenticatorData'' (as_authenticator_data (bu_assertion bundle)) 4096
         = Ok auth_data \<and>
       b64 (ve_ext env) ''assertion.clientDataJSON'' (as_client_data_json (bu_assertion bundle)) 4096
         = Ok client_data \<and>
       b64 (ve_ext env) ''assertion.signature'' (as_signature (bu_assertion bundle)) 80 = Ok signature \<and>
       asserted e (ve_ext env) pointer_bytes auth_data client_data signature (cr_public_key c) passkeys)"

lemma verify_bundle_Ok_iff:
  assumes "clock_ok now"
  shows "fst (verify_bundle e env bundle owner passkeys now v) = Ok vb \<longleftrightarrow> bundle_valid e env bundle owner passkeys now v vb"
    (is "?l \<longleftrightarrow> ?r")
proof
  assume ?l
  then obtain pointer_bytes attestation c v' where *:
    "b64 (ve_ext env) ''pointer'' (bu_pointer bundle) 1024 = Ok pointer_bytes"
    "parse_pointer e pointer_bytes = Ok (vb_pointer vb)" "pt_owner (vb_pointer vb) = owner"
    "b64 (ve_ext env) ''credential'' (bu_credential bundle) 4096 = Ok attestation"
    "verify_credential e env attestation now v = (Ok c, v')" "cr_sub c = owner" "cr_rp_id c = pk_rp_id passkeys"
    "b64 (ve_ext env) ''assertion.credentialId'' (as_credential_id (bu_assertion bundle)) 1023 = Ok (cr_credential_id c)"
    "vb_credential_id vb = cr_credential_id c"
    "verify_assertion e (ve_ext env) pointer_bytes (bu_assertion bundle) (cr_public_key c) passkeys = Ok ()"
    by (auto simp: verify_bundle_def check_credential_def fst_io_bind_Ok_iff io_lift_Ok_iff io_lift_def result_simps
        split: if_splits)
  have "attested_by e env v now attestation c"
    using verify_credential_Ok[OF assms, of e env attestation v c] *(5) by simp
  with * show ?r unfolding bundle_valid_def verify_assertion_Ok by blast
next
  assume ?r
  then obtain pointer_bytes attestation c where *:
    "b64 (ve_ext env) ''pointer'' (bu_pointer bundle) 1024 = Ok pointer_bytes"
    "parse_pointer e pointer_bytes = Ok (vb_pointer vb)" "pt_owner (vb_pointer vb) = owner"
    "b64 (ve_ext env) ''credential'' (bu_credential bundle) 4096 = Ok attestation"
    "attested_by e env v now attestation c" "cr_sub c = owner" "cr_rp_id c = pk_rp_id passkeys"
    "b64 (ve_ext env) ''assertion.credentialId'' (as_credential_id (bu_assertion bundle)) 1023 = Ok (cr_credential_id c)"
    "vb_credential_id vb = cr_credential_id c"
    "verify_assertion e (ve_ext env) pointer_bytes (bu_assertion bundle) (cr_public_key c) passkeys = Ok ()"
    unfolding bundle_valid_def verify_assertion_Ok by blast
  obtain v' where "verify_credential e env attestation now v = (Ok c, v')"
    using verify_credential_Ok[OF assms, of e env attestation v c] *(5) by (metis prod.collapse)
  with * show ?l
    by (simp add: verify_bundle_def check_credential_def fst_io_bind_Ok_iff io_lift_def)
qed

text \<open>C11: A bundle is accepted for a creator exactly when its whole chain holds: the pointer is valid
  and names that creator; the attestation is signed by a key the identity provider publishes, has the
  attestation's content type, names the creator, this relying party and the pinned issuer and is not
  from the future; the assertion names the attested credential, and is an assertion for this
  pointer's hash, this origin and this relying party, with user presence and verification, signed by
  the attested key.\<close>

theorem verify_bundle_accepts_iff:
  assumes "clock_ok now"
  shows "fst (verify_bundle e env bundle owner passkeys now v) = Ok vb \<longleftrightarrow>
    (\<exists>pointer_bytes attestation c auth_data client_data signature.
       b64 (ve_ext env) ''pointer'' (bu_pointer bundle) 1024 = Ok pointer_bytes \<and>
       parse_pointer e pointer_bytes = Ok (vb_pointer vb) \<and> pt_owner (vb_pointer vb) = owner \<and>
       b64 (ve_ext env) ''credential'' (bu_credential bundle) 4096 = Ok attestation \<and>
       attested_by e env v now attestation c \<and> cr_sub c = owner \<and> cr_rp_id c = pk_rp_id passkeys \<and>
       b64 (ve_ext env) ''assertion.credentialId'' (as_credential_id (bu_assertion bundle)) 1023
         = Ok (cr_credential_id c) \<and> vb_credential_id vb = cr_credential_id c \<and>
       b64 (ve_ext env) ''assertion.authenticatorData'' (as_authenticator_data (bu_assertion bundle)) 4096
         = Ok auth_data \<and>
       b64 (ve_ext env) ''assertion.clientDataJSON'' (as_client_data_json (bu_assertion bundle)) 4096
         = Ok client_data \<and>
       b64 (ve_ext env) ''assertion.signature'' (as_signature (bu_assertion bundle)) 80 = Ok signature \<and>
       asserted e (ve_ext env) pointer_bytes auth_data client_data signature (cr_public_key c) passkeys)"
  unfolding verify_bundle_Ok_iff[OF assms] bundle_valid_def ..


section \<open>A sample bundle\<close>

definition sample_pointer :: Pointer where
  "sample_pointer = \<lparr>pt_schema = POINTER_SCHEMA, pt_owner = ''alice'', pt_seq = 7,
     pt_catalog_hash = replicate 64 (CHR ''a''), pt_catalog_size = 10, pt_issued_at = ''2024-02-29T14:30:00Z''\<rparr>"

definition sample_digest :: bytes where
  "sample_digest = replicate 32 (CHR ''h'')"

definition sample_auth_data :: bytes where
  "sample_auth_data = sample_digest @ [CHR 0x05, CHR 0x00, CHR 0x00, CHR 0x00, CHR 0x00]"

definition sample_attestation :: "(cbor \<times> cbor) list" where
  "sample_attestation =
     [(CText ''typ'', CText PASSKEY_CREDENTIAL_TYP), (CText ''iss'', CText ''idp''), (CText ''sub'', CText ''alice''),
      (CText ''credentialId'', CBytes ''cred''), (CText ''publicKey'', CMap []), (CText ''rpId'', CText ''rp''),
      (CText ''iat'', CInteger 1000)]"

definition sample_creator :: "(cbor \<times> cbor) list" where
  "sample_creator = sample_person @ [(CText ''arkavo_patreon'', CMap [(CText ''campaign_id'', CText ''7''), (CText ''role'', CText ''creator'')])]"

definition sample_bundle_auth :: auth_ext where
  "sample_bundle_auth = sample_ext
     \<lparr>b64url_decode := (\<lambda>s. Some (case strip_prefix ''T.'' s of Some r \<Rightarrow> CWT_TAG_PREFIX @ r | None \<Rightarrow> s)),
      cose_sign1_from_slice := (\<lambda>b. Some \<lparr>s1_alg = Some ES256, s1_crit = [], s1_key_id = ''k1'',
        s1_content_type = (if b = ''creator'' then None else Some (CtText CREDENTIAL_CONTENT_TYPE)), s1_payload = Some b, s1_protected = [],
        s1_signature = ''sig''\<rparr>),
      cose_key_from_cbor := (\<lambda>_. Some \<lparr>ck_kty = EC2, ck_key_id = [], ck_params =
        [(LInt (-1), CInteger 1), (LInt (-2), CBytes (replicate 32 (CHR ''x''))),
         (LInt (-3), CBytes (replicate 32 (CHR ''y'')))]\<rparr>),
      cbor_from_reader := (\<lambda>b. if b = ''attestation'' then Some (CMap sample_attestation)
        else if b = ''creator'' then Some (CMap sample_creator) else None),
      from_sec1_bytes := (\<lambda>_. Some ''pub'')\<rparr>"

definition sample_bundle_ext :: bundle_ext where
  "sample_bundle_ext = \<lparr>be_syntax = (\<lambda>_. Ok (JObject [(''seq'', JInt 7)])), be_pointer = (\<lambda>_. Ok sample_pointer),
     be_value = (\<lambda>_. Some (JObject [(''challenge'', JString sample_digest), (''origin'', JString ''https://rp''),
       (''type'', JString ''webauthn.get'')])),
     be_sign1_tagged = (\<lambda>_. None), be_sha256 = (\<lambda>_. sample_digest), be_signature_from_der = Some\<rparr>"

definition sample_bundle_env :: verify_env where
  "sample_bundle_env = sample_env\<lparr>ve_ext := sample_bundle_auth\<rparr>"

definition sample_bundle :: Bundle where
  "sample_bundle = \<lparr>bu_pointer = ''pointer'',
     bu_assertion = \<lparr>as_credential_id = ''cred'', as_authenticator_data = sample_auth_data,
       as_client_data_json = ''client'', as_signature = ''sig''\<rparr>, bu_credential = ''attestation''\<rparr>"

definition sample_verified_bundle :: VerifiedBundle where
  "sample_verified_bundle = \<lparr>vb_pointer = sample_pointer, vb_credential_id = ''cred''\<rparr>"

definition sample_credential :: Credential where
  "sample_credential = \<lparr>cr_sub = ''alice'', cr_credential_id = ''cred'', cr_public_key = ''pub'', cr_rp_id = ''rp'',
     cr_iss = ''idp'', cr_iat = 1000\<rparr>"

lemma sample_parse_pointer: "parse_pointer sample_bundle_ext ''pointer'' = Ok sample_pointer"
proof -
  have "is_utc_timestamp ''2024-02-29T14:30:00Z''"
    by (simp add: is_utc_timestamp_def timestamp_shape_def timestamp_num_def days_in_month_def ascii_defs)
  moreover have "is_lower_hex_hash (replicate 64 (CHR ''a''))" by code_simp
  moreover have "valid_identifier ''alice'' 248" by code_simp
  moreover have "from_utf8 ''pointer''" by code_simp
  ultimately show ?thesis
    by (simp add: parse_pointer_accepts_iff sample_bundle_ext_def sample_pointer_def MAX_CATALOG_BYTES_def
        MAX_OWNER_BYTES_def)
qed

lemma sample_parse_credential: "parse_credential sample_bundle_auth ''attestation'' = Ok sample_credential"
  unfolding parse_credential_iff
  by (auto simp: sample_bundle_auth_def sample_attestation_def sample_credential_def attests_def cred_names_def
      cred_public_key_def p256_from_cose_key_def ec2_step_def in_i64_def Let_def)

lemma sample_attested: "attested_by sample_bundle_ext sample_bundle_env sample_verifier 1500 ''attestation'' sample_credential"
proof -
  have "find_key sample_bundle_env ''k1'' sample_verifier = (Ok ''pub'', sample_verifier)"
    by (simp add: find_key_def key_lookup_def sample_verifier_def with_expected_issuer_def with_static_keys_def table_simps)
  then show ?thesis
    using sample_parse_credential
    by (simp add: attested_by_def credential_sign1_def sample_bundle_env_def verify_signature_def)
      (simp add: sample_bundle_auth_def sample_ext_def sample_credential_def sample_verifier_def with_expected_issuer_def)
qed

lemma sample_digest_no_token: "strip_prefix ''T.'' (replicate 32 (CHR ''h'') @ r) = None"
proof -
  have "replicate 32 (CHR ''h'') = CHR ''h'' # replicate 31 (CHR ''h'')" by (simp flip: replicate_Suc)
  then show ?thesis by simp
qed

lemma sample_asserted:
  "asserted sample_bundle_ext sample_bundle_auth ''pointer'' sample_auth_data ''client'' ''sig'' ''pub'' (for_rp ''rp'')"
  by (simp add: asserted_def sample_bundle_ext_def sample_bundle_auth_def sample_ext_def sample_auth_data_def
      sample_digest_def for_rp_def flags_byte_def nth_append bit_numeral_word_iff
      sample_digest_no_token[of "[]", simplified])

lemma sample_bundle_valid:
  "bundle_valid sample_bundle_ext sample_bundle_env sample_bundle ''alice'' (for_rp ''rp'') 1500 sample_verifier sample_verified_bundle"
proof -
  have d: "b64 sample_bundle_auth f s mx = Ok s" if "s \<noteq> []" "length s \<le> mx" "strip_prefix ''T.'' s = None" for f s mx
  proof -
    have "length s \<le> (mx + 2) div 3 * 4" by (rule encoded_bound(2)[OF that(2)])
    with that show ?thesis by (simp add: b64_Ok sample_bundle_auth_def)
  qed
  have l: "length sample_auth_data \<le> 4096" "sample_auth_data \<noteq> []" "strip_prefix ''T.'' sample_auth_data = None"
    by (simp_all add: sample_auth_data_def sample_digest_def sample_digest_no_token)
  show ?thesis
    unfolding bundle_valid_def
    by (rule exI[of _ "''pointer''"], rule exI[of _ "''attestation''"], rule exI[of _ sample_credential],
        rule exI[of _ sample_auth_data], rule exI[of _ "''client''"], rule exI[of _ "''sig''"],
        insert l sample_parse_pointer sample_attested sample_asserted)
      (simp add: d sample_bundle_def sample_verified_bundle_def sample_credential_def sample_pointer_def for_rp_def
        sample_bundle_env_def)
qed

lemma sample_verify_bundle:
  "fst (verify_bundle sample_bundle_ext sample_bundle_env sample_bundle ''alice'' (for_rp ''rp'') 1500 sample_verifier)
     = Ok sample_verified_bundle"
  using sample_bundle_valid by (simp add: verify_bundle_Ok_iff clock_ok_def)

theorem verify_bundle_accepts_iff_witness:
  "clock_ok 1500 \<and> parse_pointer sample_bundle_ext ''pointer'' = Ok (vb_pointer sample_verified_bundle) \<and>
   pt_owner (vb_pointer sample_verified_bundle) = ''alice''"
proof -
  have c: "clock_ok 1500" by (simp add: clock_ok_def)
  obtain bs where "b64 (ve_ext sample_bundle_env) ''pointer'' (bu_pointer sample_bundle) 1024 = Ok bs"
    "pt_owner (vb_pointer sample_verified_bundle) = ''alice''"
    using sample_verify_bundle unfolding verify_bundle_accepts_iff[OF c] by blast
  with c sample_parse_pointer show ?thesis by (simp add: sample_verified_bundle_def)
qed

end
