(* ===== verification/Catalogs_V2_Api.thy ===== *)
theory Catalogs_V2_Api
  imports Ingest Catalogs_Api Catalog_V2
begin

text \<open>
  \<open>src/catalogs_v2_api.rs\<close>: publishing a creator's catalog (\<open>PUT /v2/catalogs/{sub}\<close>) and resolving
  its pointer (\<open>GET /v2/catalogs/{sub}\<close>). A handler runs on a world: the verifier's key cache, the
  clients of the two decision services, the cache of catalog attributes and the store. The checks of
  a publish, its reading of the stored pointer and its writes are separate definitions, composed by
  \<open>put_catalog\<close> and, one store operation at a time, by \<open>publish_step\<close>, on which the interleaving of
  publishes is defined.
\<close>

section \<open>State\<close>

definition UNSUPPORTED_MEDIA_TYPE :: nat where "UNSUPPORTED_MEDIA_TYPE = 415"
definition PAYLOAD_TOO_LARGE :: nat where "PAYLOAD_TOO_LARGE = 413"

definition CATALOG_POINTER_CACHE_CONTROL :: string where
  "CATALOG_POINTER_CACHE_CONTROL = ''private, max-age=300''"

definition MAX_PUT_BYTES :: nat where
  "MAX_PUT_BYTES = 10 * 1024 * 1024"

definition ATTRIBUTE_CACHE_CAPACITY :: nat where
  "ATTRIBUTE_CACHE_CAPACITY = 100000"

datatype StatusRefusal = StatusRefused string | StatusUnavailable

datatype CredentialStatus = IdpCredentialStatus string | NoCredentialStatus

record 'd Readers =
  rs_provider :: "(DecisionRequest \<Rightarrow> ('d, Decisions, string) io) option"
  rs_action :: string
  rs_environment :: "json option"

record ('s, 'p, 'd) V2State =
  v2_api :: "('s, 'p) ApiState"
  v2_passkeys :: Passkeys
  v2_status :: CredentialStatus
  v2_readers :: "'d Readers"

record IndexRecord =
  ix_owner :: string
  ix_attribute :: string
  ix_entries :: json

record PutRequest =
  rq_document :: string
  rq_bundle :: Bundle
  rq_index :: json

text \<open>serde's decoding and encoding of the request, the bundle and the index record, BLAKE3, bao-tree,
  the identity provider's status endpoint and base64url encoding.\<close>

record 'dt v2_ext =
  vx_bundle :: bundle_ext
  vx_manifest :: "'dt manifest_ext"
  vx_tdf :: tdf_ext
  vx_bao :: bao
  vx_blake3 :: "bytes \<Rightarrow> string"
  vx_put_request :: "bytes \<Rightarrow> (PutRequest, string) result"
  vx_entry :: "json \<Rightarrow> (CreatorCatalogEntry, string) result"
  vx_bundle_to_vec :: "Bundle \<Rightarrow> bytes"
  vx_bundle_from_slice :: "bytes \<Rightarrow> (Bundle, string) result"
  vx_record_to_vec :: "IndexRecord \<Rightarrow> bytes"
  vx_record_from_slice :: "bytes \<Rightarrow> (IndexRecord, string) result"
  vx_b64url_encode :: "bytes \<Rightarrow> string"
  vx_status_get :: "string \<Rightarrow> reply"
  vx_status_json :: "bytes \<Rightarrow> (string \<times> bool) option"

record ('s, 'p, 'd) v2_world =
  vw_verifier :: CwtVerifier
  vw_publishing :: 'p
  vw_reading :: 'd
  vw_attributes :: "(string, string) table"
  vw_store :: 's

definition on_store :: "('s, 'a, 'e) io \<Rightarrow> (('s, 'p, 'd) v2_world, 'a, 'e) io" where
  "on_store m w = (case m (vw_store w) of (r, s) \<Rightarrow> (r, w\<lparr>vw_store := s\<rparr>))"

definition on_verifier :: "(CwtVerifier, 'a, 'e) io \<Rightarrow> (('s, 'p, 'd) v2_world, 'a, 'e) io" where
  "on_verifier m w = (case m (vw_verifier w) of (r, v) \<Rightarrow> (r, w\<lparr>vw_verifier := v\<rparr>))"

definition on_publishing :: "(CwtVerifier \<times> 'p, 'a, 'e) io \<Rightarrow> (('s, 'p, 'd) v2_world, 'a, 'e) io" where
  "on_publishing m w = (case m (vw_verifier w, vw_publishing w) of (r, (v, p)) \<Rightarrow>
     (r, w\<lparr>vw_verifier := v, vw_publishing := p\<rparr>))"

definition on_reading :: "('d, 'a, 'e) io \<Rightarrow> (('s, 'p, 'd) v2_world, 'a, 'e) io" where
  "on_reading m w = (case m (vw_reading w) of (r, d) \<Rightarrow> (r, w\<lparr>vw_reading := d\<rparr>))"


section \<open>The credential's status\<close>

text \<open>\<open>str::replace\<close> of a non-empty pattern.\<close>

function str_replace :: "string \<Rightarrow> string \<Rightarrow> string \<Rightarrow> string" where
  "str_replace pat repl [] = []"
| "str_replace pat repl (ch # cs) = (case strip_prefix pat (ch # cs) of
       Some rest \<Rightarrow> if length rest < length (ch # cs) then repl @ str_replace pat repl rest else ch # str_replace pat repl cs
     | None \<Rightarrow> ch # str_replace pat repl cs)"
  by pat_completeness auto
termination by (relation "measure (\<lambda>(pat, repl, s). length s)") auto

definition idp_status_check :: "'dt v2_ext \<Rightarrow> string \<Rightarrow> bytes \<Rightarrow> string \<Rightarrow> (unit, StatusRefusal) result" where
  "idp_status_check x url_template credential_id sub =
     (case vx_status_get x (str_replace ''{credentialId}'' (vx_b64url_encode x credential_id) url_template) of
        Reply_Failed _ \<Rightarrow> Err StatusUnavailable
      | Reply status body \<Rightarrow>
          if status = 404 then Err (StatusRefused ''passkey credential unknown'')
          else if status \<noteq> 200 then Err StatusUnavailable
          else (case vx_status_json x body of
              None \<Rightarrow> Err StatusUnavailable
            | Some (status_sub, revoked) \<Rightarrow>
                if revoked then Err (StatusRefused ''passkey credential revoked'')
                else if status_sub \<noteq> sub then Err (StatusRefused ''passkey credential belongs to another subject'')
                else Ok ()))"

definition status_check :: "'dt v2_ext \<Rightarrow> CredentialStatus \<Rightarrow> bytes \<Rightarrow> string \<Rightarrow> (unit, StatusRefusal) result" where
  "status_check x st credential_id sub = (case st of
       IdpCredentialStatus url_template \<Rightarrow> idp_status_check x url_template credential_id sub
     | NoCredentialStatus \<Rightarrow> Ok ())"


section \<open>Stored pointers and preconditions\<close>

definition stored_seq :: "'dt v2_ext \<Rightarrow> auth_ext \<Rightarrow> bytes \<Rightarrow> (nat \<times> string, string) result" where
  "stored_seq x ax body =
     and_then (vx_bundle_from_slice x body) (\<lambda>bundle.
     and_then (ok_or ''invalid base64'' (b64url_decode ax (bu_pointer bundle))) (\<lambda>bs.
     and_then (parse_pointer (vx_bundle x) bs) (\<lambda>pointer.
       Ok (pt_seq pointer, pt_catalog_hash pointer))))"

definition pointer_etag :: "nat \<Rightarrow> string" where
  "pointer_etag seq = ''\"'' @ show_nat seq @ ''\"''"

definition entity_tags :: "headers \<Rightarrow> string \<Rightarrow> (string list, unit) result option" where
  "entity_tags headers name = (case header_get_all headers name of
       [] \<Rightarrow> None
     | vs \<Rightarrow> Some (and_then (map_result (\<lambda>v. ok_or () (header_to_str v)) vs) (\<lambda>strs.
         Ok (concat (map (\<lambda>s. map trim (split_on (CHR '','') s)) strs)))))"

definition if_match_holds :: "(string list, unit) result option \<Rightarrow> string option \<Rightarrow> bool" where
  "if_match_holds tags served = (case tags of
       None \<Rightarrow> True
     | Some (Err _) \<Rightarrow> False
     | Some (Ok ts) \<Rightarrow> (case served of
           None \<Rightarrow> False
         | Some etag \<Rightarrow> list_ex (\<lambda>t. t = ''*'' \<or> t = etag) ts))"

definition if_none_match_holds :: "(string list, unit) result option \<Rightarrow> string option \<Rightarrow> bool" where
  "if_none_match_holds tags served = (case tags of
       None \<Rightarrow> True
     | Some (Err _) \<Rightarrow> False
     | Some (Ok ts) \<Rightarrow> (case served of
           None \<Rightarrow> True
         | Some etag \<Rightarrow>
             \<not> list_ex (\<lambda>t. t = ''*'' \<or> (case strip_prefix ''W/'' t of Some r \<Rightarrow> r | None \<Rightarrow> t) = etag) ts))"

definition preconditions_hold :: "headers \<Rightarrow> string option \<Rightarrow> bool" where
  "preconditions_hold headers served \<longleftrightarrow>
     if_match_holds (entity_tags headers ''if-match'') served \<and>
     if_none_match_holds (entity_tags headers ''if-none-match'') served"


section \<open>The checks of a publish\<close>

text \<open>What the checks establish of a publish, and the later steps use.\<close>

record publication =
  pn_sub :: string
  pn_seq :: nat
  pn_hash :: string
  pn_document :: bytes
  pn_bundle :: Bundle
  pn_attribute :: string
  pn_index :: json
  pn_entries :: "CreatorCatalogEntry list"

definition envelope_attribute :: "'dt v2_ext \<Rightarrow> bytes \<Rightarrow> string \<Rightarrow> (string, string) result" where
  "envelope_attribute x document sub =
     (let not_tdf = ''document is not a TDF'' in
      and_then (map_err (\<lambda>_. not_tdf) (validate_tdf_structure (vx_tdf x) document)) (\<lambda>manifest.
      and_then (map_err (\<lambda>_. not_tdf) (te_manifest_to_json (vx_tdf x) manifest)) (\<lambda>json.
      and_then (ok_or not_tdf (read_manifest (vx_manifest x) json)) (\<lambda>policy.
        map_err (\<lambda>why. case why of
            NotCatalog \<Rightarrow> ''document is not a catalog''
          | NoPolicyId \<Rightarrow> ''catalog policy has no uuid''
          | PolicyRefusal \<Rightarrow> ''catalog policy must be one campaign or the creator attribute'')
          (check_envelope policy sub)))))"

definition owns_campaign :: "VerifiedClaims \<Rightarrow> string \<Rightarrow> bool" where
  "owns_campaign claims i = (case vc_arkavo_patreon claims of
       None \<Rightarrow> False
     | Some p \<Rightarrow> json_get_str ''role'' p = Some ''creator'' \<and> json_get_str ''campaign_id'' p = Some i)"

definition read_put_body :: "(bytes, string) result \<Rightarrow> (bytes, http_error) result" where
  "read_put_body body = (case body of
       Err _ \<Rightarrow> Err (BAD_REQUEST, ''unreadable request body'')
     | Ok bs \<Rightarrow> if length bs > MAX_PUT_BYTES then Err (PAYLOAD_TOO_LARGE, ''request too large'') else Ok bs)"

definition parse_put :: "'dt v2_ext \<Rightarrow> auth_ext \<Rightarrow> bytes \<Rightarrow> (PutRequest \<times> bytes, http_error) result" where
  "parse_put x ax bs =
     (let invalid = (\<lambda>e. (BAD_REQUEST, ''invalid request: '' @ e)) in
      and_then (map_err invalid (and_then (be_syntax (vx_bundle x) bs) no_duplicate_keys)) (\<lambda>_.
      and_then (map_err invalid (vx_put_request x bs)) (\<lambda>req.
      and_then (ok_or (UNPROCESSABLE_ENTITY, ''invalid request: document must be 1-'' @ show_nat MAX_CATALOG_BYTES @
                  '' bytes of unpadded base64url'')
         (Option.bind (b64url_decode ax (rq_document req)) (\<lambda>d.
            if d \<noteq> [] \<and> length d \<le> MAX_CATALOG_BYTES then Some d else None))) (\<lambda>document.
        Ok (req, document)))))"

definition bundle_error :: "BundleError \<Rightarrow> http_error" where
  "bundle_error e = (case e of
       Invalid why \<Rightarrow> (UNPROCESSABLE_ENTITY, ''invalid bundle: '' @ why)
     | KeySetUnavailable _ \<Rightarrow> (BAD_GATEWAY, ''key set unavailable''))"

definition status_error :: "StatusRefusal \<Rightarrow> http_error" where
  "status_error r = (case r of
       StatusRefused why \<Rightarrow> (FORBIDDEN, why)
     | StatusUnavailable \<Rightarrow> (BAD_GATEWAY, ''credential status unavailable''))"

text \<open>Step 4: the pointer names this document, an envelope of the creator's catalog under one attribute,
  which for a campaign is the publisher's own.\<close>

definition check_document ::
  "'dt v2_ext \<Rightarrow> VerifiedClaims \<Rightarrow> string \<Rightarrow> Pointer \<Rightarrow> bytes \<Rightarrow> (string, http_error) result" where
  "check_document x claims sub pointer document =
     (if vx_blake3 x document \<noteq> pt_catalog_hash pointer \<or> length document \<noteq> pt_catalog_size pointer
      then Err (UNPROCESSABLE_ENTITY, ''invalid bundle: catalogHash or catalogSize does not match the document'')
      else and_then (map_err (\<lambda>why. (UNPROCESSABLE_ENTITY, why)) (envelope_attribute x document sub)) (\<lambda>attribute.
        case strip_prefix CAMPAIGN_FQN_PREFIX attribute of
          Some i \<Rightarrow> if \<not> owns_campaign claims i then Err (FORBIDDEN, ''catalog campaign is not the publisher's'')
                    else Ok attribute
        | None \<Rightarrow> Ok attribute))"

text \<open>Steps 1 to 6.\<close>

definition put_checks ::
  "'dt v2_ext \<Rightarrow> verify_env \<Rightarrow> int \<Rightarrow> int \<Rightarrow> int \<Rightarrow> ('s, 'p, 'd) V2State \<Rightarrow> string \<Rightarrow> headers \<Rightarrow> (bytes, string) result \<Rightarrow>
   (('s, 'p, 'd) v2_world, publication, http_error) io" where
  "put_checks x env now now' now'' state sub headers body =
     (let api = v2_api state in
      io_bind (on_publishing (authorize_publisher env now now' api headers)) (\<lambda>claims.
      if sub \<noteq> vc_sub claims then io_fail (FORBIDDEN, ''catalog does not match token subject'')
      else if \<not> is_json headers then io_fail (UNSUPPORTED_MEDIA_TYPE, ''content type must be application/json'')
      else
      io_bind (io_lift (read_put_body body)) (\<lambda>bs.
      io_bind (io_lift (parse_put x (ve_ext env) bs)) (\<lambda>(req, document).
      io_bind (io_map_err bundle_error (on_verifier
        (verify_bundle (vx_bundle x) env (rq_bundle req) sub (v2_passkeys state) now''))) (\<lambda>verified.
      let pointer = vb_pointer verified; h = vx_blake3 x document in
      io_bind (io_lift (check_document x claims sub pointer document)) (\<lambda>attribute.
      io_bind (io_lift (map_err (\<lambda>why. (UNPROCESSABLE_ENTITY, ''invalid index: '' @ why))
                 (parse_index (vx_entry x) (rq_index req)))) (\<lambda>entries.
      if api_is_blocked api h then io_fail (FORBIDDEN, ''content is blocked'')
      else
      io_bind (on_store (check_payloads (vx_manifest x) api entries attribute)) (\<lambda>_.
      io_bind (io_lift (map_err status_error (status_check x (v2_status state) (vb_credential_id verified) sub))) (\<lambda>_.
        io_return \<lparr>pn_sub = sub, pn_seq = pt_seq pointer, pn_hash = h, pn_document = document,
          pn_bundle = rq_bundle req, pn_attribute = attribute, pn_index = rq_index req, pn_entries = entries\<rparr>)))))))))"


section \<open>Reading the base and writing\<close>

type_synonym current_pointer = "(StoredPointer \<times> nat \<times> string) option"

definition read_current ::
  "'dt v2_ext \<Rightarrow> auth_ext \<Rightarrow> ('s, 'p) ApiState \<Rightarrow> string \<Rightarrow> ('s, current_pointer, http_error) io" where
  "read_current x ax api sub =
     io_bind (io_map_err (\<lambda>_. storage_unavailable) (ts_get_catalog_pointer (api_store api) sub)) (\<lambda>current.
       case current of
         None \<Rightarrow> io_return None
       | Some stored \<Rightarrow> io_lift (map_err (\<lambda>_. storage_unavailable)
           (and_then (stored_seq x ax (sp_body stored)) (\<lambda>(seq, h). Ok (Some (stored, seq, h))))))"

definition read_live :: "('s, 'p) ApiState \<Rightarrow> current_pointer \<Rightarrow> ('s, bool, http_error) io" where
  "read_live api current = (case current of
       None \<Rightarrow> io_return False
     | Some (_, _, h) \<Rightarrow>
         io_bind (io_map_err (\<lambda>_. storage_unavailable) (ts_get_catalog_index (api_store api) h)) (\<lambda>r.
           io_return (r \<noteq> None)))"

text \<open>Whether this publish may replace what is stored: the preconditions see what \<open>GET\<close> serves, the
  seq must exceed the live one. The answer is the entity tag the write expects.\<close>

definition admit ::
  "('s, 'p) ApiState \<Rightarrow> headers \<Rightarrow> nat \<Rightarrow> current_pointer \<Rightarrow> bool \<Rightarrow> (string option, http_error) result" where
  "admit api headers seq current live =
     (let current_seq = (case current of Some (_, n, _) \<Rightarrow> if live then Some n else None | None \<Rightarrow> None);
          served_seq = (case current of
              Some (_, n, h) \<Rightarrow> if live \<and> \<not> api_is_blocked api h then Some n else None
            | None \<Rightarrow> None) in
      if \<not> preconditions_hold headers (map_option pointer_etag served_seq)
      then Err (PRECONDITION_FAILED, ''catalog changed since it was read'')
      else (case current_seq of
          Some n \<Rightarrow> if seq \<le> n then Err (CONFLICT, ''seq must be greater than '' @ show_nat n)
                    else Ok (map_option (\<lambda>(stored, _, _). sp_etag stored) current)
        | None \<Rightarrow> Ok (map_option (\<lambda>(stored, _, _). sp_etag stored) current)))"

definition document_outboard :: "'dt v2_ext \<Rightarrow> publication \<Rightarrow> (bytes, http_error) result" where
  "document_outboard x pn = map_err (\<lambda>_. storage_unavailable)
     (compute_outboard (vx_bao x) (cursor (pn_document pn)) (length (pn_document pn)) (vx_blake3 x (pn_document pn)))"

definition index_record :: "publication \<Rightarrow> IndexRecord" where
  "index_record pn = \<lparr>ix_owner = pn_sub pn, ix_attribute = pn_attribute pn, ix_entries = pn_index pn\<rparr>"

definition write_document :: "('s, 'p) ApiState \<Rightarrow> publication \<Rightarrow> ('s, unit, http_error) io" where
  "write_document api pn = io_map_err (\<lambda>_. storage_unavailable)
     (ts_put_catalog_document (api_store api) (pn_hash pn) (pn_document pn) (pn_sub pn))"

definition write_outboard :: "('s, 'p) ApiState \<Rightarrow> publication \<Rightarrow> bytes \<Rightarrow> ('s, unit, http_error) io" where
  "write_outboard api pn outboard = io_map_err (\<lambda>_. storage_unavailable)
     (ts_put_catalog_outboard (api_store api) (pn_hash pn) outboard)"

definition write_index :: "'dt v2_ext \<Rightarrow> ('s, 'p) ApiState \<Rightarrow> publication \<Rightarrow> ('s, unit, http_error) io" where
  "write_index x api pn = io_map_err (\<lambda>_. storage_unavailable)
     (ts_put_catalog_index (api_store api) (pn_hash pn) (vx_record_to_vec x (index_record pn)))"

definition replace_pointer ::
  "'dt v2_ext \<Rightarrow> ('s, 'p) ApiState \<Rightarrow> publication \<Rightarrow> string option \<Rightarrow> ('s, unit, http_error) io" where
  "replace_pointer x api pn expected =
     io_bind (io_map_err (\<lambda>_. storage_unavailable)
       (ts_put_catalog_pointer (api_store api) (pn_sub pn) (vx_bundle_to_vec x (pn_bundle pn)) expected)) (\<lambda>written.
       if \<not> written then io_fail (CONFLICT, ''seq must be greater than the stored seq: another publish won'')
       else io_return ())"

text \<open>Steps 7 and 8.\<close>

definition publish ::
  "'dt v2_ext \<Rightarrow> auth_ext \<Rightarrow> ('s, 'p) ApiState \<Rightarrow> headers \<Rightarrow> publication \<Rightarrow> ('s, unit, http_error) io" where
  "publish x ax api headers pn =
     io_bind (read_current x ax api (pn_sub pn)) (\<lambda>current.
     io_bind (read_live api current) (\<lambda>live.
     io_bind (io_lift (admit api headers (pn_seq pn) current live)) (\<lambda>expected.
     io_bind (io_lift (document_outboard x pn)) (\<lambda>outboard.
     io_bind (write_document api pn) (\<lambda>_.
     io_bind (write_outboard api pn outboard) (\<lambda>_.
     io_bind (write_index x api pn) (\<lambda>_.
       replace_pointer x api pn expected)))))))"

definition put_catalog ::
  "'dt v2_ext \<Rightarrow> verify_env \<Rightarrow> int \<Rightarrow> int \<Rightarrow> int \<Rightarrow> ('s, 'p, 'd) V2State \<Rightarrow> string \<Rightarrow> headers \<Rightarrow> (bytes, string) result \<Rightarrow>
   (('s, 'p, 'd) v2_world, json, http_error) io" where
  "put_catalog x env now now' now'' state sub headers body =
     io_bind (put_checks x env now now' now'' state sub headers body) (\<lambda>pn.
     io_bind (on_store (publish x (ve_ext env) (v2_api state) headers pn)) (\<lambda>_.
       io_return (JObject [(''hash'', JString (pn_hash pn)), (''owner'', JString sub), (''seq'', JInt (int (pn_seq pn))),
         (''size'', JInt (int (length (pn_document pn))))])))"


section \<open>Resolving a pointer\<close>

definition is_operator :: "('s, 'p) ApiState \<Rightarrow> VerifiedClaims \<Rightarrow> bool" where
  "is_operator api claims = (case api_publishing api of
       None \<Rightarrow> False
     | Some publishing \<Rightarrow> (case strip_prefix ''client:'' (vc_sub claims) of
           None \<Rightarrow> False
         | Some client \<Rightarrow> client \<noteq> [] \<and> client \<in> set (pp_operator_client_ids (tp_policy publishing)) \<and>
             aud_contains (vc_aud claims) client \<and>
             (case vc_arkavo_roles claims of None \<Rightarrow> False | Some r \<Rightarrow> list_ex (\<lambda>role. role = ''service-account'') r)))"

definition remember_attribute :: "string \<Rightarrow> string \<Rightarrow> ('s, 'p, 'd) v2_world \<Rightarrow> ('s, 'p, 'd) v2_world" where
  "remember_attribute h attribute w =
     (let known = (if length (vw_attributes w) \<ge> ATTRIBUTE_CACHE_CAPACITY then [] else vw_attributes w) in
      w\<lparr>vw_attributes := tinsert h attribute known\<rparr>)"

definition catalog_attribute ::
  "'dt v2_ext \<Rightarrow> ('s, 'p) ApiState \<Rightarrow> string \<Rightarrow> (('s, 'p, 'd) v2_world, string option, http_error) io" where
  "catalog_attribute x api h w = (case tget (vw_attributes w) h of
       Some attribute \<Rightarrow> (Ok (Some attribute), w)
     | None \<Rightarrow>
         io_bind (on_store (io_map_err (\<lambda>_. storage_unavailable) (ts_get_catalog_index (api_store api) h))) (\<lambda>r. case r of
             None \<Rightarrow> io_return None
           | Some body \<Rightarrow>
               io_bind (io_lift (map_err (\<lambda>_. storage_unavailable) (vx_record_from_slice x body))) (\<lambda>record.
               io_bind (io_modify (remember_attribute h (ix_attribute record))) (\<lambda>_.
                 io_return (Some (ix_attribute record))))) w)"

definition decide_reader ::
  "verify_env \<Rightarrow> int \<Rightarrow> 'd Readers \<Rightarrow> VerifiedClaims \<Rightarrow> headers \<Rightarrow> string \<Rightarrow> string \<Rightarrow>
   (('s, 'p, 'd) v2_world, unit, http_error) io" where
  "decide_reader env now readers claims headers h attribute =
     (case rs_provider readers of
        None \<Rightarrow> io_fail (BAD_GATEWAY, ''decision unavailable'')
      | Some decide \<Rightarrow>
          (case bearer headers of
             None \<Rightarrow> io_fail (INTERNAL_SERVER_ERROR, ''the reader's token was verified'')
           | Some token \<Rightarrow>
               io_bind (on_verifier (person_chain env claims token headers (rs_environment readers) now)) (\<lambda>chain.
               io_bind (io_map_err (\<lambda>_. (BAD_GATEWAY, ''decision unavailable''))
                 (on_reading (decide \<lparr>dr_chain = chain, dr_action = rs_action readers, dr_resource_type = CatalogItem,
                    dr_resources = [(h, [attribute])]\<rparr>))) (\<lambda>verdicts.
                 if tget verdicts h = Some True then io_return ()
                 else io_fail (FORBIDDEN, ''not entitled to catalog'')))))"

definition get_pointer ::
  "'dt v2_ext \<Rightarrow> verify_env \<Rightarrow> int \<Rightarrow> int \<Rightarrow> ('s, 'p, 'd) V2State \<Rightarrow> string \<Rightarrow> headers \<Rightarrow>
   (('s, 'p, 'd) v2_world, http_response, http_error) io" where
  "get_pointer x env now now' state sub headers =
     (let api = v2_api state; not_found = (NOT_FOUND, ''catalog not found'') in
      io_bind (on_verifier (authorize_catalog_reader env now headers)) (\<lambda>claims.
      if \<not> valid_identifier sub MAX_OWNER_BYTES then io_fail (BAD_REQUEST, ''invalid subject'')
      else if owner_hidden api (Some sub) then io_fail not_found
      else
      io_bind (on_store (io_map_err (\<lambda>_. storage_unavailable) (ts_get_catalog_pointer (api_store api) sub))) (\<lambda>r. case r of
          None \<Rightarrow> io_fail not_found
        | Some stored \<Rightarrow>
            io_bind (io_lift (map_err (\<lambda>_. storage_unavailable) (stored_seq x (ve_ext env) (sp_body stored)))) (\<lambda>(seq, h).
            if api_is_blocked api h then io_fail not_found
            else
            io_bind (catalog_attribute x api h) (\<lambda>r. case r of
                None \<Rightarrow> io_fail not_found
              | Some attribute \<Rightarrow>
                  io_bind (if is_operator api claims then io_return ()
                           else decide_reader env now' (v2_readers state) claims headers h attribute) (\<lambda>_.
                    io_return \<lparr>hr_status = 200, hr_headers = [(''content-type'', ''application/json''),
                      (''cache-control'', CATALOG_POINTER_CACHE_CONTROL), (''etag'', pointer_etag seq)],
                      hr_body = sp_body stored\<rparr>))))))"

definition v2_state ::
  "('s, 'p) ApiState \<Rightarrow> string \<Rightarrow> string \<Rightarrow> 'd Readers \<Rightarrow> ('s, 'p, 'd) V2State" where
  "v2_state api rp_id status_url readers =
     \<lparr>v2_api = api, v2_passkeys = for_rp rp_id,
      v2_status = (if status_url = [] then NoCredentialStatus else IdpCredentialStatus status_url), v2_readers = readers\<rparr>"


section \<open>A publish, one store operation at a time\<close>

datatype stage =
    AtPointer
  | AtIndex current_pointer
  | AtDocument "string option" bytes
  | AtOutboard "string option" bytes
  | AtRecord "string option"
  | AtReplace "string option"
  | Published
  | Stopped http_error

definition after :: "('s, 'a, http_error) io \<Rightarrow> ('a \<Rightarrow> stage) \<Rightarrow> 's \<Rightarrow> stage \<times> 's" where
  "after m next s = (case m s of (Ok x, t) \<Rightarrow> (next x, t) | (Err e, t) \<Rightarrow> (Stopped e, t))"

definition admitted ::
  "'dt v2_ext \<Rightarrow> ('s, 'p) ApiState \<Rightarrow> headers \<Rightarrow> publication \<Rightarrow> current_pointer \<Rightarrow> bool \<Rightarrow> stage" where
  "admitted x api headers pn current live =
     (case and_then (admit api headers (pn_seq pn) current live) (\<lambda>expected.
             and_then (document_outboard x pn) (\<lambda>outboard. Ok (AtDocument expected outboard))) of
        Ok next \<Rightarrow> next
      | Err e \<Rightarrow> Stopped e)"

fun publish_step ::
  "'dt v2_ext \<Rightarrow> auth_ext \<Rightarrow> ('s, 'p) ApiState \<Rightarrow> headers \<Rightarrow> publication \<Rightarrow> stage \<Rightarrow> 's \<Rightarrow> stage \<times> 's" where
  "publish_step x ax api headers pn AtPointer s = after (read_current x ax api (pn_sub pn)) AtIndex s"
| "publish_step x ax api headers pn (AtIndex current) s =
     after (read_live api current) (admitted x api headers pn current) s"
| "publish_step x ax api headers pn (AtDocument expected outboard) s =
     after (write_document api pn) (\<lambda>_. AtOutboard expected outboard) s"
| "publish_step x ax api headers pn (AtOutboard expected outboard) s =
     after (write_outboard api pn outboard) (\<lambda>_. AtRecord expected) s"
| "publish_step x ax api headers pn (AtRecord expected) s = after (write_index x api pn) (\<lambda>_. AtReplace expected) s"
| "publish_step x ax api headers pn (AtReplace expected) s = after (replace_pointer x api pn expected) (\<lambda>_. Published) s"
| "publish_step x ax api headers pn Published s = (Published, s)"
| "publish_step x ax api headers pn (Stopped e) s = (Stopped e, s)"

fun run_steps ::
  "'dt v2_ext \<Rightarrow> auth_ext \<Rightarrow> ('s, 'p) ApiState \<Rightarrow> headers \<Rightarrow> publication \<Rightarrow> nat \<Rightarrow> stage \<times> 's \<Rightarrow> stage \<times> 's" where
  "run_steps x ax api headers pn 0 c = c"
| "run_steps x ax api headers pn (Suc n) c = run_steps x ax api headers pn n (publish_step x ax api headers pn (fst c) (snd c))"

definition final_stage :: "(unit, http_error) result \<Rightarrow> stage" where
  "final_stage r = (case r of Ok _ \<Rightarrow> Published | Err e \<Rightarrow> Stopped e)"

lemma run_steps_stopped [simp]: "run_steps x ax api headers pn n (Stopped e, s) = (Stopped e, s)"
  by (induction n) simp_all

lemma after_Ok [simp]: "m s = (Ok a, t) \<Longrightarrow> after m next s = (next a, t)"
  by (simp add: after_def)

lemma after_Err [simp]: "m s = (Err e, t) \<Longrightarrow> after m next s = (Stopped e, t)"
  by (simp add: after_def)

text \<open>Unfolding of a bind against a run of steps.\<close>

lemma bind_steps:
  assumes "\<And>a t. m s = (Ok a, t) \<Longrightarrow> run_steps x ax api headers pn n (next a, t) = (final_stage (fst (f a t)), snd (f a t))"
  shows "run_steps x ax api headers pn n (after m next s) =
    (final_stage (fst (io_bind m f s)), snd (io_bind m f s))"
proof (cases "m s")
  case (Pair r t)
  with assms show ?thesis by (cases r) (simp_all add: io_bind_def final_stage_def)
qed

text \<open>The handler's reading of the base and its writes are exactly six steps, each one store
  operation, whose end tells the handler's answer: what holds of every interleaving of steps holds of
  the handler's runs.\<close>

theorem publish_is_its_steps:
  "run_steps x ax api headers pn 6 (AtPointer, s) =
     (case publish x ax api headers pn s of (r, t) \<Rightarrow> (final_stage r, t))"
proof -
  let ?run = "run_steps x ax api headers pn" and ?fin = "\<lambda>p. (final_stage (fst p), snd p)"
  note step = run_steps.simps publish_step.simps fst_conv snd_conv
  have 1: "?run (Suc 0) (AtReplace e, s) = ?fin (replace_pointer x api pn e s)" for e s
  proof (cases "replace_pointer x api pn e s")
    case (Pair r t)
    then show ?thesis by (cases r) (simp_all add: final_stage_def)
  qed
  have 2: "?run (Suc (Suc 0)) (AtRecord e, s) = ?fin (io_bind (write_index x api pn) (\<lambda>_. replace_pointer x api pn e) s)" for e s
    by (subst run_steps.simps(2), simp only: step(3-), rule bind_steps, rule 1)
  have 3: "?run (Suc (Suc (Suc 0))) (AtOutboard e ob, s) = ?fin (io_bind (write_outboard api pn ob) (\<lambda>_.
      io_bind (write_index x api pn) (\<lambda>_. replace_pointer x api pn e)) s)" for e ob s
    by (subst run_steps.simps(2), simp only: step(3-), rule bind_steps, rule 2)
  have 4: "?run (Suc (Suc (Suc (Suc 0)))) (AtDocument e ob, s) = ?fin (io_bind (write_document api pn) (\<lambda>_.
      io_bind (write_outboard api pn ob) (\<lambda>_. io_bind (write_index x api pn) (\<lambda>_. replace_pointer x api pn e))) s)" for e ob s
    by (subst run_steps.simps(2), simp only: step(3-), rule bind_steps, rule 3)
  have 5: "?run (Suc (Suc (Suc (Suc 0)))) (admitted x api headers pn current live, s) =
      ?fin (io_bind (io_lift (admit api headers (pn_seq pn) current live)) (\<lambda>e. io_bind (io_lift (document_outboard x pn)) (\<lambda>ob.
        io_bind (write_document api pn) (\<lambda>_. io_bind (write_outboard api pn ob) (\<lambda>_.
        io_bind (write_index x api pn) (\<lambda>_. replace_pointer x api pn e))))) s)" for current live s
    using 4 by (cases "admit api headers (pn_seq pn) current live"; cases "document_outboard x pn")
      (simp_all only: admitted_def and_then.simps result.case run_steps_stopped,
       simp_all add: io_lift_def final_stage_def io_bind_def[of "\<lambda>s. (_, s)"])
  have "?run (Suc (Suc (Suc (Suc (Suc (Suc 0)))))) (AtPointer, s) = ?fin (publish x ax api headers pn s)"
    unfolding publish_def
    by (subst run_steps.simps(2), simp only: step(3-), rule bind_steps, subst run_steps.simps(2), simp only: step(3-),
        rule bind_steps, rule 5)
  then show ?thesis by (simp add: numeral_eq_Suc case_prod_unfold del: run_steps.simps publish_step.simps)
qed


text \<open>The steps a publish has left at each stage, and a run of its steps while the node goes on: before each
  step the others may have changed the store and the moderation view at will.\<close>

fun steps_left :: "stage \<Rightarrow> nat" where
  "steps_left AtPointer = 6"
| "steps_left (AtIndex _) = 5"
| "steps_left (AtDocument _ _) = 4"
| "steps_left (AtOutboard _ _) = 3"
| "steps_left (AtRecord _) = 2"
| "steps_left (AtReplace _) = 1"
| "steps_left Published = 0"
| "steps_left (Stopped _) = 0"

fun run_among ::
  "'dt v2_ext \<Rightarrow> auth_ext \<Rightarrow> headers \<Rightarrow> publication \<Rightarrow> (('s, 'p) ApiState \<times> ('s \<Rightarrow> 's)) list \<Rightarrow> stage \<times> 's \<Rightarrow> stage \<times> 's" where
  "run_among x ax headers pn [] c = c"
| "run_among x ax headers pn ((api, others) # rest) c =
     run_among x ax headers pn rest (publish_step x ax api headers pn (fst c) (others (snd c)))"

lemma steps_left_admitted: "steps_left (admitted x api headers pn current live) \<le> 4"
  by (auto simp: admitted_def result_simps split: result.split)

lemma publish_step_progress: "steps_left (fst (publish_step x ax api headers pn g s)) \<le> steps_left g - 1"
  using steps_left_admitted[of x api headers pn]
  by (cases g) (auto simp: after_def split: prod.splits result.splits)

lemma run_among_progress: "steps_left (fst (run_among x ax headers pn acts c)) \<le> steps_left (fst c) - length acts"
proof (induction acts arbitrary: c)
  case (Cons act acts)
  obtain api others where act: "act = (api, others)" by fastforce
  show ?case
    using Cons.IH[of "publish_step x ax api headers pn (fst c) (others (snd c))"]
      publish_step_progress[of x ax api headers pn "fst c" "others (snd c)"] by (simp add: act)
qed simp



section \<open>What a store of catalogs must satisfy\<close>

text \<open>The objects under a catalog hash: a document with that hash, the outboard of such a document, and an
  index record with the attribute of such a document's envelope.\<close>

definition document_ok :: "'dt v2_ext \<Rightarrow> catalog_view \<Rightarrow> string \<Rightarrow> bool" where
  "document_ok x w h \<longleftrightarrow> (\<exists>d. cw_documents w h = Some d \<and> vx_blake3 x (sd_body d) = h)"

definition outboard_ok :: "'dt v2_ext \<Rightarrow> catalog_view \<Rightarrow> string \<Rightarrow> bool" where
  "outboard_ok x w h \<longleftrightarrow> (\<exists>b d. cw_outboards w h = Some b \<and> vx_blake3 x d = h \<and>
     compute_outboard (vx_bao x) (cursor d) (length d) h = Ok b)"

definition index_ok :: "'dt v2_ext \<Rightarrow> catalog_view \<Rightarrow> string \<Rightarrow> bool" where
  "index_ok x w h \<longleftrightarrow> (\<exists>b r d. cw_indexes w h = Some b \<and> vx_record_from_slice x b = Ok r \<and> vx_blake3 x d = h \<and>
     envelope_attribute x d (ix_owner r) = Ok (ix_attribute r))"

definition pointer_ok :: "'dt v2_ext \<Rightarrow> auth_ext \<Rightarrow> catalog_view \<Rightarrow> StoredPointer \<Rightarrow> bool" where
  "pointer_ok x ax w sp \<longleftrightarrow> (\<exists>n h. stored_seq x ax (sp_body sp) = Ok (n, h) \<and>
     document_ok x w h \<and> outboard_ok x w h \<and> index_ok x w h)"

definition catalog_ok :: "'dt v2_ext \<Rightarrow> auth_ext \<Rightarrow> catalog_view \<Rightarrow> bool" where
  "catalog_ok x ax w \<longleftrightarrow> (\<forall>sub sp. cw_pointers w sub = Some sp \<longrightarrow> pointer_ok x ax w sp)"

text \<open>What the checks establish of a publication.\<close>

definition publication_ok :: "'dt v2_ext \<Rightarrow> auth_ext \<Rightarrow> publication \<Rightarrow> bool" where
  "publication_ok x ax pn \<longleftrightarrow> vx_blake3 x (pn_document pn) = pn_hash pn \<and>
     envelope_attribute x (pn_document pn) (pn_sub pn) = Ok (pn_attribute pn) \<and>
     (\<exists>bs p. b64url_decode ax (bu_pointer (pn_bundle pn)) = Some bs \<and> parse_pointer (vx_bundle x) bs = Ok p \<and>
        pt_owner p = pn_sub pn \<and> pt_seq p = pn_seq pn \<and> pt_catalog_hash p = pn_hash pn)"

text \<open>The objects under a hash stay in order from one view to the next.\<close>

definition grows :: "'dt v2_ext \<Rightarrow> catalog_view \<Rightarrow> catalog_view \<Rightarrow> bool" where
  "grows x w w' \<longleftrightarrow> (\<forall>h. (document_ok x w h \<longrightarrow> document_ok x w' h) \<and> (outboard_ok x w h \<longrightarrow> outboard_ok x w' h) \<and>
     (index_ok x w h \<longrightarrow> index_ok x w' h))"

lemma grows_refl [simp]: "grows x w w" and grows_trans: "grows x w w' \<Longrightarrow> grows x w' w'' \<Longrightarrow> grows x w w''"
  by (simp_all add: grows_def)

lemma grows_pointers: "grows x w (w\<lparr>cw_pointers := f\<rparr>)"
  by (simp add: grows_def document_ok_def outboard_ok_def index_ok_def)

lemma pointer_ok_grows: "pointer_ok x ax w sp \<Longrightarrow> grows x w w' \<Longrightarrow> pointer_ok x ax w' sp"
  unfolding pointer_ok_def grows_def by blast

lemma grows_document:
  assumes "vx_blake3 x d = h"
  shows "grows x w (w\<lparr>cw_documents := (cw_documents w)(h \<mapsto> \<lparr>sd_body = d, sd_owner = ow\<rparr>)\<rparr>)"
    and "document_ok x (w\<lparr>cw_documents := (cw_documents w)(h \<mapsto> \<lparr>sd_body = d, sd_owner = ow\<rparr>)\<rparr>) h"
  using assms by (auto simp: grows_def document_ok_def outboard_ok_def index_ok_def)

lemma grows_outboard:
  assumes "vx_blake3 x d = h" "compute_outboard (vx_bao x) (cursor d) (length d) h = Ok b"
  shows "grows x w (w\<lparr>cw_outboards := (cw_outboards w)(h \<mapsto> b)\<rparr>)"
    and "outboard_ok x (w\<lparr>cw_outboards := (cw_outboards w)(h \<mapsto> b)\<rparr>) h"
proof -
  show "outboard_ok x (w\<lparr>cw_outboards := (cw_outboards w)(h \<mapsto> b)\<rparr>) h"
    using assms by (auto simp: outboard_ok_def)
  then show "grows x w (w\<lparr>cw_outboards := (cw_outboards w)(h \<mapsto> b)\<rparr>)"
    by (auto simp: grows_def document_ok_def outboard_ok_def index_ok_def)
qed

lemma grows_index:
  assumes "vx_blake3 x d = h" "vx_record_from_slice x b = Ok r" "envelope_attribute x d (ix_owner r) = Ok (ix_attribute r)"
  shows "grows x w (w\<lparr>cw_indexes := (cw_indexes w)(h \<mapsto> b)\<rparr>)" and "index_ok x (w\<lparr>cw_indexes := (cw_indexes w)(h \<mapsto> b)\<rparr>) h"
proof -
  show "index_ok x (w\<lparr>cw_indexes := (cw_indexes w)(h \<mapsto> b)\<rparr>) h"
    using assms by (auto simp: index_ok_def)
  then show "grows x w (w\<lparr>cw_indexes := (cw_indexes w)(h \<mapsto> b)\<rparr>)"
    by (auto simp: grows_def document_ok_def outboard_ok_def index_ok_def)
qed

lemma b64_decodes: "b64 ax field v mx = Ok bs \<Longrightarrow> b64url_decode ax v = Some bs"
  by (auto simp: b64_def result_simps split: if_splits)

lemma check_document_Ok:
  assumes "check_document x claims sub pointer document = Ok attribute"
  shows "vx_blake3 x document = pt_catalog_hash pointer" "length document = pt_catalog_size pointer"
    "envelope_attribute x document sub = Ok attribute"
    "strip_prefix CAMPAIGN_FQN_PREFIX attribute = Some i \<Longrightarrow> owns_campaign claims i"
  using assms by (auto simp: check_document_def result_simps split: if_splits option.splits)

lemma verify_bundle_pointer:
  assumes "verify_bundle e env bundle owner passkeys now v = (Ok vb, v')"
  shows "\<exists>bs. b64url_decode (ve_ext env) (bu_pointer bundle) = Some bs \<and> parse_pointer e bs = Ok (vb_pointer vb) \<and>
    pt_owner (vb_pointer vb) = owner"
proof -
  from assms obtain bs where "b64 (ve_ext env) ''pointer'' (bu_pointer bundle) MAX_POINTER_BYTES = Ok bs"
    "parse_pointer e bs = Ok (vb_pointer vb)" "pt_owner (vb_pointer vb) = owner"
    by (auto simp: verify_bundle_def io_Ok_iffs result_simps split: if_splits)
  then show ?thesis using b64_decodes by blast
qed

lemma on_store_Ok: "on_store m w = (Ok a, w') \<longleftrightarrow> (\<exists>s. m (vw_store w) = (Ok a, s) \<and> w' = w\<lparr>vw_store := s\<rparr>)"
  by (auto simp: on_store_def split: prod.splits)

lemma on_verifier_Ok: "on_verifier m w = (Ok a, w') \<longleftrightarrow> (\<exists>v. m (vw_verifier w) = (Ok a, v) \<and> w' = w\<lparr>vw_verifier := v\<rparr>)"
  by (auto simp: on_verifier_def split: prod.splits)

lemma on_reading_Ok: "on_reading m w = (Ok a, w') \<longleftrightarrow> (\<exists>d. m (vw_reading w) = (Ok a, d) \<and> w' = w\<lparr>vw_reading := d\<rparr>)"
  by (auto simp: on_reading_def split: prod.splits)

lemma on_publishing_Ok:
  "on_publishing m w = (Ok a, w') \<longleftrightarrow>
   (\<exists>v p. m (vw_verifier w, vw_publishing w) = (Ok a, (v, p)) \<and> w' = w\<lparr>vw_verifier := v, vw_publishing := p\<rparr>)"
  by (auto simp: on_publishing_def split: prod.splits)

lemmas on_Ok = on_store_Ok on_verifier_Ok on_reading_Ok on_publishing_Ok

lemma put_checks_Ok:
  assumes "put_checks x env now now' now'' state sub headers body w = (Ok pn, w')"
  obtains claims v p bs req document verified v' attribute entries where
    "authorize_publisher env now now' (v2_api state) headers (vw_verifier w, vw_publishing w) = (Ok claims, (v, p))"
    "vc_sub claims = sub" "is_json headers" "read_put_body body = Ok bs" "parse_put x (ve_ext env) bs = Ok (req, document)"
    "verify_bundle (vx_bundle x) env (rq_bundle req) sub (v2_passkeys state) now'' v = (Ok verified, v')"
    "check_document x claims sub (vb_pointer verified) document = Ok attribute"
    "parse_index (vx_entry x) (rq_index req) = Ok entries" "\<not> api_is_blocked (v2_api state) (vx_blake3 x document)"
    "check_payloads (vx_manifest x) (v2_api state) entries attribute (vw_store w) = (Ok (), vw_store w')"
    "status_check x (v2_status state) (vb_credential_id verified) sub = Ok ()"
    "pn = \<lparr>pn_sub = sub, pn_seq = pt_seq (vb_pointer verified), pn_hash = vx_blake3 x document, pn_document = document,
       pn_bundle = rq_bundle req, pn_attribute = attribute, pn_index = rq_index req, pn_entries = entries\<rparr>"
proof -
  from assms obtain claims w1 bs req document verified w2 attribute entries where *:
    "on_publishing (authorize_publisher env now now' (v2_api state) headers) w = (Ok claims, w1)"
    "vc_sub claims = sub" "is_json headers" "read_put_body body = Ok bs" "parse_put x (ve_ext env) bs = Ok (req, document)"
    "on_verifier (verify_bundle (vx_bundle x) env (rq_bundle req) sub (v2_passkeys state) now'') w1 = (Ok verified, w2)"
    "check_document x claims sub (vb_pointer verified) document = Ok attribute"
    "parse_index (vx_entry x) (rq_index req) = Ok entries" "\<not> api_is_blocked (v2_api state) (vx_blake3 x document)"
    "on_store (check_payloads (vx_manifest x) (v2_api state) entries attribute) w2 = (Ok (), w')"
    "status_check x (v2_status state) (vb_credential_id verified) sub = Ok ()"
    "pn = \<lparr>pn_sub = sub, pn_seq = pt_seq (vb_pointer verified), pn_hash = vx_blake3 x document, pn_document = document,
       pn_bundle = rq_bundle req, pn_attribute = attribute, pn_index = rq_index req, pn_entries = entries\<rparr>"
    unfolding put_checks_def Let_def io_Ok_iffs by (auto simp: io_Ok_iffs result_simps split: if_splits)
  from *(1) obtain v p where 1: "authorize_publisher env now now' (v2_api state) headers (vw_verifier w, vw_publishing w) = (Ok claims, (v, p))"
    "w1 = w\<lparr>vw_verifier := v, vw_publishing := p\<rparr>" unfolding on_publishing_Ok by blast
  from *(6) 1(2) obtain v' where 2: "verify_bundle (vx_bundle x) env (rq_bundle req) sub (v2_passkeys state) now'' v = (Ok verified, v')"
    "w2 = w1\<lparr>vw_verifier := v'\<rparr>" unfolding on_verifier_Ok by auto
  from *(10) 1(2) 2(2) have "check_payloads (vx_manifest x) (v2_api state) entries attribute (vw_store w) = (Ok (), vw_store w')"
    unfolding on_store_Ok by auto
  from that[OF 1(1) *(2-5) 2(1) *(7-9) this *(11,12)] show thesis .
qed

lemma put_checks_publication:
  assumes "put_checks x env now now' now'' state sub headers body w = (Ok pn, w')"
  shows "publication_ok x (ve_ext env) pn" "pn_sub pn = sub"
  using assms
proof (induction rule: put_checks_Ok)
  case (1 claims v p bs req document verified v' attribute entries)
  from verify_bundle_pointer[OF 1(6)] check_document_Ok[OF 1(7)] 1(12) show "publication_ok x (ve_ext env) pn" "pn_sub pn = sub"
    by (auto simp: publication_ok_def)
qed


section \<open>Interleaved publishes\<close>

record job =
  jb_headers :: headers
  jb_publication :: publication
  jb_stage :: stage

text \<open>The node under any schedule: publishes arrive once their checks have passed (on whatever the store
  held then), each moves on by one store operation at a time while the moderation view may change,
  and reads of the store go on.\<close>

definition with_publishing :: "'p TagPublishing option \<Rightarrow> ('s, 'p, 'd) V2State \<Rightarrow> ('s, 'p, 'd) V2State" where
  "with_publishing pub state = state\<lparr>v2_api := (v2_api state)\<lparr>api_publishing := pub\<rparr>\<rparr>"

inductive publishes ::
  "'dt v2_ext \<Rightarrow> auth_ext \<Rightarrow> ('s, 'p, 'd) V2State \<Rightarrow> ('s \<Rightarrow> catalog_view) \<Rightarrow> ('s \<Rightarrow> 's \<Rightarrow> bool) \<Rightarrow>
   's \<times> job list \<Rightarrow> 's \<times> job list \<Rightarrow> bool"
  for x ax state view evolves where
  arrive: "put_checks x env now now' now'' (with_publishing pub state) sub headers body w = (Ok pn, w') \<Longrightarrow>
    ve_ext env = ax \<Longrightarrow>
    publishes x ax state view evolves (s, jobs)
      (s, jobs @ [\<lparr>jb_headers = headers, jb_publication = pn, jb_stage = AtPointer\<rparr>])"
| advance: "i < length jobs \<Longrightarrow>
    publish_step x ax (v2_api (with_publishing pub state)) (jb_headers (jobs ! i)) (jb_publication (jobs ! i))
      (jb_stage (jobs ! i)) s = (next_stage, t) \<Longrightarrow>
    publishes x ax state view evolves (s, jobs) (t, jobs[i := (jobs ! i)\<lparr>jb_stage := next_stage\<rparr>])"
| other: "evolves s t \<Longrightarrow> view t = view s \<Longrightarrow> publishes x ax state view evolves (s, jobs) (t, jobs)"

text \<open>The base a publish read, some time ago, and the seq it had; then what holds of a publish at each
  stage.\<close>

definition base_ok ::
  "'dt v2_ext \<Rightarrow> auth_ext \<Rightarrow> ('s \<Rightarrow> bool) \<Rightarrow> ('s \<Rightarrow> catalog_view) \<Rightarrow> ('s \<Rightarrow> 's \<Rightarrow> bool) \<Rightarrow> 's \<Rightarrow> publication \<Rightarrow>
   string option \<Rightarrow> bool" where
  "base_ok x ax ok view evolves s pn expected \<longleftrightarrow>
     (\<exists>s0. ok s0 \<and> evolves s0 s \<and> map_option sp_etag (cw_pointers (view s0) (pn_sub pn)) = expected \<and>
        (\<forall>sp. cw_pointers (view s0) (pn_sub pn) = Some sp \<longrightarrow>
           (\<exists>n h. stored_seq x ax (sp_body sp) = Ok (n, h) \<and> n < pn_seq pn)))"

fun job_ok ::
  "'dt v2_ext \<Rightarrow> auth_ext \<Rightarrow> ('s \<Rightarrow> bool) \<Rightarrow> ('s \<Rightarrow> catalog_view) \<Rightarrow> ('s \<Rightarrow> 's \<Rightarrow> bool) \<Rightarrow> 's \<Rightarrow> publication \<Rightarrow>
   stage \<Rightarrow> bool" where
  "job_ok x ax ok view evolves s pn (AtIndex None) \<longleftrightarrow>
     (\<exists>s0. ok s0 \<and> evolves s0 s \<and> cw_pointers (view s0) (pn_sub pn) = None)"
| "job_ok x ax ok view evolves s pn (AtIndex (Some (stored, n, h))) \<longleftrightarrow>
     (\<exists>s0. ok s0 \<and> evolves s0 s \<and> cw_pointers (view s0) (pn_sub pn) = Some stored) \<and>
     stored_seq x ax (sp_body stored) = Ok (n, h) \<and> index_ok x (view s) h"
| "job_ok x ax ok view evolves s pn (AtDocument expected outboard) \<longleftrightarrow>
     base_ok x ax ok view evolves s pn expected \<and> document_outboard x pn = Ok outboard"
| "job_ok x ax ok view evolves s pn (AtOutboard expected outboard) \<longleftrightarrow>
     base_ok x ax ok view evolves s pn expected \<and> document_outboard x pn = Ok outboard \<and> document_ok x (view s) (pn_hash pn)"
| "job_ok x ax ok view evolves s pn (AtRecord expected) \<longleftrightarrow>
     base_ok x ax ok view evolves s pn expected \<and> document_ok x (view s) (pn_hash pn) \<and> outboard_ok x (view s) (pn_hash pn)"
| "job_ok x ax ok view evolves s pn (AtReplace expected) \<longleftrightarrow>
     base_ok x ax ok view evolves s pn expected \<and> document_ok x (view s) (pn_hash pn) \<and> outboard_ok x (view s) (pn_hash pn) \<and>
     index_ok x (view s) (pn_hash pn)"
| "job_ok x ax ok view evolves s pn _ \<longleftrightarrow> True"

definition publishing_ok ::
  "'dt v2_ext \<Rightarrow> auth_ext \<Rightarrow> ('s \<Rightarrow> bool) \<Rightarrow> ('s \<Rightarrow> catalog_view) \<Rightarrow> ('s \<Rightarrow> 's \<Rightarrow> bool) \<Rightarrow> 's \<times> job list \<Rightarrow> bool" where
  "publishing_ok x ax ok view evolves c \<longleftrightarrow> ok (fst c) \<and> catalog_ok x ax (view (fst c)) \<and>
     (\<forall>j\<in>set (snd c). publication_ok x ax (jb_publication j) \<and>
        job_ok x ax ok view evolves (fst c) (jb_publication j) (jb_stage j))"

text \<open>How a step may change a subject's pointer: not at all, or to a greater seq.\<close>

definition advances :: "'dt v2_ext \<Rightarrow> auth_ext \<Rightarrow> catalog_view \<Rightarrow> catalog_view \<Rightarrow> bool" where
  "advances x ax w w' \<longleftrightarrow> (\<forall>sub. cw_pointers w' sub = cw_pointers w sub \<or>
     (\<exists>sp' n' h'. cw_pointers w' sub = Some sp' \<and> stored_seq x ax (sp_body sp') = Ok (n', h') \<and>
        (\<forall>sp. cw_pointers w sub = Some sp \<longrightarrow> (\<exists>n h. stored_seq x ax (sp_body sp) = Ok (n, h) \<and> n < n'))))"

lemma advances_refl [simp]: "cw_pointers w' = cw_pointers w \<Longrightarrow> advances x ax w w'"
  by (simp add: advances_def)

lemma advances_trans:
  assumes "advances x ax w w'" "advances x ax w' w''"
  shows "advances x ax w w''"
  unfolding advances_def
proof
  fix sub
  from assms have a: "cw_pointers w' sub = cw_pointers w sub \<or>
     (\<exists>sp' n' h'. cw_pointers w' sub = Some sp' \<and> stored_seq x ax (sp_body sp') = Ok (n', h') \<and>
        (\<forall>sp. cw_pointers w sub = Some sp \<longrightarrow> (\<exists>n h. stored_seq x ax (sp_body sp) = Ok (n, h) \<and> n < n')))"
    and b: "cw_pointers w'' sub = cw_pointers w' sub \<or>
     (\<exists>sp' n' h'. cw_pointers w'' sub = Some sp' \<and> stored_seq x ax (sp_body sp') = Ok (n', h') \<and>
        (\<forall>sp. cw_pointers w' sub = Some sp \<longrightarrow> (\<exists>n h. stored_seq x ax (sp_body sp) = Ok (n, h) \<and> n < n')))"
    by (simp_all add: advances_def)
  from b show "cw_pointers w'' sub = cw_pointers w sub \<or>
     (\<exists>sp' n' h'. cw_pointers w'' sub = Some sp' \<and> stored_seq x ax (sp_body sp') = Ok (n', h') \<and>
        (\<forall>sp. cw_pointers w sub = Some sp \<longrightarrow> (\<exists>n h. stored_seq x ax (sp_body sp) = Ok (n, h) \<and> n < n')))"
  proof
    assume "cw_pointers w'' sub = cw_pointers w' sub"
    with a show ?thesis by simp
  next
    assume "\<exists>sp' n' h'. cw_pointers w'' sub = Some sp' \<and> stored_seq x ax (sp_body sp') = Ok (n', h') \<and>
        (\<forall>sp. cw_pointers w' sub = Some sp \<longrightarrow> (\<exists>n h. stored_seq x ax (sp_body sp) = Ok (n, h) \<and> n < n'))"
    then obtain sp'' n'' h'' where s: "cw_pointers w'' sub = Some sp''" "stored_seq x ax (sp_body sp'') = Ok (n'', h'')"
      "\<And>sp. cw_pointers w' sub = Some sp \<Longrightarrow> \<exists>n h. stored_seq x ax (sp_body sp) = Ok (n, h) \<and> n < n''" by blast
    have "\<exists>n h. stored_seq x ax (sp_body sp) = Ok (n, h) \<and> n < n''" if "cw_pointers w sub = Some sp" for sp
      using a s(3) that by (fastforce intro: less_trans)
    with s(1,2) show ?thesis by blast
  qed
qed

lemma job_ok_later:
  assumes "job_ok x ax ok view evolves s pn stage" "evolves s t" "grows x (view s) (view t)"
    and trans: "\<And>a b c. evolves a b \<Longrightarrow> evolves b c \<Longrightarrow> evolves a c"
  shows "job_ok x ax ok view evolves t pn stage"
proof -
  have base: "base_ok x ax ok view evolves t pn e" if "base_ok x ax ok view evolves s pn e" for e
    using that assms(2) trans unfolding base_ok_def by blast
  have g: "document_ok x (view s) h \<Longrightarrow> document_ok x (view t) h" "outboard_ok x (view s) h \<Longrightarrow> outboard_ok x (view t) h"
    "index_ok x (view s) h \<Longrightarrow> index_ok x (view t) h" for h
    using assms(3) by (simp_all add: grows_def)
  show ?thesis
    using assms(1) base g trans[OF _ assms(2)]
    by (cases "(x, ax, ok, view, evolves, s, pn, stage)" rule: job_ok.cases) (simp; blast)+
qed

lemma after_cases:
  assumes "after m next s = (stage, t)"
  obtains a where "m s = (Ok a, t)" "stage = next a" | e where "m s = (Err e, t)" "stage = Stopped e"
  using assms by (auto simp: after_def split: prod.splits result.splits)

lemma admit_Ok:
  assumes "admit api headers seq current live = Ok expected"
  shows "expected = map_option (\<lambda>(stored, _, _). sp_etag stored) current"
    and "current = Some (stored, n, h) \<Longrightarrow> live \<Longrightarrow> n < seq"
    and "preconditions_hold headers (case current of
       Some (_, n, h) \<Rightarrow> if live \<and> \<not> api_is_blocked api h then Some (pointer_etag n) else None | None \<Rightarrow> None)"
  using assms by (auto simp: admit_def Let_def not_le split: if_splits option.splits)

lemma catalog_ok_grows: "catalog_ok x ax w \<Longrightarrow> grows x w w' \<Longrightarrow> cw_pointers w' = cw_pointers w \<Longrightarrow> catalog_ok x ax w'"
  unfolding catalog_ok_def using pointer_ok_grows by metis

text \<open>The store of the catalogs with serde's round trips.\<close>

locale catalog_publishing = catalog_store st ok view evolves
  for st :: "'s tag_store" and ok view evolves +
  fixes x :: "'dt v2_ext" and ax :: auth_ext
  assumes bundle_roundtrip: "vx_bundle_from_slice x (vx_bundle_to_vec x b) = Ok b"
    and record_roundtrip: "\<exists>r'. vx_record_from_slice x (vx_record_to_vec x r) = Ok r' \<and>
      ix_owner r' = ix_owner r \<and> ix_attribute r' = ix_attribute r"
begin

lemma published_seq: "publication_ok x ax pn \<Longrightarrow> stored_seq x ax (vx_bundle_to_vec x (pn_bundle pn)) = Ok (pn_seq pn, pn_hash pn)"
  by (auto simp: stored_seq_def bundle_roundtrip publication_ok_def)

text \<open>What one step does: it keeps the objects in order, and its own stage.\<close>

definition step_good :: "'s \<Rightarrow> publication \<Rightarrow> stage \<Rightarrow> 's \<Rightarrow> bool" where
  "step_good s pn stage t \<longleftrightarrow> evolves s t \<and> grows x (view s) (view t) \<and> job_ok x ax ok view evolves t pn stage \<and>
     catalog_ok x ax (view t) \<and> advances x ax (view s) (view t)"

lemma step_goodI:
  assumes "evolves s t" "catalog_ok x ax (view s)" "grows x (view s) (view t)" "cw_pointers (view t) = cw_pointers (view s)"
    "job_ok x ax ok view evolves t pn stage"
  shows "step_good s pn stage t"
  using assms catalog_ok_grows by (auto simp: step_good_def)

lemma base_later: "base_ok x ax ok view evolves s pn e \<Longrightarrow> evolves s t \<Longrightarrow> base_ok x ax ok view evolves t pn e"
  unfolding base_ok_def using evolves_trans by blast

lemma job_later:
  assumes "job_ok x ax ok view evolves s pn stage" "evolves s t" "grows x (view s) (view t)"
  shows "job_ok x ax ok view evolves t pn stage"
  using assms evolves_trans by (rule job_ok_later)

lemma step_pointer:
  assumes "ok s" "catalog_ok x ax (view s)" "after (read_current x ax api (pn_sub pn)) AtIndex s = (stage, t)" "api_store api = st"
  shows "step_good s pn stage t"
proof -
  obtain r u where r: "ts_get_catalog_pointer st (pn_sub pn) s = (r, u)" by fastforce
  have "u = t" using assms(3,4) r by (auto simp: after_def read_current_def io_defs split: result.splits option.splits)
  then have t: "evolves s t" "view t = view s" using evolves_read(6)[of s "pn_sub pn"] read_view(6)[of "pn_sub pn" s] r by simp_all
  from assms(3) have "job_ok x ax ok view evolves t pn stage"
  proof (cases rule: after_cases)
    case (1 current)
    then obtain c where c: "ts_get_catalog_pointer st (pn_sub pn) s = (Ok c, t)"
      using assms(4) by (auto simp: read_current_def io_Ok_iffs split: option.splits)
    then have c': "c = cw_pointers (view s) (pn_sub pn)" by (rule get_pointer)
    show ?thesis
    proof (cases c)
      case None
      with c c' 1 assms(1,4) t show ?thesis by (auto simp: read_current_def io_Ok_iffs)
    next
      case (Some stored)
      with c 1 assms(4) obtain n h where "current = Some (stored, n, h)" "stored_seq x ax (sp_body stored) = Ok (n, h)"
        by (auto simp: read_current_def io_Ok_iffs result_simps)
      moreover have "pointer_ok x ax (view s) stored" using assms(2) Some c' by (simp add: catalog_ok_def)
      ultimately have "index_ok x (view s) h" by (auto simp: pointer_ok_def)
      note this \<open>current = _\<close> \<open>stored_seq x ax _ = _\<close>
      then show ?thesis using 1(2) assms(1) t Some c' by auto
    qed
  qed simp
  with t assms(2) show ?thesis by (intro step_goodI) simp_all
qed

lemma step_live:
  assumes "catalog_ok x ax (view s)" "after (read_live api current) (admitted x api headers pn current) s = (stage, t)"
    "api_store api = st" and job: "job_ok x ax ok view evolves s pn (AtIndex current)"
  shows "step_good s pn stage t"
proof -
  have t: "evolves s t" "view t = view s"
    using assms(2,3) evolves_read(5)[of s] read_view(5)[of _ s] evolves_refl[of s]
    by (cases current; auto simp: after_def read_live_def io_defs split: result.splits prod.splits; metis snd_conv)+
  from assms(2) have "job_ok x ax ok view evolves t pn stage"
  proof (cases rule: after_cases)
    case (1 live)
    show ?thesis
    proof (cases "admit api headers (pn_seq pn) current live")
      case (Ok expected)
      have e: "expected = map_option (\<lambda>(stored, _, _). sp_etag stored) current" by (rule admit_Ok(1)[OF Ok])
      have "base_ok x ax ok view evolves t pn expected"
      proof (cases current)
        case None
        with job e t(1) show ?thesis unfolding base_ok_def by (auto intro: evolves_trans)
      next
        case (Some c)
        obtain stored n h where c: "c = (stored, n, h)" by (cases c)
        with job Some obtain s0 where s0: "ok s0" "evolves s0 s" "cw_pointers (view s0) (pn_sub pn) = Some stored"
          "stored_seq x ax (sp_body stored) = Ok (n, h)" "index_ok x (view s) h" by auto
        obtain i where i: "ts_get_catalog_index st h s = (Ok i, t)" "live = (i \<noteq> None)"
          using 1(1) Some c assms(3) by (auto simp: read_live_def io_Ok_iffs)
        with get_index[OF i(1)] s0(5) have "live" by (auto simp: index_ok_def)
        with admit_Ok(2)[OF Ok, of stored n h] Some c have "n < pn_seq pn" by simp
        with s0 t(1) e Some c show ?thesis unfolding base_ok_def by (auto intro: evolves_trans)
      qed
      with Ok 1(2) show ?thesis by (cases "document_outboard x pn") (simp_all add: admitted_def)
    qed (use 1(2) in \<open>simp add: admitted_def\<close>)
  qed simp
  with t assms(1) show ?thesis by (intro step_goodI) simp_all
qed

lemma put_view:
  assumes "after (io_map_err f m) next s = (stage, t)"
    and "\<And>r u. m s = (r, u) \<Longrightarrow> r \<noteq> Ok () \<and> view u = view s \<or> P (view u)"
  shows "(\<exists>e. stage = Stopped e) \<and> view t = view s \<or> P (view t) \<and> (stage = next () \<or> (\<exists>e. stage = Stopped e))"
proof -
  obtain r u where u: "m s = (r, u)" by fastforce
  with assms(1) have "u = t" "stage = (case r of Ok a \<Rightarrow> next a | Err e \<Rightarrow> Stopped (f e))"
    by (auto simp: after_def io_map_err_def split: result.splits)
  with assms(2)[OF u] show ?thesis by (cases r) auto
qed

lemma snd_after: "snd (after m next s) = snd (m s)"
  by (auto simp: after_def split: prod.splits result.splits)

lemma snd_io_map_err: "snd (io_map_err f m s) = snd (m s)"
  by (auto simp: io_map_err_def split: prod.splits)

lemma step_document:
  assumes "ok s" "catalog_ok x ax (view s)" "after (write_document api pn) (\<lambda>_. AtOutboard e ob) s = (stage, t)" "api_store api = st"
    and pn: "publication_ok x ax pn" and job: "job_ok x ax ok view evolves s pn (AtDocument e ob)"
  shows "step_good s pn stage t"
proof -
  have ev: "evolves s t" using evolves_write(1)[of s] assms(3,4) snd_after[of "write_document api pn" _ s]
    by (simp add: write_document_def snd_io_map_err) (metis snd_conv)
  let ?P = "\<lambda>w. \<exists>ow. w = (view s)\<lparr>cw_documents := (cw_documents (view s))(pn_hash pn \<mapsto> \<lparr>sd_body = pn_document pn, sd_owner = ow\<rparr>)\<rparr>"
  have "(\<exists>e. stage = Stopped e) \<and> view t = view s \<or> ?P (view t) \<and> (stage = AtOutboard e ob \<or> (\<exists>e. stage = Stopped e))"
    using assms(3)[unfolded write_document_def assms(4)]
    by (rule put_view) (use put_document in blast)
  then show ?thesis
  proof
    assume "(\<exists>e. stage = Stopped e) \<and> view t = view s"
    with ev assms(2) show ?thesis by (auto intro: step_goodI)
  next
    assume "?P (view t) \<and> (stage = AtOutboard e ob \<or> (\<exists>e. stage = Stopped e))"
    then obtain ow where w: "view t = (view s)\<lparr>cw_documents := (cw_documents (view s))(pn_hash pn \<mapsto> \<lparr>sd_body = pn_document pn, sd_owner = ow\<rparr>)\<rparr>"
      and stage: "stage = AtOutboard e ob \<or> (\<exists>e. stage = Stopped e)" by blast
    have h: "vx_blake3 x (pn_document pn) = pn_hash pn" using pn by (simp add: publication_ok_def)
    have "job_ok x ax ok view evolves t pn stage"
      using stage job base_later[OF _ ev] grows_document(2)[OF h, of "view s" ow] w by auto
    with ev assms(2) grows_document(1)[OF h, of "view s" ow] w show ?thesis by (intro step_goodI) simp_all
  qed
qed

lemma step_outboard:
  assumes "ok s" "catalog_ok x ax (view s)" "after (write_outboard api pn ob) (\<lambda>_. AtRecord e) s = (stage, t)" "api_store api = st"
    and pn: "publication_ok x ax pn" and job: "job_ok x ax ok view evolves s pn (AtOutboard e ob)"
  shows "step_good s pn stage t"
proof -
  have ev: "evolves s t" using evolves_write(2)[of s] assms(3,4) snd_after[of "write_outboard api pn ob" _ s]
    by (simp add: write_outboard_def snd_io_map_err) (metis snd_conv)
  let ?w = "(view s)\<lparr>cw_outboards := (cw_outboards (view s))(pn_hash pn \<mapsto> ob)\<rparr>"
  have "(\<exists>e. stage = Stopped e) \<and> view t = view s \<or> view t = ?w \<and> (stage = AtRecord e \<or> (\<exists>e. stage = Stopped e))"
    using assms(3)[unfolded write_outboard_def assms(4)]
    by (rule put_view) (use put_outboard in blast)
  then show ?thesis
  proof
    assume "(\<exists>e. stage = Stopped e) \<and> view t = view s"
    with ev assms(2) show ?thesis by (auto intro: step_goodI)
  next
    assume w: "view t = ?w \<and> (stage = AtRecord e \<or> (\<exists>e. stage = Stopped e))"
    have h: "vx_blake3 x (pn_document pn) = pn_hash pn" using pn by (simp add: publication_ok_def)
    moreover have "compute_outboard (vx_bao x) (cursor (pn_document pn)) (length (pn_document pn)) (pn_hash pn) = Ok ob"
      using job h by (simp add: document_outboard_def result_simps)
    ultimately have g: "grows x (view s) ?w" "outboard_ok x ?w (pn_hash pn)" by (rule grows_outboard)+
    have "job_ok x ax ok view evolves t pn stage"
      using w job base_later[OF _ ev] g by (auto simp: grows_def)
    with ev assms(2) g w show ?thesis by (intro step_goodI) simp_all
  qed
qed

lemma step_index:
  assumes "ok s" "catalog_ok x ax (view s)" "after (write_index x api pn) (\<lambda>_. AtReplace e) s = (stage, t)" "api_store api = st"
    and pn: "publication_ok x ax pn" and job: "job_ok x ax ok view evolves s pn (AtRecord e)"
  shows "step_good s pn stage t"
proof -
  have ev: "evolves s t" using evolves_write(3)[of s] assms(3,4) snd_after[of "write_index x api pn" _ s]
    by (simp add: write_index_def snd_io_map_err) (metis snd_conv)
  let ?w = "(view s)\<lparr>cw_indexes := (cw_indexes (view s))(pn_hash pn \<mapsto> vx_record_to_vec x (index_record pn))\<rparr>"
  have "(\<exists>e. stage = Stopped e) \<and> view t = view s \<or> view t = ?w \<and> (stage = AtReplace e \<or> (\<exists>e. stage = Stopped e))"
    using assms(3)[unfolded write_index_def assms(4)]
    by (rule put_view) (use put_index in blast)
  then show ?thesis
  proof
    assume "(\<exists>e. stage = Stopped e) \<and> view t = view s"
    with ev assms(2) show ?thesis by (auto intro: step_goodI)
  next
    assume w: "view t = ?w \<and> (stage = AtReplace e \<or> (\<exists>e. stage = Stopped e))"
    obtain r' where r': "vx_record_from_slice x (vx_record_to_vec x (index_record pn)) = Ok r'"
      "ix_owner r' = pn_sub pn" "ix_attribute r' = pn_attribute pn"
      using record_roundtrip[of "index_record pn"] by (auto simp: index_record_def)
    have "vx_blake3 x (pn_document pn) = pn_hash pn"
      "envelope_attribute x (pn_document pn) (ix_owner r') = Ok (ix_attribute r')"
      using pn r'(2,3) by (simp_all add: publication_ok_def)
    from grows_index[OF this(1) r'(1) this(2)] have g: "grows x (view s) ?w" "index_ok x ?w (pn_hash pn)" .
    have "job_ok x ax ok view evolves t pn stage"
      using w job base_later[OF _ ev] g by (auto simp: grows_def)
    with ev assms(2) g w show ?thesis by (intro step_goodI) simp_all
  qed
qed

text \<open>The pointer is replaced only while it is the base that was read, which has a smaller seq.\<close>

lemma step_replace:
  assumes "ok s" "catalog_ok x ax (view s)" "after (replace_pointer x api pn e) (\<lambda>_. Published) s = (stage, t)" "api_store api = st"
    and pn: "publication_ok x ax pn" and job: "job_ok x ax ok view evolves s pn (AtReplace e)"
  shows "step_good s pn stage t"
proof -
  let ?b = "vx_bundle_to_vec x (pn_bundle pn)"
  obtain r u where r: "ts_put_catalog_pointer st (pn_sub pn) ?b e s = (r, u)" by fastforce
  have u: "u = t" and stage: "stage = Published \<or> (\<exists>e. stage = Stopped e)"
    using assms(3,4) r by (auto simp: after_def replace_pointer_def io_defs split: result.splits if_splits)
  have ev: "evolves s t" using evolves_write(4)[of s "pn_sub pn" ?b e] r u by simp
  from put_pointer[OF r] u consider "view t = view s"
    | tag where "map_option sp_etag (cw_pointers (view s) (pn_sub pn)) = e"
        "view t = (view s)\<lparr>cw_pointers := (cw_pointers (view s))(pn_sub pn \<mapsto> \<lparr>sp_body = ?b, sp_etag = tag\<rparr>)\<rparr>"
    by blast
  then show ?thesis
  proof cases
    case 1
    with ev assms(2) stage show ?thesis by (auto intro: step_goodI)
  next
    case (2 tag)
    have g: "grows x (view s) (view t)" unfolding 2(2) by (rule grows_pointers)
    have seq: "stored_seq x ax ?b = Ok (pn_seq pn, pn_hash pn)" by (rule published_seq[OF pn])
    have "pointer_ok x ax (view s) \<lparr>sp_body = ?b, sp_etag = tag\<rparr>"
      using job seq by (simp add: pointer_ok_def)
    then have "pointer_ok x ax (view t) \<lparr>sp_body = ?b, sp_etag = tag\<rparr>" using g by (rule pointer_ok_grows)
    moreover have "pointer_ok x ax (view t) sp" if "cw_pointers (view s) sub = Some sp" for sub sp
      using pointer_ok_grows[OF _ g] that assms(2) by (simp add: catalog_ok_def)
    ultimately have cat: "catalog_ok x ax (view t)" by (simp add: catalog_ok_def 2(2))
    from job obtain s0 where s0: "ok s0" "evolves s0 s" "map_option sp_etag (cw_pointers (view s0) (pn_sub pn)) = e"
      "\<And>sp. cw_pointers (view s0) (pn_sub pn) = Some sp \<Longrightarrow> \<exists>n h. stored_seq x ax (sp_body sp) = Ok (n, h) \<and> n < pn_seq pn"
      by (auto simp: base_ok_def)
    have "\<exists>n h. stored_seq x ax (sp_body sp) = Ok (n, h) \<and> n < pn_seq pn" if "cw_pointers (view s) (pn_sub pn) = Some sp" for sp
    proof -
      from that 2(1) s0(3) obtain p where p: "cw_pointers (view s0) (pn_sub pn) = Some p" "sp_etag p = sp_etag sp" by auto
      with tag_identifies[OF s0(1,2) p(1) that] s0(4) show ?thesis by simp
    qed
    with seq have "advances x ax (view s) (view t)" by (auto simp: advances_def 2(2))
    with ev g cat stage show ?thesis by (auto simp: step_good_def)
  qed
qed

lemma step_good_all:
  assumes "publish_step x ax api headers pn stage s = (stage', t)" "api_store api = st" "ok s" "catalog_ok x ax (view s)"
    and "publication_ok x ax pn" "job_ok x ax ok view evolves s pn stage"
  shows "step_good s pn stage' t"
proof (cases stage)
  case AtPointer
  with assms step_pointer show ?thesis by simp
next
  case (AtIndex current)
  with assms step_live show ?thesis by simp
next
  case (AtDocument e ob)
  with assms step_document[of s api pn e ob] show ?thesis by simp
next
  case (AtOutboard e ob)
  with assms step_outboard[of s api pn ob e] show ?thesis by simp
next
  case (AtRecord e)
  with assms step_index[of s api pn e] show ?thesis by simp
next
  case (AtReplace e)
  with assms step_replace[of s api pn e] show ?thesis by simp
qed (use assms evolves_refl in \<open>auto intro: step_goodI\<close>)

lemma publishes_good:
  assumes "publishes x ax state view evolves c c'" "publishing_ok x ax ok view evolves c" "api_store (v2_api state) = st"
  shows "publishing_ok x ax ok view evolves c' \<and> advances x ax (view (fst c)) (view (fst c'))"
  using assms
proof (induction rule: publishes.induct)
  case (arrive env now now' now'' pub sub headers body w pn w' s jobs)
  with put_checks_publication[OF arrive(1)] show ?case by (auto simp: publishing_ok_def)
next
  case (advance i jobs pub s next_stage t)
  let ?j = "jobs ! i"
  have j: "?j \<in> set jobs" using advance(1) by simp
  have "step_good s (jb_publication ?j) next_stage t"
    using step_good_all[OF advance(2)] advance(3,4) j by (auto simp: publishing_ok_def with_publishing_def)
  then have g: "evolves s t" "grows x (view s) (view t)" "job_ok x ax ok view evolves t (jb_publication ?j) next_stage"
    "catalog_ok x ax (view t)" "advances x ax (view s) (view t)" by (simp_all add: step_good_def)
  have "publication_ok x ax (jb_publication k) \<and> job_ok x ax ok view evolves t (jb_publication k) (jb_stage k)"
    if "k \<in> set (jobs[i := ?j\<lparr>jb_stage := next_stage\<rparr>])" for k
  proof -
    from that set_update_subset_insert[of jobs i] consider "k = ?j\<lparr>jb_stage := next_stage\<rparr>" | "k \<in> set jobs" by blast
    then show ?thesis
    proof cases
      case 1
      with g(3) advance(3) j show ?thesis by (simp add: publishing_ok_def)
    next
      case 2
      with advance(3) job_later[OF _ g(1,2)] show ?thesis by (simp add: publishing_ok_def)
    qed
  qed
  moreover have "ok t" using advance(3) g(1) evolves_inv by (auto simp: publishing_ok_def)
  ultimately show ?case using g(4,5) by (simp add: publishing_ok_def)
next
  case (other s t jobs)
  have "ok t" using other evolves_inv by (auto simp: publishing_ok_def)
  with other job_later[OF _ other(1)] show ?case by (simp add: publishing_ok_def)
qed

lemma publishes_many:
  assumes "(publishes x ax state view evolves)\<^sup>*\<^sup>* c c'" "publishing_ok x ax ok view evolves c" "api_store (v2_api state) = st"
  shows "publishing_ok x ax ok view evolves c' \<and> advances x ax (view (fst c)) (view (fst c'))"
  using assms
proof (induction rule: rtranclp_induct)
  case (step y z)
  with publishes_good[OF step(2)] advances_trans show ?case by blast
qed simp

end

text \<open>C5: Whatever the interleaving of publishes, and wherever one stops or fails, every stored pointer can
  be served and decided on: it parses, and under the hash it names there are a document with that
  hash, the outboard of such a document and an index record with the attribute of such a document's
  envelope. This holds for every store that keeps the store contract, from any state where it held,
  the empty store included.\<close>

theorem published_pointers_servable:
  assumes "catalog_store (api_store (v2_api state)) ok view evolves"
    and "\<And>b. vx_bundle_from_slice x (vx_bundle_to_vec x b) = Ok b"
    and "\<And>r. \<exists>r'. vx_record_from_slice x (vx_record_to_vec x r) = Ok r' \<and> ix_owner r' = ix_owner r \<and> ix_attribute r' = ix_attribute r"
    and "ok s0" and "catalog_ok x ax (view s0)"
    and "(publishes x ax state view evolves)\<^sup>*\<^sup>* (s0, []) (s, jobs)"
  shows "catalog_ok x ax (view s)"
proof -
  have l: "catalog_publishing (api_store (v2_api state)) ok view evolves x"
    using assms(1-3) by (intro catalog_publishing.intro catalog_publishing_axioms.intro)
  show ?thesis
    using catalog_publishing.publishes_many[OF l assms(6)] assms(4,5) by (simp add: publishing_ok_def)
qed

text \<open>C6: Under every interleaving a creator's stored pointer never disappears and is replaced only by one
  with a greater seq, so that a reader who has seen a seq never sees an older one.\<close>

theorem published_seq_increases:
  assumes "catalog_store (api_store (v2_api state)) ok view evolves"
    and "\<And>b. vx_bundle_from_slice x (vx_bundle_to_vec x b) = Ok b"
    and "\<And>r. \<exists>r'. vx_record_from_slice x (vx_record_to_vec x r) = Ok r' \<and> ix_owner r' = ix_owner r \<and> ix_attribute r' = ix_attribute r"
    and "ok s0" and "catalog_ok x ax (view s0)"
    and "(publishes x ax state view evolves)\<^sup>*\<^sup>* (s0, []) (s1, jobs1)"
    and "(publishes x ax state view evolves)\<^sup>*\<^sup>* (s1, jobs1) (s2, jobs2)"
    and "cw_pointers (view s1) sub = Some p" and "stored_seq x ax (sp_body p) = Ok (n, h)"
  shows "\<exists>p' n' h'. cw_pointers (view s2) sub = Some p' \<and> stored_seq x ax (sp_body p') = Ok (n', h') \<and> (p' = p \<or> n < n')"
proof -
  have l: "catalog_publishing (api_store (v2_api state)) ok view evolves x"
    using assms(1-3) by (intro catalog_publishing.intro catalog_publishing_axioms.intro)
  have "publishing_ok x ax ok view evolves (s1, jobs1)"
    using catalog_publishing.publishes_many[OF l assms(6)] assms(4,5) by (simp add: publishing_ok_def)
  with catalog_publishing.publishes_many[OF l assms(7)] have "advances x ax (view s1) (view s2)" by simp
  then consider "cw_pointers (view s2) sub = cw_pointers (view s1) sub"
    | sp' n' h' where "cw_pointers (view s2) sub = Some sp'" "stored_seq x ax (sp_body sp') = Ok (n', h')"
        "\<And>sp. cw_pointers (view s1) sub = Some sp \<Longrightarrow> \<exists>n h. stored_seq x ax (sp_body sp) = Ok (n, h) \<and> n < n'"
    unfolding advances_def by blast
  then show ?thesis
  proof cases
    case 1
    with assms(8,9) show ?thesis by auto
  next
    case (2 sp' n' h')
    with 2(3)[OF assms(8)] assms(9) show ?thesis by auto
  qed
qed


section \<open>What a publish that succeeds did\<close>

context catalog_store
begin

lemma read_current_Ok:
  assumes "read_current x ax api sub s = (Ok current, t)" "api_store api = st"
  shows "view t = view s" "map_option fst current = cw_pointers (view s) sub"
    "current = Some (stored, n, h) \<Longrightarrow> stored_seq x ax (sp_body stored) = Ok (n, h)"
proof -
  from assms obtain c where c: "ts_get_catalog_pointer st sub s = (Ok c, t)"
    by (auto simp: read_current_def io_Ok_iffs split: option.splits)
  show "view t = view s" using read_view(6)[of sub s] c by simp
  show "map_option fst current = cw_pointers (view s) sub"
    "current = Some (stored, n, h) \<Longrightarrow> stored_seq x ax (sp_body stored) = Ok (n, h)"
    using assms c get_pointer[OF c]
    by (auto simp: read_current_def io_Ok_iffs result_simps split: option.splits prod.splits)
qed

lemma read_live_Ok:
  assumes "read_live api current s = (Ok live, t)" "api_store api = st"
  shows "view t = view s" "live = (case current of None \<Rightarrow> False | Some (_, _, h) \<Rightarrow> cw_indexes (view s) h \<noteq> None)"
  using assms get_index[of _ s] read_view(5)[of _ s]
  by (cases current; auto simp: read_live_def io_Ok_iffs; metis snd_conv)+

lemma writes_Ok:
  "write_document api pn s = (Ok (), t) \<Longrightarrow> api_store api = st \<Longrightarrow> \<exists>ow. view t = (view s)\<lparr>cw_documents :=
     (cw_documents (view s))(pn_hash pn \<mapsto> \<lparr>sd_body = pn_document pn, sd_owner = ow\<rparr>)\<rparr> \<and>
     (plain_value (pn_sub pn) \<longrightarrow> ow = Some (pn_sub pn))"
  "write_outboard api pn ob s = (Ok (), t) \<Longrightarrow> api_store api = st \<Longrightarrow>
     view t = (view s)\<lparr>cw_outboards := (cw_outboards (view s))(pn_hash pn \<mapsto> ob)\<rparr>"
  "write_index x api pn s = (Ok (), t) \<Longrightarrow> api_store api = st \<Longrightarrow>
     view t = (view s)\<lparr>cw_indexes := (cw_indexes (view s))(pn_hash pn \<mapsto> vx_record_to_vec x (index_record pn))\<rparr>"
  "replace_pointer x api pn e s = (Ok (), t) \<Longrightarrow> api_store api = st \<Longrightarrow> \<exists>tag. view t = (view s)\<lparr>cw_pointers :=
     (cw_pointers (view s))(pn_sub pn \<mapsto> \<lparr>sp_body = vx_bundle_to_vec x (pn_bundle pn), sp_etag = tag\<rparr>)\<rparr>"
proof -
  assume st: "api_store api = st"
  show "\<exists>ow. view t = (view s)\<lparr>cw_documents := (cw_documents (view s))(pn_hash pn \<mapsto> \<lparr>sd_body = pn_document pn, sd_owner = ow\<rparr>)\<rparr> \<and>
     (plain_value (pn_sub pn) \<longrightarrow> ow = Some (pn_sub pn))" if "write_document api pn s = (Ok (), t)"
    using put_document[of "pn_hash pn" "pn_document pn" "pn_sub pn" s "Ok ()" t] that st by (simp add: write_document_def io_Ok_iffs)
  show "view t = (view s)\<lparr>cw_outboards := (cw_outboards (view s))(pn_hash pn \<mapsto> ob)\<rparr>" if "write_outboard api pn ob s = (Ok (), t)"
    using put_outboard[of "pn_hash pn" ob s "Ok ()" t] that st by (simp add: write_outboard_def io_Ok_iffs)
  show "view t = (view s)\<lparr>cw_indexes := (cw_indexes (view s))(pn_hash pn \<mapsto> vx_record_to_vec x (index_record pn))\<rparr>"
    if "write_index x api pn s = (Ok (), t)"
    using put_index[of "pn_hash pn" "vx_record_to_vec x (index_record pn)" s "Ok ()" t] that st by (simp add: write_index_def io_Ok_iffs)
  show "\<exists>tag. view t = (view s)\<lparr>cw_pointers :=
     (cw_pointers (view s))(pn_sub pn \<mapsto> \<lparr>sp_body = vx_bundle_to_vec x (pn_bundle pn), sp_etag = tag\<rparr>)\<rparr>"
    if "replace_pointer x api pn e s = (Ok (), t)"
  proof -
    from that st have "ts_put_catalog_pointer st (pn_sub pn) (vx_bundle_to_vec x (pn_bundle pn)) e s = (Ok True, t)"
      by (auto simp: replace_pointer_def io_Ok_iffs split: if_splits)
    from put_pointer[OF this] show ?thesis by auto
  qed
qed

lemma publish_Ok:
  assumes "publish x ax api headers pn s = (Ok (), t)" "api_store api = st"
  obtains current expected ob ow tag where "map_option fst current = cw_pointers (view s) (pn_sub pn)"
    "\<And>stored n h. current = Some (stored, n, h) \<Longrightarrow> stored_seq x ax (sp_body stored) = Ok (n, h)"
    "admit api headers (pn_seq pn) current
       (case current of None \<Rightarrow> False | Some (_, _, h) \<Rightarrow> cw_indexes (view s) h \<noteq> None) = Ok expected"
    "document_outboard x pn = Ok ob" "plain_value (pn_sub pn) \<longrightarrow> ow = Some (pn_sub pn)"
    "view t = (view s)\<lparr>cw_documents := (cw_documents (view s))(pn_hash pn \<mapsto> \<lparr>sd_body = pn_document pn, sd_owner = ow\<rparr>),
       cw_outboards := (cw_outboards (view s))(pn_hash pn \<mapsto> ob),
       cw_indexes := (cw_indexes (view s))(pn_hash pn \<mapsto> vx_record_to_vec x (index_record pn)),
       cw_pointers := (cw_pointers (view s))(pn_sub pn \<mapsto> \<lparr>sp_body = vx_bundle_to_vec x (pn_bundle pn), sp_etag = tag\<rparr>)\<rparr>"
proof -
  from assms(1) obtain current s1 live s2 expected ob s3 s4 s5 where *:
    "read_current x ax api (pn_sub pn) s = (Ok current, s1)" "read_live api current s1 = (Ok live, s2)"
    "admit api headers (pn_seq pn) current live = Ok expected" "document_outboard x pn = Ok ob"
    "write_document api pn s2 = (Ok (), s3)" "write_outboard api pn ob s3 = (Ok (), s4)"
    "write_index x api pn s4 = (Ok (), s5)" "replace_pointer x api pn expected s5 = (Ok (), t)"
    by (auto simp: publish_def io_Ok_iffs)
  note r1 = read_current_Ok[OF *(1) assms(2)] and r2 = read_live_Ok[OF *(2) assms(2)]
  from writes_Ok(1)[OF *(5) assms(2)] obtain ow where w1: "view s3 = (view s2)\<lparr>cw_documents :=
     (cw_documents (view s2))(pn_hash pn \<mapsto> \<lparr>sd_body = pn_document pn, sd_owner = ow\<rparr>)\<rparr>"
     "plain_value (pn_sub pn) \<longrightarrow> ow = Some (pn_sub pn)" by blast
  from writes_Ok(4)[OF *(8) assms(2)] obtain tag where w4: "view t = (view s5)\<lparr>cw_pointers :=
     (cw_pointers (view s5))(pn_sub pn \<mapsto> \<lparr>sp_body = vx_bundle_to_vec x (pn_bundle pn), sp_etag = tag\<rparr>)\<rparr>" by blast
  have "view t = (view s)\<lparr>cw_documents := (cw_documents (view s))(pn_hash pn \<mapsto> \<lparr>sd_body = pn_document pn, sd_owner = ow\<rparr>),
       cw_outboards := (cw_outboards (view s))(pn_hash pn \<mapsto> ob),
       cw_indexes := (cw_indexes (view s))(pn_hash pn \<mapsto> vx_record_to_vec x (index_record pn)),
       cw_pointers := (cw_pointers (view s))(pn_sub pn \<mapsto> \<lparr>sp_body = vx_bundle_to_vec x (pn_bundle pn), sp_etag = tag\<rparr>)\<rparr>"
    by (simp add: w4 writes_Ok(3)[OF *(7) assms(2)] writes_Ok(2)[OF *(6) assms(2)] w1(1) r2(1) r1(1))
  from that[OF r1(2,3) *(3)[unfolded r2(2) r1(1)] *(4) w1(2) this] show thesis .
qed

end



section \<open>What a reader is given\<close>

text \<open>A remembered attribute is the one of the stored index record.\<close>

definition cache_ok :: "'dt v2_ext \<Rightarrow> ('s \<Rightarrow> catalog_view) \<Rightarrow> ('s, 'p, 'd) v2_world \<Rightarrow> bool" where
  "cache_ok x view w \<longleftrightarrow> (\<forall>h a. tget (vw_attributes w) h = Some a \<longrightarrow>
     (\<exists>b r. cw_indexes (view (vw_store w)) h = Some b \<and> vx_record_from_slice x b = Ok r \<and> ix_attribute r = a))"

lemma catalog_attribute_cases:
  assumes "catalog_attribute x api h w = (Ok r, w')"
  obtains a where "tget (vw_attributes w) h = Some a" "r = Some a" "w' = w"
    | s where "tget (vw_attributes w) h = None" "ts_get_catalog_index (api_store api) h (vw_store w) = (Ok None, s)"
        "r = None" "w' = w\<lparr>vw_store := s\<rparr>"
    | s b rec where "tget (vw_attributes w) h = None" "ts_get_catalog_index (api_store api) h (vw_store w) = (Ok (Some b), s)"
        "vx_record_from_slice x b = Ok rec" "r = Some (ix_attribute rec)"
        "w' = remember_attribute h (ix_attribute rec) (w\<lparr>vw_store := s\<rparr>)"
  using assms
  by (auto simp: catalog_attribute_def io_Ok_iffs on_store_Ok result_simps split: option.splits)

lemma catalog_attribute_Ok:
  assumes "catalog_store (api_store api) ok view evolves" "cache_ok x view w" "catalog_attribute x api h w = (Ok (Some a), w')"
  shows "view (vw_store w') = view (vw_store w)" "cache_ok x view w'"
    "\<exists>b r. cw_indexes (view (vw_store w)) h = Some b \<and> vx_record_from_slice x b = Ok r \<and> ix_attribute r = a"
    "vw_verifier w' = vw_verifier w" "vw_reading w' = vw_reading w"
proof -
  have "view (vw_store w') = view (vw_store w) \<and> cache_ok x view w' \<and>
    (\<exists>b r. cw_indexes (view (vw_store w)) h = Some b \<and> vx_record_from_slice x b = Ok r \<and> ix_attribute r = a) \<and>
    vw_verifier w' = vw_verifier w \<and> vw_reading w' = vw_reading w"
    using assms(3)
  proof (cases rule: catalog_attribute_cases)
    case (1 a')
    with assms(2) show ?thesis by (auto simp: cache_ok_def)
  next
    case (3 s b rec)
    have v: "view s = view (vw_store w)" using catalog_store.read_view(5)[OF assms(1), of h "vw_store w"] 3(2) by simp
    have b: "cw_indexes (view (vw_store w)) h = Some b" using catalog_store.get_index[OF assms(1) 3(2)] by simp
    have "cache_ok x view w'"
      using assms(2) v b 3(3,5) by (auto simp: cache_ok_def remember_attribute_def Let_def table_simps split: if_splits)
    with v b 3 show ?thesis by (simp add: remember_attribute_def Let_def)
  qed simp
  then show "view (vw_store w') = view (vw_store w)" "cache_ok x view w'"
    "\<exists>b r. cw_indexes (view (vw_store w)) h = Some b \<and> vx_record_from_slice x b = Ok r \<and> ix_attribute r = a"
    "vw_verifier w' = vw_verifier w" "vw_reading w' = vw_reading w" by blast+
qed

text \<open>What a decision on a reader rests on.\<close>

definition reader_permitted ::
  "verify_env \<Rightarrow> int \<Rightarrow> 'd Readers \<Rightarrow> VerifiedClaims \<Rightarrow> headers \<Rightarrow> string \<Rightarrow> string \<Rightarrow> CwtVerifier \<Rightarrow> 'd \<Rightarrow> bool" where
  "reader_permitted env now readers claims headers h attribute v d \<longleftrightarrow>
     (\<exists>decide token chain v' ds d'. rs_provider readers = Some decide \<and> bearer headers = Some token \<and>
        person_chain env claims token headers (rs_environment readers) now v = (Ok chain, v') \<and>
        decide \<lparr>dr_chain = chain, dr_action = rs_action readers, dr_resource_type = CatalogItem,
          dr_resources = [(h, [attribute])]\<rparr> d = (Ok ds, d') \<and> tget ds h = Some True)"

lemma decide_reader_Ok:
  assumes "decide_reader env now readers claims headers h attribute w = (Ok u, w')"
  shows "reader_permitted env now readers claims headers h attribute (vw_verifier w) (vw_reading w)"
    "vw_store w' = vw_store w" "vw_attributes w' = vw_attributes w"
  using assms unfolding reader_permitted_def
  by (auto simp: decide_reader_def io_Ok_iffs on_Ok split: option.splits if_splits)

text \<open>C12: A pointer is resolved only for a verified token, only for a valid subject whose catalog is not
  hidden, only while its catalog is not blocked and has an index record; and unless the token is an
  operator's, only when the decision service permits the reader's own chain on that catalog under the
  attribute of its record. The answer is the stored bundle with its seq as entity tag, nothing in the
  store changes, and the remembered attributes stay those of the records.\<close>

theorem get_pointer_sound:
  assumes st: "catalog_store (api_store (v2_api state)) ok view evolves" and cache: "cache_ok x view w"
    and run: "get_pointer x env now now' state sub headers w = (Ok resp, w')"
  shows "\<exists>claims v sp n h b r. authorize_catalog_reader env now headers (vw_verifier w) = (Ok claims, v) \<and>
    valid_identifier sub MAX_OWNER_BYTES \<and> \<not> owner_hidden (v2_api state) (Some sub) \<and>
    cw_pointers (view (vw_store w)) sub = Some sp \<and> stored_seq x (ve_ext env) (sp_body sp) = Ok (n, h) \<and>
    \<not> api_is_blocked (v2_api state) h \<and> cw_indexes (view (vw_store w)) h = Some b \<and> vx_record_from_slice x b = Ok r \<and>
    (is_operator (v2_api state) claims \<or>
       reader_permitted env now' (v2_readers state) claims headers h (ix_attribute r) v (vw_reading w)) \<and>
    hr_status resp = 200 \<and> hr_body resp = sp_body sp \<and> map_of (hr_headers resp) ''etag'' = Some (pointer_etag n) \<and>
    view (vw_store w') = view (vw_store w) \<and> cache_ok x view w'"
proof -
  from run obtain claims v s sp n h attribute w2 where *:
    "authorize_catalog_reader env now headers (vw_verifier w) = (Ok claims, v)"
    "valid_identifier sub MAX_OWNER_BYTES" "\<not> owner_hidden (v2_api state) (Some sub)"
    "ts_get_catalog_pointer (api_store (v2_api state)) sub (vw_store w) = (Ok (Some sp), s)"
    "stored_seq x (ve_ext env) (sp_body sp) = Ok (n, h)" "\<not> api_is_blocked (v2_api state) h"
    "catalog_attribute x (v2_api state) h (w\<lparr>vw_verifier := v, vw_store := s\<rparr>) = (Ok (Some attribute), w2)"
    "is_operator (v2_api state) claims \<and> w' = w2 \<or>
       (\<exists>u. decide_reader env now' (v2_readers state) claims headers h attribute w2 = (Ok u, w'))"
    "hr_status resp = 200" "hr_body resp = sp_body sp" "map_of (hr_headers resp) ''etag'' = Some (pointer_etag n)"
    by (auto simp: get_pointer_def Let_def io_Ok_iffs on_Ok result_simps split: if_splits option.splits)
  have s: "view s = view (vw_store w)" "cw_pointers (view (vw_store w)) sub = Some sp"
    using catalog_store.read_view(6)[OF st, of sub "vw_store w"] catalog_store.get_pointer[OF st *(4)] *(4) by simp_all
  have c: "cache_ok x view (w\<lparr>vw_verifier := v, vw_store := s\<rparr>)" using cache s(1) by (simp add: cache_ok_def)
  note ca = catalog_attribute_Ok[OF st c *(7), simplified]
  from ca(3) s(1) obtain b r where r: "cw_indexes (view (vw_store w)) h = Some b" "vx_record_from_slice x b = Ok r"
    "ix_attribute r = attribute" by auto
  have "is_operator (v2_api state) claims \<or>
       reader_permitted env now' (v2_readers state) claims headers h (ix_attribute r) v (vw_reading w)"
    using *(8) decide_reader_Ok(1)[of env now' "v2_readers state" claims headers h attribute w2] ca(4,5) r(3) by auto
  moreover have "view (vw_store w') = view (vw_store w) \<and> cache_ok x view w'"
    using *(8) decide_reader_Ok(2,3)[of env now' "v2_readers state" claims headers h attribute w2] ca(1,2) s(1)
    by (auto simp: cache_ok_def)
  ultimately show ?thesis using *(1-3,5,6,9-11) s(2) r(1,2) by blast
qed

text \<open>At most 100,000 attributes are remembered.\<close>

lemma remember_attribute_bounded:
  assumes "wf_table (vw_attributes w)" "length (vw_attributes w) \<le> ATTRIBUTE_CACHE_CAPACITY"
  shows "wf_table (vw_attributes (remember_attribute h a w)) \<and>
    length (vw_attributes (remember_attribute h a w)) \<le> ATTRIBUTE_CACHE_CAPACITY"
proof (cases "length (vw_attributes w) \<ge> ATTRIBUTE_CACHE_CAPACITY")
  case False
  with assms tbl.len_insert_le[OF assms(1), of h a] show ?thesis
    by (simp add: remember_attribute_def Let_def wf_table_tinsert)
qed (simp add: remember_attribute_def tinsert_def tremove_def wf_table_def ATTRIBUTE_CACHE_CAPACITY_def)


section \<open>Preconditions\<close>

text \<open>The entity tags of a header, where every value is visible ASCII.\<close>

definition header_tags :: "headers \<Rightarrow> string \<Rightarrow> string list" where
  "header_tags headers name = concat (map (\<lambda>v. map trim (split_on (CHR '','') v)) (header_get_all headers name))"

definition plain_header :: "headers \<Rightarrow> string \<Rightarrow> bool" where
  "plain_header headers name \<longleftrightarrow> (\<forall>v\<in>set (header_get_all headers name). header_to_str v = Some v)"

lemma map_result_to_str:
  "map_result (\<lambda>v. ok_or () (header_to_str v)) vs = (if \<forall>v\<in>set vs. header_to_str v = Some v then Ok vs else Err ())"
  by (induction vs) (auto simp: header_to_str_def)

lemma entity_tags_eq:
  "entity_tags headers name =
     (if header_get_all headers name = [] then None
      else Some (if plain_header headers name then Ok (header_tags headers name) else Err ()))"
  by (auto simp: entity_tags_def map_result_to_str plain_header_def header_tags_def split: list.splits)

lemma weak_tag: "(case strip_prefix ''W/'' t of Some r \<Rightarrow> r | None \<Rightarrow> t) = pointer_etag n \<longleftrightarrow>
    t = pointer_etag n \<or> t = ''W/'' @ pointer_etag n"
  by (cases "strip_prefix ''W/'' t") (auto simp: strip_prefix_eq_Some pointer_etag_def)

text \<open>The preconditions of a publish hold exactly when RFC 9110 says so of the seq that is served: with
  \<open>If-Match\<close>, every value is visible ASCII and a pointer is served whose tag is listed, or \<open>*\<close> is, a
  weak tag never matching; with \<open>If-None-Match\<close>, every value is visible ASCII and no pointer is served
  under \<open>*\<close> or a listed tag, weak or strong. Without the headers there is no condition.\<close>

theorem preconditions_hold_iff:
  "preconditions_hold headers (map_option pointer_etag served) \<longleftrightarrow>
   (header_get_all headers ''if-match'' = [] \<or> plain_header headers ''if-match'' \<and>
      (\<exists>n. served = Some n \<and> (''*'' \<in> set (header_tags headers ''if-match'') \<or>
         pointer_etag n \<in> set (header_tags headers ''if-match'')))) \<and>
   (header_get_all headers ''if-none-match'' = [] \<or> plain_header headers ''if-none-match'' \<and>
      (served = None \<or> (\<exists>n. served = Some n \<and> ''*'' \<notin> set (header_tags headers ''if-none-match'') \<and>
         pointer_etag n \<notin> set (header_tags headers ''if-none-match'') \<and>
         ''W/'' @ pointer_etag n \<notin> set (header_tags headers ''if-none-match''))))"
  by (cases served) (auto simp: preconditions_hold_def if_match_holds_def if_none_match_holds_def entity_tags_eq list_ex_iff weak_tag)


section \<open>A sample publish\<close>

fun sample_enc :: "string list \<Rightarrow> bytes" where
  "sample_enc [] = []"
| "sample_enc ([] # ss) = CHR '';'' # sample_enc ss"
| "sample_enc ((ch # cs) # ss) = CHR ''c'' # ch # sample_enc (cs # ss)"

fun sample_dec :: "string \<Rightarrow> bytes \<Rightarrow> string list" where
  "sample_dec acc [] = []"
| "sample_dec acc [k] = [acc]"
| "sample_dec acc (k # ch # r) = (if k = CHR ''c'' then sample_dec (acc @ [ch]) r else acc # sample_dec [] (ch # r))"

lemma sample_dec_enc: "sample_dec acc (sample_enc (s # ss)) = (acc @ s) # sample_dec [] (sample_enc ss)"
proof (induction s arbitrary: acc)
  case Nil
  then show ?case by (cases "sample_enc ss") auto
qed simp

definition sample_catalog_hash :: string where
  "sample_catalog_hash = replicate 64 (CHR ''a'')"

definition sample_attribute :: string where
  "sample_attribute = CAMPAIGN_FQN_PREFIX @ ''7''"

definition sample_envelope_ext :: "nat manifest_ext" where
  "sample_envelope_ext = sample_manifest_ext\<lparr>me_from_slice := (\<lambda>b. Some (if b = ''{}''
     then JObject [(''payload'', JObject [(''mimeType'', JString CATALOG_MIME_TYPE)]),
       (''encryptionInformation'', JObject [(''keyAccess'', JArray []), (''policy'', JString ''p'')])]
     else JObject [(''body'', JObject [(''dataAttributes'', JArray [JObject [(''attribute'', JString sample_attribute)]])]),
       (''uuid'', JString ''u'')]))\<rparr>"

definition sample_v2_ext :: "nat v2_ext" where
  "sample_v2_ext =
     \<lparr>vx_bundle = sample_bundle_ext, vx_manifest = sample_envelope_ext, vx_tdf = sample_tdf_ext,
      vx_bao = (\<lambda>_ _. Ok (sample_catalog_hash, ''tree'')), vx_blake3 = (\<lambda>_. sample_catalog_hash),
      vx_put_request = (\<lambda>_. Ok \<lparr>rq_document = ''0123456789'', rq_bundle = sample_bundle, rq_index = JArray []\<rparr>),
      vx_entry = (\<lambda>_. Err []),
      vx_bundle_to_vec = (\<lambda>b. sample_enc [bu_pointer b, as_credential_id (bu_assertion b), as_authenticator_data (bu_assertion b),
        as_client_data_json (bu_assertion b), as_signature (bu_assertion b), bu_credential b]),
      vx_bundle_from_slice = (\<lambda>b. case sample_dec [] b of [p, i, a, c, s, k] \<Rightarrow> Ok \<lparr>bu_pointer = p,
        bu_assertion = \<lparr>as_credential_id = i, as_authenticator_data = a, as_client_data_json = c, as_signature = s\<rparr>,
        bu_credential = k\<rparr> | _ \<Rightarrow> Err []),
      vx_record_to_vec = (\<lambda>r. sample_enc [ix_owner r, ix_attribute r]),
      vx_record_from_slice = (\<lambda>b. case sample_dec [] b of [ow, a] \<Rightarrow> Ok \<lparr>ix_owner = ow, ix_attribute = a, ix_entries = JNull\<rparr>
        | _ \<Rightarrow> Err []),
      vx_b64url_encode = (\<lambda>b. b), vx_status_get = (\<lambda>_. Reply 200 []), vx_status_json = (\<lambda>_. Some (''alice'', False))\<rparr>"

lemma sample_bundle_roundtrip: "vx_bundle_from_slice sample_v2_ext (vx_bundle_to_vec sample_v2_ext b) = Ok b"
  by (simp add: sample_v2_ext_def sample_dec_enc)

lemma sample_record_roundtrip:
  "\<exists>r'. vx_record_from_slice sample_v2_ext (vx_record_to_vec sample_v2_ext r) = Ok r' \<and>
     ix_owner r' = ix_owner r \<and> ix_attribute r' = ix_attribute r"
  by (simp add: sample_v2_ext_def sample_dec_enc)

interpretation mp: catalog_publishing mt_store mt_versions_ok mt_view mt_evolves sample_v2_ext sample_bundle_auth
  by unfold_locales (rule sample_bundle_roundtrip sample_record_roundtrip)+

definition sample_readers :: "unit Readers" where
  "sample_readers = \<lparr>rs_provider = Some (\<lambda>req d. (Ok (map (\<lambda>(r, _). (r, True)) (dr_resources req)), d)),
     rs_action = ''read'', rs_environment = None\<rparr>"

definition sample_v2_state :: "(MemStore, unit, unit) V2State" where
  "sample_v2_state = v2_state sample_catalog_api ''rp'' ''https://idp/{credentialId}'' sample_readers"

definition sample_world :: "(MemStore, unit, unit) v2_world" where
  "sample_world = \<lparr>vw_verifier = sample_verifier, vw_publishing = (), vw_reading = (), vw_attributes = [], vw_store = mt_new\<rparr>"

definition sample_put_headers :: headers where
  "sample_put_headers = [(''authorization'', ''Bearer T.creator''), (''content-type'', ''application/json''), (''if-none-match'', ''*'')]"

definition sample_creator_claims :: VerifiedClaims where
  "sample_creator_claims = sample_claims\<lparr>vc_arkavo_patreon :=
     Some (JObject [(''campaign_id'', JString ''7''), (''role'', JString ''creator'')])\<rparr>"

lemma sample_authorize:
  "authorize_publisher sample_bundle_env 1500 1500 sample_catalog_api sample_put_headers (sample_verifier, ()) =
     (Ok sample_creator_claims, (sample_verifier, ()))"
  by code_simp

lemma sample_envelope: "envelope_attribute sample_v2_ext ''0123456789'' ''alice'' = Ok sample_attribute"
proof -
  have "positions ''0123456789'' EOCD = []" by code_simp
  then have "validate_tdf_structure sample_tdf_ext ''0123456789'' = Ok sample_manifest"
    unfolding validate_tdf_structure_def by (rule sample_structure) simp_all
  moreover have "te_manifest_to_json sample_tdf_ext sample_manifest = Ok ''{}''" by (simp add: sample_tdf_ext_def sample_manifest_def)
  moreover have "Option.bind (read_manifest sample_envelope_ext ''{}'') (\<lambda>p. Some (check_envelope p ''alice'')) = Some (Ok sample_attribute)"
    by code_simp
  then obtain p where "read_manifest sample_envelope_ext ''{}'' = Some p" "check_envelope p ''alice'' = Ok sample_attribute"
    by (auto split: bind_splits)
  ultimately show ?thesis by (simp add: envelope_attribute_def sample_v2_ext_def)
qed

definition sample_publication :: publication where
  "sample_publication = \<lparr>pn_sub = ''alice'', pn_seq = 7, pn_hash = sample_catalog_hash, pn_document = ''0123456789'',
     pn_bundle = sample_bundle, pn_attribute = sample_attribute, pn_index = JArray [], pn_entries = []\<rparr>"

lemma sample_check_document:
  "check_document sample_v2_ext sample_creator_claims ''alice'' sample_pointer ''0123456789'' = Ok sample_attribute"
proof -
  have "owns_campaign sample_creator_claims ''7''" by code_simp
  then show ?thesis
    using sample_envelope
    by (simp add: check_document_def) (simp add: sample_v2_ext_def sample_pointer_def sample_catalog_hash_def sample_attribute_def)
qed

lemma sample_parse_put:
  "parse_put sample_v2_ext sample_bundle_auth ''body'' =
     Ok (\<lparr>rq_document = ''0123456789'', rq_bundle = sample_bundle, rq_index = JArray []\<rparr>, ''0123456789'')"
  by (simp add: parse_put_def sample_v2_ext_def sample_bundle_ext_def sample_bundle_auth_def MAX_CATALOG_BYTES_def)

lemma sample_put_checks:
  "\<exists>w'. put_checks sample_v2_ext sample_bundle_env 1500 1500 1500 sample_v2_state ''alice'' sample_put_headers (Ok ''body'') sample_world
     = (Ok sample_publication, w') \<and> vw_store w' = mt_new"
proof -
  obtain v' where v': "verify_bundle sample_bundle_ext sample_bundle_env sample_bundle ''alice'' (for_rp ''rp'') 1500 sample_verifier
      = (Ok sample_verified_bundle, v')" using sample_verify_bundle by (metis prod.collapse)
  have api: "v2_api sample_v2_state = sample_catalog_api" "v2_passkeys sample_v2_state = for_rp ''rp''"
    "v2_status sample_v2_state = IdpCredentialStatus ''https://idp/{credentialId}''"
    by (simp_all add: sample_v2_state_def v2_state_def)
  have "is_json sample_put_headers" by code_simp
  moreover have "check_payloads sample_envelope_ext sample_catalog_api [] sample_attribute mt_new = (Ok (), mt_new)"
    by (simp add: check_payloads_def hashes_def io_defs check_sizes_def check_policies_def)
  moreover have "status_check sample_v2_ext (IdpCredentialStatus ''https://idp/{credentialId}'') ''cred'' ''alice'' = Ok ()"
    by (simp add: status_check_def idp_status_check_def sample_v2_ext_def)
  moreover have "parse_index (vx_entry sample_v2_ext) (JArray []) = Ok []" by (simp add: parse_index_def)
  moreover have "vx_bundle sample_v2_ext = sample_bundle_ext" "vx_manifest sample_v2_ext = sample_envelope_ext"
    "vx_blake3 sample_v2_ext d = sample_catalog_hash" "ve_ext sample_bundle_env = sample_bundle_auth" for d
    by (simp_all add: sample_v2_ext_def sample_bundle_env_def)
  moreover have "\<not> api_is_blocked sample_catalog_api h" for h by (simp add: api_is_blocked_def sample_catalog_api_def)
  moreover have "vc_sub sample_creator_claims = ''alice''" by (simp add: sample_creator_claims_def sample_claims_def)
  ultimately show ?thesis
    using sample_authorize sample_parse_put sample_check_document v' api
    by (simp add: put_checks_def Let_def io_bind_def io_lift_def io_map_err_def on_publishing_def on_verifier_def on_store_def
        sample_world_def read_put_body_def MAX_PUT_BYTES_def sample_verified_bundle_def sample_publication_def sample_pointer_def)
qed

text \<open>The store after the sample publish.\<close>

definition sample_published :: MemStore where
  "sample_published = mt_new\<lparr>
     mt_catalog_documents := [(sample_catalog_hash, \<lparr>sd_body = ''0123456789'', sd_owner = Some ''alice''\<rparr>)],
     mt_catalog_outboards := [(sample_catalog_hash, ''tree'')],
     mt_catalog_indexes := [(sample_catalog_hash, vx_record_to_vec sample_v2_ext (index_record sample_publication))],
     mt_pointer_versions := 1,
     mt_catalog_pointers := [(''alice'', (vx_bundle_to_vec sample_v2_ext sample_bundle, 0))]\<rparr>"

lemma sample_api_store: "api_store sample_catalog_api = mt_store"
  by (simp add: sample_catalog_api_def)

lemma sample_admit: "admit sample_catalog_api sample_put_headers 7 None False = Ok None"
  by code_simp

lemma sample_document_outboard: "document_outboard sample_v2_ext sample_publication = Ok ''tree''"
  by code_simp

lemma sample_publish:
  "publish sample_v2_ext sample_bundle_auth sample_catalog_api sample_put_headers sample_publication mt_new = (Ok (), sample_published)"
  using sample_admit sample_document_outboard
  by (simp add: publish_def read_current_def read_live_def write_document_def write_outboard_def write_index_def
      replace_pointer_def io_defs sample_api_store mt_op_defs mt_new_def sample_publication_def sample_published_def
      tinsert_def tremove_def)

lemma sample_steps:
  "run_steps sample_v2_ext sample_bundle_auth sample_catalog_api sample_put_headers sample_publication 6 (AtPointer, mt_new) =
     (Published, sample_published)"
  using sample_admit sample_document_outboard
  by (simp add: numeral_eq_Suc after_def admitted_def read_current_def read_live_def write_document_def write_outboard_def write_index_def
      replace_pointer_def io_defs sample_api_store mt_op_defs mt_new_def sample_publication_def sample_published_def
      tinsert_def tremove_def)


text \<open>A publish alone in the node moves on by its own steps.\<close>

lemma publishes_run:
  "(publishes x ax state view evolves)\<^sup>*\<^sup>* (s, [j])
     (snd (run_steps x ax (v2_api state) (jb_headers j) (jb_publication j) n (jb_stage j, s)),
      [j\<lparr>jb_stage := fst (run_steps x ax (v2_api state) (jb_headers j) (jb_publication j) n (jb_stage j, s))\<rparr>])"
proof (induction n arbitrary: s j)
  case (Suc n)
  obtain t next_stage where t: "publish_step x ax (v2_api state) (jb_headers j) (jb_publication j) (jb_stage j) s = (next_stage, t)"
    by fastforce
  have "publishes x ax state view evolves (s, [j]) (t, [j\<lparr>jb_stage := next_stage\<rparr>])"
    using publishes.advance[of 0 "[j]" x ax "api_publishing (v2_api state)" state s next_stage t view evolves] t
    by (simp add: with_publishing_def)
  then show ?case
    using Suc.IH[of t "j\<lparr>jb_stage := next_stage\<rparr>"] t by (simp add: converse_rtranclp_into_rtranclp)
qed simp

definition sample_job :: job where
  "sample_job = \<lparr>jb_headers = sample_put_headers, jb_publication = sample_publication, jb_stage = AtPointer\<rparr>"

lemma sample_arrive:
  "publishes sample_v2_ext sample_bundle_auth sample_v2_state mt_view mt_evolves (s, jobs) (s, jobs @ [sample_job])"
proof -
  obtain w' where "put_checks sample_v2_ext sample_bundle_env 1500 1500 1500 sample_v2_state ''alice'' sample_put_headers (Ok ''body'') sample_world
     = (Ok sample_publication, w')" using sample_put_checks by blast
  moreover have "with_publishing None sample_v2_state = sample_v2_state"
    by (simp add: with_publishing_def sample_v2_state_def v2_state_def sample_catalog_api_def)
  moreover have "ve_ext sample_bundle_env = sample_bundle_auth" by (simp add: sample_bundle_env_def)
  ultimately show ?thesis
    using publishes.arrive[of sample_v2_ext sample_bundle_env 1500 1500 1500 None sample_v2_state] by (simp add: sample_job_def)
qed

lemma sample_reaches:
  "(publishes sample_v2_ext sample_bundle_auth sample_v2_state mt_view mt_evolves)\<^sup>*\<^sup>*
     (mt_new, []) (sample_published, [sample_job\<lparr>jb_stage := Published\<rparr>])"
proof -
  have api: "v2_api sample_v2_state = sample_catalog_api" by (simp add: sample_v2_state_def v2_state_def)
  have "publishes sample_v2_ext sample_bundle_auth sample_v2_state mt_view mt_evolves (mt_new, []) (mt_new, [sample_job])"
    using sample_arrive[of mt_new "[]"] by simp
  moreover have "(publishes sample_v2_ext sample_bundle_auth sample_v2_state mt_view mt_evolves)\<^sup>*\<^sup>*
     (mt_new, [sample_job]) (sample_published, [sample_job\<lparr>jb_stage := Published\<rparr>])"
    using publishes_run[of sample_v2_ext sample_bundle_auth sample_v2_state mt_view mt_evolves mt_new sample_job 6]
    by (simp add: api sample_steps sample_job_def del: run_steps.simps)
  ultimately show ?thesis by (rule converse_rtranclp_into_rtranclp)
qed

lemma sample_new_ok: "mt_versions_ok mt_new" "catalog_ok sample_v2_ext sample_bundle_auth (mt_view mt_new)"
  by (simp_all add: mt_versions_ok_def catalog_ok_def mt_view_def mt_new_def)

lemma sample_store_law: "catalog_store (api_store (v2_api sample_v2_state)) mt_versions_ok mt_view mt_evolves"
  using mt.catalog_store_axioms by (simp add: sample_v2_state_def v2_state_def sample_catalog_api_def)

lemma sample_pointer_stored:
  "cw_pointers (mt_view sample_published) ''alice'' = Some \<lparr>sp_body = vx_bundle_to_vec sample_v2_ext sample_bundle, sp_etag = mt_version_tag 0\<rparr>"
  by (simp add: mt_view_def sample_published_def)

lemma sample_stored_seq:
  "stored_seq sample_v2_ext sample_bundle_auth (vx_bundle_to_vec sample_v2_ext sample_bundle) = Ok (7, sample_catalog_hash)"
proof -
  have "publication_ok sample_v2_ext sample_bundle_auth sample_publication"
    using sample_put_checks put_checks_publication by (fastforce simp: sample_bundle_env_def)
  then show ?thesis using mp.published_seq by (fastforce simp: sample_publication_def)
qed

theorem published_pointers_servable_witness:
  "catalog_ok sample_v2_ext sample_bundle_auth (mt_view sample_published) \<and> cw_pointers (mt_view sample_published) ''alice'' \<noteq> None"
  using published_pointers_servable[OF sample_store_law sample_bundle_roundtrip sample_record_roundtrip sample_new_ok sample_reaches]
    sample_pointer_stored by simp

theorem published_seq_increases_witness:
  "\<exists>p n h. cw_pointers (mt_view sample_published) ''alice'' = Some p \<and>
     stored_seq sample_v2_ext sample_bundle_auth (sp_body p) = Ok (n, h)"
proof -
  note later = r_into_rtranclp[of "publishes sample_v2_ext sample_bundle_auth sample_v2_state mt_view mt_evolves", OF sample_arrive]
  from published_seq_increases[OF sample_store_law sample_bundle_roundtrip sample_record_roundtrip sample_new_ok sample_reaches
      later sample_pointer_stored, of 7 sample_catalog_hash] sample_stored_seq
  show ?thesis by auto
qed

lemma sample_put_catalog:
  "\<exists>resp w'. put_catalog sample_v2_ext sample_bundle_env 1500 1500 1500 sample_v2_state ''alice'' sample_put_headers (Ok ''body'') sample_world
     = (Ok resp, w')"
proof -
  obtain w' where "put_checks sample_v2_ext sample_bundle_env 1500 1500 1500 sample_v2_state ''alice'' sample_put_headers (Ok ''body'') sample_world
     = (Ok sample_publication, w')" "vw_store w' = mt_new" using sample_put_checks by blast
  with sample_publish show ?thesis
    by (simp add: put_catalog_def io_defs on_store_def sample_v2_state_def v2_state_def sample_bundle_env_def)
qed


lemma sample_get_pointer:
  "\<exists>resp w'. get_pointer sample_v2_ext sample_bundle_env 1500 1500 sample_v2_state ''alice'' sample_put_headers
     (sample_world\<lparr>vw_store := sample_published\<rparr>) = (Ok resp, w')"
proof -
  have a: "authorize_catalog_reader sample_bundle_env 1500 sample_put_headers sample_verifier = (Ok sample_creator_claims, sample_verifier)"
    by code_simp
  have b: "bearer sample_put_headers = Some ''T.creator''" by code_simp
  have c: "\<exists>chain. person_chain sample_bundle_env sample_creator_claims ''T.creator'' sample_put_headers None 1500 sample_verifier
      = (Ok chain, sample_verifier)" by (rule exI) code_simp
  then obtain chain where c: "person_chain sample_bundle_env sample_creator_claims ''T.creator'' sample_put_headers None 1500 sample_verifier
      = (Ok chain, sample_verifier)" ..
  have d: "valid_identifier ''alice'' MAX_OWNER_BYTES" by code_simp
  have e: "vx_record_from_slice sample_v2_ext (vx_record_to_vec sample_v2_ext (index_record sample_publication)) =
      Ok \<lparr>ix_owner = ''alice'', ix_attribute = sample_attribute, ix_entries = JNull\<rparr>"
    by code_simp
  show ?thesis
    using a b c d e sample_stored_seq
    by (simp add: get_pointer_def Let_def io_defs on_verifier_def on_store_def on_reading_def sample_world_def sample_v2_state_def
        v2_state_def owner_hidden_def api_is_blocked_def sample_catalog_api_def mt_op_defs sample_published_def mt_new_def
        catalog_attribute_def remember_attribute_def is_operator_def decide_reader_def sample_readers_def sample_bundle_env_def)
qed

theorem get_pointer_sound_witness:
  "\<exists>resp w'. get_pointer sample_v2_ext sample_bundle_env 1500 1500 sample_v2_state ''alice'' sample_put_headers
     (sample_world\<lparr>vw_store := sample_published\<rparr>) = (Ok resp, w') \<and>
     hr_body resp = vx_bundle_to_vec sample_v2_ext sample_bundle"
proof -
  obtain resp w' where run: "get_pointer sample_v2_ext sample_bundle_env 1500 1500 sample_v2_state ''alice'' sample_put_headers
     (sample_world\<lparr>vw_store := sample_published\<rparr>) = (Ok resp, w')" using sample_get_pointer by blast
  have "cache_ok sample_v2_ext mt_view (sample_world\<lparr>vw_store := sample_published\<rparr>)" by (simp add: cache_ok_def sample_world_def)
  from get_pointer_sound[OF sample_store_law this run] sample_pointer_stored
  have "hr_body resp = vx_bundle_to_vec sample_v2_ext sample_bundle" by auto
  with run show ?thesis by blast
qed

end
