(* ===== verification/Staging.thy ===== *)
theory Staging
  imports Tables "HOL-Library.Multiset"
begin

text \<open>
  \<open>src/staging.rs\<close>: the pushes in flight, counted by hash, and what the local store's garbage collector
  is told to keep. The store (iroh-blobs) is the record \<open>blob_store\<close> of the two requests the code makes;
  the collector itself is the store's. Time is a number of milliseconds of the monotonic clock. The
  counts are unbounded numbers: a \<open>usize\<close> counts guards that are all in memory.
\<close>

section \<open>State and operations\<close>

record Staging =
  sg_pending :: "(string, nat) table"
  sg_store :: bool
  sg_last_run :: nat

definition DRAIN_LIMIT :: nat where
  "DRAIN_LIMIT = 15 * 60 * 1000"

definition staging_new :: "nat \<Rightarrow> Staging" where
  "staging_new now = \<lparr>sg_pending = [], sg_store = False, sg_last_run = now\<rparr>"

definition attach :: "nat \<Rightarrow> Staging \<Rightarrow> Staging" where
  "attach now st = st\<lparr>sg_store := True, sg_last_run := now\<rparr>"

definition track :: "string \<Rightarrow> Staging \<Rightarrow> Staging" where
  "track h st = st\<lparr>sg_pending := tinsert h ((case tget (sg_pending st) h of Some n \<Rightarrow> n | None \<Rightarrow> 0) + 1) (sg_pending st)\<rparr>"

definition is_pending :: "string \<Rightarrow> Staging \<Rightarrow> bool" where
  "is_pending h st \<longleftrightarrow> tcontains (sg_pending st) h"

text \<open>Dropping a \<open>PendingPush\<close>. The subtraction panics or wraps at zero, which is the error here.\<close>

definition drop_push :: "string \<Rightarrow> Staging \<Rightarrow> (Staging, string) result" where
  "drop_push h st = (case tget (sg_pending st) h of
       None \<Rightarrow> Ok st
     | Some n \<Rightarrow>
         if n = 0 then Err ''attempt to subtract with overflow''
         else if n - 1 = 0 then Ok (st\<lparr>sg_pending := tremove h (sg_pending st)\<rparr>)
         else Ok (st\<lparr>sg_pending := tinsert h (n - 1) (sg_pending st)\<rparr>))"

record 'b blob_store =
  bs_sync_db :: "('b, unit, string) io"
  bs_list_hashes :: "('b, string list, string) io"

definition pending_hashes :: "Staging \<Rightarrow> string list" where
  "pending_hashes st = tkeys (sg_pending st)"

text \<open>The end of \<open>keep_set\<close>: what both reads of the pending pushes named, unless that dooms nothing.\<close>

definition keep_result :: "string list \<Rightarrow> string list \<Rightarrow> string list \<Rightarrow> string list option" where
  "keep_result first stored second =
     (let keep = first @ second; doomed = length (filter (\<lambda>h. h \<notin> set keep) stored) in
      if doomed = 0 then None else Some keep)"

text \<open>\<open>keep_set\<close>: pushes begin and end while the store's two requests run, which is \<open>during\<close>.\<close>

definition keep_set ::
  "'b blob_store \<Rightarrow> (Staging \<Rightarrow> Staging) \<Rightarrow> Staging \<times> 'b \<Rightarrow> string list option \<times> Staging \<times> 'b" where
  "keep_set bs during c = (case c of (st, b) \<Rightarrow>
     if \<not> sg_store st then (None, (st, b))
     else let keep = pending_hashes st in
       (case bs_sync_db bs b of
          (Err _, b) \<Rightarrow> (None, (during st, b))
        | (Ok _, b) \<Rightarrow>
            (case bs_list_hashes bs b of
               (Err _, b) \<Rightarrow> (None, (during st, b))
             | (Ok stored, b) \<Rightarrow>
                 let st = during st in (keep_result keep stored (pending_hashes st), (st, b)))))"

datatype ProtectOutcome = ContinueRun | AbortRun

text \<open>The callback of \<open>gc_config\<close>, which the collector calls at the start of a run with the hashes it
  protects already; \<open>joined\<close> tells whether the task that reads the keep set ended.\<close>

definition add_protected ::
  "'b blob_store \<Rightarrow> (Staging \<Rightarrow> Staging) \<Rightarrow> bool \<Rightarrow> nat \<Rightarrow> string list \<Rightarrow> Staging \<times> 'b \<Rightarrow>
   (ProtectOutcome \<times> string list) \<times> Staging \<times> 'b" where
  "add_protected bs during joined now live c =
     (case keep_set bs during ((fst c)\<lparr>sg_last_run := now\<rparr>, snd c) of
        (kept, c) \<Rightarrow>
          if \<not> joined then ((AbortRun, live), c)
          else (case kept of Some keep \<Rightarrow> ((ContinueRun, live @ keep), c) | None \<Rightarrow> ((AbortRun, live), c)))"

text \<open>A loop that sleeps between its tests: \<open>wake t\<close> is when a sleep begun at \<open>t\<close> ends. It may go on for
  ever, and then has no result.\<close>

partial_function (option) poll_until :: "(nat \<Rightarrow> bool) \<Rightarrow> (nat \<Rightarrow> nat) \<Rightarrow> nat \<Rightarrow> nat option" where
  "poll_until stop wake t = (if stop t then Some t else poll_until stop wake (wake t))"

declare poll_until.simps [code]

text \<open>\<open>collector_stopped\<close>, called at \<open>now\<close>, over the state of staging at each time.\<close>

definition collector_stopped :: "(nat \<Rightarrow> Staging) \<Rightarrow> (nat \<Rightarrow> nat) \<Rightarrow> nat \<Rightarrow> nat \<Rightarrow> nat option" where
  "collector_stopped st wake dead_after now =
     Option.bind (poll_until (\<lambda>t. \<not> t - sg_last_run (st t) < dead_after) wake now) (\<lambda>t.
       let deadline = t + DRAIN_LIMIT in
       poll_until (\<lambda>t. \<not> (sg_pending (st t) \<noteq> [] \<and> t < deadline)) wake t)"


section \<open>The counts are the live guards\<close>

definition staging_ok :: "string multiset \<Rightarrow> Staging \<Rightarrow> bool" where
  "staging_ok guards st \<longleftrightarrow> wf_table (sg_pending st) \<and>
     (\<forall>h. tget (sg_pending st) h = (if h \<in># guards then Some (count guards h) else None))"

lemma staging_ok_new: "staging_ok {#} (staging_new now)"
  by (simp add: staging_ok_def staging_new_def)

lemma staging_ok_track: "staging_ok guards st \<Longrightarrow> staging_ok (add_mset h guards) (track h st)"
  by (auto simp: staging_ok_def track_def table_simps intro: wf_table_intros simp: not_in_iff)

lemma staging_ok_drop:
  assumes "staging_ok guards st" "h \<in># guards"
  shows "\<exists>st'. drop_push h st = Ok st' \<and> staging_ok (guards - {#h#}) st'"
proof -
  have n: "tget (sg_pending st) h = Some (count guards h)" "count guards h \<noteq> 0"
    using assms by (simp_all add: staging_ok_def)
  show ?thesis
  proof (cases "count guards h = 1")
    case True
    with n assms show ?thesis
      by (auto simp: drop_push_def staging_ok_def table_simps in_diff_count intro: wf_table_intros)
  next
    case False
    with n(2) have "count guards h > 1" by linarith
    with n assms False show ?thesis
      by (auto simp: drop_push_def staging_ok_def table_simps in_diff_count intro: wf_table_intros)
  qed
qed

lemma pending_iff: "staging_ok guards st \<Longrightarrow> is_pending h st \<longleftrightarrow> h \<in># guards"
  by (simp add: staging_ok_def is_pending_def tcontains_def)

lemma pending_hashes_guards: "staging_ok guards st \<Longrightarrow> set (pending_hashes st) = set_mset guards"
  using pending_iff[of guards st] by (auto simp: pending_hashes_def in_tkeys is_pending_def)

lemma staging_ok_empty: "staging_ok {#} st \<Longrightarrow> sg_pending st = []"
  by (cases "sg_pending st") (auto simp: staging_ok_def split: if_splits)


section \<open>Pushes and the collector, interleaved\<close>

text \<open>A collector run: it calls the callback (the first read), the store is listed, the second read decides
  what is kept, the collector starts with that and deletes what is neither kept nor written since.\<close>

datatype gc_phase =
    Waiting
  | Reading "string list"
  | Listed "string list" "string list"
  | Protected "string list"
  | Collecting "string list"

record gc_state =
  gs_staging :: Staging
  gs_guards :: "string multiset"
  gs_blobs :: "string set"
  gs_fresh :: "string set"
  gs_phase :: gc_phase

datatype staging_act =
    Track string
  | DropPush string
  | Write string
  | RunStart nat
  | ListBlobs
  | Decide
  | Start
  | Sweep string
  | RunEnd

inductive staging_step :: "gc_state \<Rightarrow> staging_act \<Rightarrow> gc_state \<Rightarrow> bool" where
  track: "staging_step s (Track h) (s\<lparr>gs_staging := track h (gs_staging s), gs_guards := add_mset h (gs_guards s)\<rparr>)"
| drop: "h \<in># gs_guards s \<Longrightarrow> drop_push h (gs_staging s) = Ok st \<Longrightarrow>
    staging_step s (DropPush h) (s\<lparr>gs_staging := st, gs_guards := gs_guards s - {#h#}\<rparr>)"
| writes: "h \<in># gs_guards s \<Longrightarrow>
    staging_step s (Write h) (s\<lparr>gs_blobs := insert h (gs_blobs s), gs_fresh := insert h (gs_fresh s)\<rparr>)"
| run_start: "gs_phase s = Waiting \<Longrightarrow> sg_store (gs_staging s) \<Longrightarrow>
    staging_step s (RunStart now) (s\<lparr>gs_staging := (gs_staging s)\<lparr>sg_last_run := now\<rparr>,
      gs_phase := Reading (pending_hashes (gs_staging s))\<rparr>)"
| list_blobs: "gs_phase s = Reading keep \<Longrightarrow> set stored = gs_blobs s \<Longrightarrow>
    staging_step s ListBlobs (s\<lparr>gs_phase := Listed keep stored\<rparr>)"
| list_failed: "gs_phase s = Reading keep \<Longrightarrow> staging_step s ListBlobs (s\<lparr>gs_phase := Waiting\<rparr>)"
| decide: "gs_phase s = Listed keep stored \<Longrightarrow>
    staging_step s Decide (s\<lparr>gs_phase := (case keep_result keep stored (pending_hashes (gs_staging s)) of
      None \<Rightarrow> Waiting | Some k \<Rightarrow> Protected k)\<rparr>)"
| start: "gs_phase s = Protected k \<Longrightarrow> staging_step s Start (s\<lparr>gs_phase := Collecting k, gs_fresh := {}\<rparr>)"
| sweep: "gs_phase s = Collecting k \<Longrightarrow> h \<in> gs_blobs s \<Longrightarrow> h \<notin> set k \<Longrightarrow> h \<notin> gs_fresh s \<Longrightarrow>
    staging_step s (Sweep h) (s\<lparr>gs_blobs := gs_blobs s - {h}\<rparr>)"
| run_end: "gs_phase s = Collecting k \<Longrightarrow> staging_step s RunEnd (s\<lparr>gs_phase := Waiting\<rparr>)"

inductive_cases sweepE: "staging_step s (Sweep h) t"
inductive_cases run_startE: "staging_step s (RunStart now) t"
inductive_cases decideE: "staging_step s Decide t"

inductive staging_run :: "gc_state \<Rightarrow> staging_act list \<Rightarrow> gc_state \<Rightarrow> bool" where
  nil: "staging_run s [] s"
| step: "staging_step s a t \<Longrightarrow> staging_run t as u \<Longrightarrow> staging_run s (a # as) u"

definition gc_initial :: "nat \<Rightarrow> string set \<Rightarrow> gc_state" where
  "gc_initial now blobs = \<lparr>gs_staging = attach now (staging_new now), gs_guards = {#}, gs_blobs = blobs, gs_fresh = {},
     gs_phase = Waiting\<rparr>"

lemma staging_step_ok:
  assumes "staging_step s a t" "staging_ok (gs_guards s) (gs_staging s)"
  shows "staging_ok (gs_guards t) (gs_staging t)"
  using assms(1)
proof cases
  case (track h)
  with staging_ok_track[OF assms(2)] show ?thesis by simp
next
  case (drop h st)
  with staging_ok_drop[OF assms(2), of h] show ?thesis by auto
qed (use assms(2) in \<open>simp_all add: staging_ok_def\<close>)

lemma staging_run_ok:
  "staging_run s as t \<Longrightarrow> staging_ok (gs_guards s) (gs_staging s) \<Longrightarrow> staging_ok (gs_guards t) (gs_staging t)"
  by (induction rule: staging_run.induct) (auto intro: staging_step_ok)

lemma staging_initial_ok: "staging_ok (gs_guards (gc_initial now blobs)) (gs_staging (gc_initial now blobs))"
  by (simp add: gc_initial_def staging_ok_def attach_def staging_new_def)

text \<open>C25: Whatever the order in which pushes begin and end and the collector runs, the count of every hash
  is the number of its pushes in flight and a hash without one has no count; so dropping a push never
  subtracts from zero, and a hash is pending exactly while a push of it is in flight.\<close>

theorem pending_counts_exact:
  assumes "staging_run (gc_initial now blobs) as s"
  shows "tget (sg_pending (gs_staging s)) h = (if h \<in># gs_guards s then Some (count (gs_guards s) h) else None) \<and>
    is_pending h (gs_staging s) = (h \<in># gs_guards s) \<and>
    (h \<in># gs_guards s \<longrightarrow> (\<exists>st. drop_push h (gs_staging s) = Ok st)) \<and>
    (gs_guards s = {#} \<longrightarrow> sg_pending (gs_staging s) = [])"
proof -
  have "staging_ok (gs_guards s) (gs_staging s)" using staging_run_ok[OF assms staging_initial_ok] .
  from this pending_iff[OF this, of h] staging_ok_drop[OF this, of h] staging_ok_empty[of "gs_staging s"] show ?thesis
    unfolding staging_ok_def by metis
qed

text \<open>The hashes a run is bound to keep, from its first read on.\<close>

fun keeping :: "string \<Rightarrow> gc_phase \<Rightarrow> bool" where
  "keeping h (Reading keep) \<longleftrightarrow> h \<in> set keep"
| "keeping h (Listed keep stored) \<longleftrightarrow> h \<in> set keep"
| "keeping h (Protected k) \<longleftrightarrow> h \<in> set k"
| "keeping h (Collecting k) \<longleftrightarrow> h \<in> set k"
| "keeping h Waiting \<longleftrightarrow> True"

lemma keep_result_keeps:
  "keep_result keep stored second = Some k \<Longrightarrow> set k = set keep \<union> set second"
  by (auto simp: keep_result_def Let_def split: if_splits)

text \<open>The callback as it runs: it notes the run, and when it lets the run go on, the run protects what it
  protected before and every push pending at either read, and some stored blob is not protected.\<close>

lemma add_protected_Continue:
  assumes "add_protected bs during joined now live (st, b) = ((ContinueRun, live'), (st', b'))"
  shows "sg_store st \<and> joined \<and>
    set live' = set live \<union> set (pending_hashes st) \<union> set (pending_hashes (during (st\<lparr>sg_last_run := now\<rparr>))) \<and>
    st' = during (st\<lparr>sg_last_run := now\<rparr>) \<and>
    (\<exists>stored b1. bs_sync_db bs b = (Ok (), b1) \<and> bs_list_hashes bs b1 = (Ok stored, b') \<and>
       (\<exists>h\<in>set stored. h \<notin> set (pending_hashes st) \<union> set (pending_hashes st')))"
proof -
  let ?st = "st\<lparr>sg_last_run := now\<rparr>"
  from assms obtain keep where k: "keep_set bs during (?st, b) = (Some keep, (st', b'))" and "joined" "live' = live @ keep"
    by (auto simp: add_protected_def split: prod.splits if_splits option.splits)
  moreover have p: "pending_hashes ?st = pending_hashes st" by (simp add: pending_hashes_def)
  moreover obtain stored b1 where "sg_store st" "bs_sync_db bs b = (Ok (), b1)" "bs_list_hashes bs b1 = (Ok stored, b')"
    "st' = during ?st" "keep_result (pending_hashes st) stored (pending_hashes st') = Some keep"
    using k p by (auto simp: keep_set_def Let_def split: if_splits prod.splits result.splits)
  moreover from this(5) have "\<exists>h\<in>set stored. h \<notin> set (pending_hashes st) \<union> set (pending_hashes st')"
    by (auto simp: keep_result_def Let_def filter_empty_conv split: if_splits)
  ultimately show ?thesis using keep_result_keeps by fastforce
qed

lemma keeping_step:
  assumes "staging_step s a t" "keeping h (gs_phase s)" "\<not> (\<exists>now. a = RunStart now)"
  shows "a \<noteq> Sweep h \<and> keeping h (gs_phase t)"
  using assms by cases (auto dest: keep_result_keeps split: option.splits)

lemma keeping_run:
  "staging_run s as t \<Longrightarrow> keeping h (gs_phase s) \<Longrightarrow> \<forall>now. RunStart now \<notin> set as \<Longrightarrow> Sweep h \<notin> set as"
proof (induction rule: staging_run.induct)
  case (step s a t as u)
  with keeping_step[OF step.hyps(1) step.prems(1)] show ?case by auto
qed simp

text \<open>C20: A push that is pending when a collector run first reads the pending pushes, or when it reads them
  again after listing the store, keeps its staged blob for the rest of that run, however many pushes
  begin and end meanwhile.\<close>

theorem pending_not_collected:
  assumes "staging_run (gc_initial now blobs) before s" and "is_pending h (gs_staging s)"
    and "staging_step s a t" and "a = RunStart now' \<or> a = Decide"
    and "staging_run t as u" and "\<forall>now. RunStart now \<notin> set as"
  shows "Sweep h \<notin> set as"
proof -
  have ok: "staging_ok (gs_guards s) (gs_staging s)" using staging_run_ok[OF assms(1) staging_initial_ok] .
  have h: "h \<in> set (pending_hashes (gs_staging s))"
    using assms(2) pending_hashes_guards[OF ok] pending_iff[OF ok] by simp
  have "keeping h (gs_phase t)"
    using assms(4,3) h keep_result_keeps
    by (auto elim!: run_startE decideE split: option.splits)
  with keeping_run[OF assms(5)] assms(6) show ?thesis by blast
qed


section \<open>Noticing a collector that stopped\<close>

lemma poll_until_sound:
  assumes "poll_until stop wake t = Some y"
  shows "stop y"
  by (rule poll_until.raw_induct[of "\<lambda>stop wake t y. stop y", OF _ assms]) (simp split: if_splits)

lemma poll_until_later:
  assumes "poll_until stop wake t = Some y"
  shows "(\<forall>t. t < wake t) \<longrightarrow> t \<le> y"
proof (rule poll_until.raw_induct[of "\<lambda>stop wake t y. (\<forall>t. t < wake t) \<longrightarrow> t \<le> y", OF _ assms], rule impI)
  fix f :: "(nat \<Rightarrow> bool) \<Rightarrow> (nat \<Rightarrow> nat) \<Rightarrow> nat \<Rightarrow> nat option" and stop wake t y
  assume IH: "\<And>stop wake t y. f stop wake t = Some y \<Longrightarrow> (\<forall>t. t < wake t) \<longrightarrow> t \<le> y"
    and run: "(if stop t then Some t else f stop wake (wake t)) = Some y" and wake: "\<forall>t. t < wake t"
  show "t \<le> y"
  proof (cases "stop t")
    case False
    with run have "f stop wake (wake t) = Some y" by simp
    with IH wake have "wake t \<le> y" by blast
    moreover have "t < wake t" using wake by blast
    ultimately show ?thesis by linarith
  qed (use run in simp)
qed

lemma poll_until_ends:
  assumes "\<And>t. limit \<le> t \<Longrightarrow> stop t" "\<And>t. t < wake t" "\<And>t. wake t \<le> t + p"
  shows "\<exists>y. poll_until stop wake t = Some y \<and> y \<le> max t (limit + p)"
proof (induction "limit - t" arbitrary: t rule: less_induct)
  case less
  show ?case
  proof (cases "stop t")
    case True
    then show ?thesis by (simp add: poll_until.simps[of stop wake t])
  next
    case False
    then have "t < limit" using assms(1) not_le by blast
    then have "limit - wake t < limit - t" using assms(2)[of t] by simp
    from less(1)[OF this] obtain y where "poll_until stop wake (wake t) = Some y" "y \<le> max (wake t) (limit + p)" by blast
    moreover have "wake t \<le> limit + p" using assms(3)[of t] \<open>t < limit\<close> by linarith
    ultimately show ?thesis using False by (auto simp: poll_until.simps[of stop wake t])
  qed
qed

text \<open>C24: A collector that stopped is noticed: when no run starts after a time, the wait ends, at the latest a
  drain limit and two sleeps after the silence has lasted \<open>dead_after\<close>. Whenever it ends, the collector
  had been silent for that long, and no push is pending or the drain limit has passed since; while
  runs keep starting in time it does not end.\<close>

theorem collector_stop_noticed:
  assumes "\<And>t. t < wake t" and "\<And>t. wake t \<le> t + p"
  shows "((\<forall>t. sg_last_run (st t) \<le> stopped) \<longrightarrow>
      (\<exists>y. collector_stopped st wake dead_after now = Some y \<and> y \<le> max now (stopped + dead_after + p) + DRAIN_LIMIT + p)) \<and>
    (\<forall>y. collector_stopped st wake dead_after now = Some y \<longrightarrow>
      (\<exists>t. now \<le> t \<and> t \<le> y \<and> dead_after \<le> t - sg_last_run (st t) \<and> (sg_pending (st y) = [] \<or> t + DRAIN_LIMIT \<le> y))) \<and>
    ((\<forall>t. t - sg_last_run (st t) < dead_after) \<longrightarrow> collector_stopped st wake dead_after now = None)"
proof (intro conjI impI allI)
  let ?silent = "\<lambda>t. \<not> t - sg_last_run (st t) < dead_after"
  let ?drained = "\<lambda>d t. \<not> (sg_pending (st t) \<noteq> [] \<and> t < d)"
  assume last: "\<forall>t. sg_last_run (st t) \<le> stopped"
  have "?silent t" if "stopped + dead_after \<le> t" for t using last[rule_format, of t] that by linarith
  from poll_until_ends[of "stopped + dead_after" ?silent wake p now, OF this assms] obtain t where
    t: "poll_until ?silent wake now = Some t" "t \<le> max now (stopped + dead_after + p)" by blast
  have "?drained (t + DRAIN_LIMIT) u" if "t + DRAIN_LIMIT \<le> u" for u using that by simp
  from poll_until_ends[of "t + DRAIN_LIMIT" "?drained (t + DRAIN_LIMIT)" wake p t, OF this assms] obtain y where
    y: "poll_until (?drained (t + DRAIN_LIMIT)) wake t = Some y" "y \<le> max t (t + DRAIN_LIMIT + p)" by blast
  from t y show "\<exists>y. collector_stopped st wake dead_after now = Some y \<and> y \<le> max now (stopped + dead_after + p) + DRAIN_LIMIT + p"
    by (auto simp: collector_stopped_def Let_def)
next
  fix y
  assume "collector_stopped st wake dead_after now = Some y"
  then obtain t where t: "poll_until (\<lambda>t. \<not> t - sg_last_run (st t) < dead_after) wake now = Some t"
    and y: "poll_until (\<lambda>u. \<not> (sg_pending (st u) \<noteq> [] \<and> u < t + DRAIN_LIMIT)) wake t = Some y"
    by (auto simp: collector_stopped_def Let_def split: bind_splits)
  have "now \<le> t" "t \<le> y" using poll_until_later[OF t] poll_until_later[OF y] assms(1) by simp_all
  with poll_until_sound[OF t] poll_until_sound[OF y]
  show "\<exists>t. now \<le> t \<and> t \<le> y \<and> dead_after \<le> t - sg_last_run (st t) \<and> (sg_pending (st y) = [] \<or> t + DRAIN_LIMIT \<le> y)"
    by (intro exI[of _ t]) auto
next
  assume "\<forall>t. t - sg_last_run (st t) < dead_after"
  then show "collector_stopped st wake dead_after now = None"
    using poll_until_sound[of "\<lambda>t. \<not> t - sg_last_run (st t) < dead_after" wake now]
    by (cases "poll_until (\<lambda>t. \<not> t - sg_last_run (st t) < dead_after) wake now") (auto simp: collector_stopped_def)
qed


section \<open>A concrete run\<close>

definition sample_staged :: gc_state where
  "sample_staged = (gc_initial 0 {''old''})\<lparr>gs_staging := track ''a'' (attach 0 (staging_new 0)), gs_guards := {#''a''#}\<rparr>"

lemma sample_track: "staging_run (gc_initial 0 {''old''}) [Track ''a''] sample_staged"
  using staging_run.step[OF staging_step.track[of "gc_initial 0 {''old''}" "''a''"] staging_run.nil]
  by (simp add: sample_staged_def gc_initial_def)

theorem pending_counts_exact_witness:
  "tget (sg_pending (gs_staging sample_staged)) ''a'' = Some 1 \<and> is_pending ''a'' (gs_staging sample_staged)"
  using pending_counts_exact[OF sample_track, of "''a''"] by (simp add: sample_staged_def)

theorem pending_not_collected_witness: "Sweep ''a'' \<notin> set [Write ''a'', Track ''b'']"
proof -
  have p: "is_pending ''a'' (gs_staging sample_staged)"
    by (simp add: sample_staged_def is_pending_def track_def tcontains_def table_simps)
  let ?t = "sample_staged\<lparr>gs_staging := (gs_staging sample_staged)\<lparr>sg_last_run := 5\<rparr>,
      gs_phase := Reading (pending_hashes (gs_staging sample_staged))\<rparr>"
  have a: "staging_step sample_staged (RunStart 5) ?t"
    by (rule staging_step.run_start) (simp_all add: sample_staged_def gc_initial_def track_def attach_def)
  have r: "\<exists>u. staging_run ?t [Write ''a'', Track ''b''] u"
    by (intro exI, rule staging_run.step[OF staging_step.writes], simp add: sample_staged_def,
        rule staging_run.step[OF staging_step.track staging_run.nil])
  then obtain u where "staging_run ?t [Write ''a'', Track ''b''] u" ..
  from pending_not_collected[OF sample_track p a _ this, of 5] show ?thesis by simp
qed

theorem collector_stop_noticed_witness:
  "\<exists>y. collector_stopped (\<lambda>_. staging_new 0) (\<lambda>t. t + 10) 100 0 = Some y \<and> y \<le> 900120"
  using collector_stop_noticed[of "\<lambda>t. t + 10" 10 "\<lambda>_. staging_new 0" 0 100 0] by (simp add: staging_new_def DRAIN_LIMIT_def)

end
