(* ===== verification/S3_Serve.thy ===== *)
theory S3_Serve
  imports S3_Store "HOL-Library.Sublist"
begin

text \<open>
  \<open>src/s3_serve.rs\<close>: fetches served from S3. What is known of each hash, the outboards computed in the
  background for objects that lack one, and the reader that answers reads at offsets through one open
  GET. Parameters are the body of a GET as a stream, bao-tree (the outboard's size, its construction
  and the encoder, which call back the readers) and the fetcher's QUIC stream. A request that outlives
  its time limit is \<open>se_late\<close>, a write to a fetcher that stops reading \<open>se_peer_late\<close>; a body that stalls fails its read. Time is in milliseconds.
\<close>

section \<open>Constants, parameters and state\<close>

definition BACKFILL_COOLDOWN :: nat where "BACKFILL_COOLDOWN = 600 * 1000"
definition BAD_CAPACITY :: nat where "BAD_CAPACITY = 10000"
definition SKIP_LIMIT :: nat where "SKIP_LIMIT = 256 * 1024"
definition BACKFILLS :: nat where "BACKFILLS = 2"
definition SIZES_CAPACITY :: nat where "SIZES_CAPACITY = 100000"

datatype Refusal = Gone | Busy

datatype Object = ObjBlob | ObjCatalogDocument "string option"

definition data_key :: "S3Client \<Rightarrow> Object \<Rightarrow> string \<Rightarrow> string" where
  "data_key c object hex = (case object of ObjBlob \<Rightarrow> blob_key c hex | ObjCatalogDocument _ \<Rightarrow> catalog_document_key c hex)"

definition tree_key :: "S3Client \<Rightarrow> Object \<Rightarrow> string \<Rightarrow> string" where
  "tree_key c object hex = (case object of ObjBlob \<Rightarrow> outboard_key c hex | ObjCatalogDocument _ \<Rightarrow> catalog_outboard_key c hex)"

record Servable =
  sb_size :: nat
  sb_object :: Object

record S3Server =
  ss_servable :: "(string, Servable) table"
  ss_backfilling :: "string list"
  ss_backfills :: nat
  ss_corrupt :: "string list"
  ss_backfill_failed :: "(string, nat) table"

definition s3_server_new :: S3Server where
  "s3_server_new = \<lparr>ss_servable = [], ss_backfilling = [], ss_backfills = BACKFILLS, ss_corrupt = [], ss_backfill_failed = []\<rparr>"

record 'b OpenGet =
  og_pos :: nat
  og_body :: 'b

record 'b S3Reader =
  rd_key :: string
  rd_size :: nat
  rd_open :: "'b OpenGet option"

datatype EncodeError = LeafHashMismatch | ParentHashMismatch | EncodeIo string

record 'b body_ext =
  bx_open :: "(bytes, string) result \<Rightarrow> 'b"
  bx_read :: "nat \<Rightarrow> 'b \<Rightarrow> (bytes, string) result \<times> 'b"

type_synonym 'w slice_reader = "nat \<Rightarrow> nat \<Rightarrow> ('w, bytes, string) io"

type_synonym ('s, 'b, 'p) sending = "'b S3Reader \<times> 'b S3Reader \<times> 's \<times> 'p"

record ('s, 'b, 'p, 'r) serve_ext =
  se_sdk :: "'s s3_sdk"
  se_late :: "'s \<Rightarrow> bool"
  se_body :: "'b body_ext"
  se_outboard_size :: "nat \<Rightarrow> nat"
  se_create :: "('b S3Reader \<times> 's) slice_reader \<Rightarrow> nat \<Rightarrow> ('b S3Reader \<times> 's, string \<times> bytes, string) io"
  se_encode :: "('s, 'b, 'p) sending slice_reader \<Rightarrow> ('s, 'b, 'p) sending slice_reader \<Rightarrow>
    (bytes \<Rightarrow> (('s, 'b, 'p) sending, unit, string) io) \<Rightarrow> string \<Rightarrow> nat \<Rightarrow> 'r \<Rightarrow> (('s, 'b, 'p) sending, unit, EncodeError) io"
  se_write :: "bytes \<Rightarrow> ('p, unit, string) io"
  se_peer_late :: "'p \<Rightarrow> bool"

text \<open>\<open>tokio::time::timeout\<close> around a request.\<close>

definition within :: "('s \<Rightarrow> bool) \<Rightarrow> string \<Rightarrow> ('s, 'a, string) io \<Rightarrow> ('s, 'a, string) io" where
  "within late what m s = (case m s of (r, t) \<Rightarrow> if late s then (Err what, t) else (r, t))"

definition s3_head :: "('s, 'b, 'p, 'r) serve_ext \<Rightarrow> ('s, 'a option, string) io \<Rightarrow> ('s, 'a option, string) io" where
  "s3_head x request = within (se_late x) ''S3 HEAD timed out'' request"


section \<open>The reader\<close>

definition reader_new :: "string \<Rightarrow> nat \<Rightarrow> 'b S3Reader" where
  "reader_new key n = \<lparr>rd_key = key, rd_size = n, rd_open = None\<rparr>"

text \<open>\<open>read_exact\<close> fills a buffer of \<open>n\<close> bytes.\<close>

function read_exact :: "'b body_ext \<Rightarrow> nat \<Rightarrow> 'b \<Rightarrow> (bytes, string) result \<times> 'b" where
  "read_exact bx n b =
     (if n = 0 then (Ok [], b)
      else (case bx_read bx n b of
          (Err e, b') \<Rightarrow> (Err e, b')
        | (Ok d, b') \<Rightarrow>
            if d = [] then (Err ''unexpected end of file'', b')
            else (case read_exact bx (n - length d) b' of
                (Err e, b'') \<Rightarrow> (Err e, b'')
              | (Ok others, b'') \<Rightarrow> (Ok (d @ others), b''))))"
  by pat_completeness auto

termination
  by (relation "measure (\<lambda>(bx, n, b). n)") auto

declare read_exact.simps [simp del]

text \<open>The loop of \<open>open_at\<close> that reads through a short jump, 64 KiB at a time.\<close>

function skip_to :: "'b body_ext \<Rightarrow> nat \<Rightarrow> 'b OpenGet \<Rightarrow> (unit, string) result \<times> 'b OpenGet" where
  "skip_to bx offset opened =
     (if og_pos opened < offset then
        let skip = min (offset - og_pos opened) (64 * 1024) in
        (case read_exact bx skip (og_body opened) of
           (Err e, b) \<Rightarrow> (Err e, opened\<lparr>og_body := b\<rparr>)
         | (Ok _, b) \<Rightarrow> skip_to bx offset (opened\<lparr>og_pos := og_pos opened + skip, og_body := b\<rparr>))
      else (Ok (), opened))"
  by pat_completeness auto

termination
  by (relation "measure (\<lambda>(bx, offset, opened). offset - og_pos opened)") auto

declare skip_to.simps [simp del]

definition reusable :: "nat \<Rightarrow> 'b OpenGet option \<Rightarrow> bool" where
  "reusable offset opened = (case opened of Some g \<Rightarrow> og_pos g \<le> offset \<and> offset - og_pos g \<le> SKIP_LIMIT | None \<Rightarrow> False)"

definition open_at ::
  "('s, 'b, 'p, 'r) serve_ext \<Rightarrow> S3Client \<Rightarrow> nat \<Rightarrow> ('b S3Reader \<times> 's, 'b OpenGet, string) io" where
  "open_at x c offset rs = (case rs of (r, s) \<Rightarrow>
     let skip = (\<lambda>opened s. case skip_to (se_body x) offset opened of
         (Err e, opened) \<Rightarrow> (Err e, (r\<lparr>rd_open := Some opened\<rparr>, s))
       | (Ok _, opened) \<Rightarrow> (Ok opened, (r\<lparr>rd_open := Some opened\<rparr>, s))) in
     (case (if reusable offset (rd_open r) then rd_open r else None) of
        Some opened \<Rightarrow> skip opened s
      | None \<Rightarrow>
          (case within (se_late x) ''S3 GET got no response'' (get_object_from (se_sdk x) c (rd_key r) offset) s of
             (Err e, s) \<Rightarrow> (Err e, (r\<lparr>rd_open := None\<rparr>, s))
           | (Ok None, s) \<Rightarrow> (Err (rd_key r @ '' is not in S3''), (r\<lparr>rd_open := None\<rparr>, s))
           | (Ok (Some body), s) \<Rightarrow> skip \<lparr>og_pos = offset, og_body = bx_open (se_body x) body\<rparr> s)))"

definition slice_read_at ::
  "('s, 'b, 'p, 'r) serve_ext \<Rightarrow> S3Client \<Rightarrow> ('b S3Reader \<times> 's) slice_reader" where
  "slice_read_at x c offset len rs = (case rs of (r, s) \<Rightarrow>
     if offset \<ge> rd_size r \<or> len = 0 then (Ok [], (r, s))
     else let len = min len (rd_size r - offset) in
       (case open_at x c offset (r, s) of
          (Err e, (r, s)) \<Rightarrow> (Err e, (r\<lparr>rd_open := None\<rparr>, s))
        | (Ok opened, (r, s)) \<Rightarrow>
            (case read_exact (se_body x) len (og_body opened) of
               (Err e, _) \<Rightarrow> (Err e, (r\<lparr>rd_open := None\<rparr>, s))
             | (Ok buf, b) \<Rightarrow> (Ok buf, (r\<lparr>rd_open := Some \<lparr>og_pos = og_pos opened + len, og_body = b\<rparr>\<rparr>, s)))))"


section \<open>The server\<close>

record backfill_job =
  bj_hash :: string
  bj_size :: nat
  bj_object :: Object

text \<open>The server with the tasks it spawned and the bucket.\<close>

record 's serving =
  sn_server :: S3Server
  sn_jobs :: "backfill_job list"
  sn_store :: 's

definition mark_corrupt :: "string \<Rightarrow> S3Server \<Rightarrow> S3Server" where
  "mark_corrupt h srv =
     (let corrupt = (if length (ss_corrupt srv) \<ge> BAD_CAPACITY then [] else ss_corrupt srv) in
      srv\<lparr>ss_corrupt := List.insert h corrupt, ss_servable := tremove h (ss_servable srv)\<rparr>)"

definition forget :: "string \<Rightarrow> S3Server \<Rightarrow> S3Server" where
  "forget h srv = srv\<lparr>ss_servable := tremove h (ss_servable srv)\<rparr>"

text \<open>\<open>backfill\<close> up to the task it spawns. A permit that was taken is given back when the hash is being
  computed already.\<close>

definition backfill :: "nat \<Rightarrow> string \<Rightarrow> nat \<Rightarrow> Object \<Rightarrow> 's serving \<Rightarrow> 's serving" where
  "backfill now h n object sn =
     (let srv = sn_server sn;
          cooling = (case tget (ss_backfill_failed srv) h of Some t \<Rightarrow> now - t < BACKFILL_COOLDOWN | None \<Rightarrow> False) in
      if cooling then sn
      else if ss_backfills srv = 0 then sn
      else if h \<in> set (ss_backfilling srv) then sn
      else sn\<lparr>sn_server := srv\<lparr>ss_backfills := ss_backfills srv - 1, ss_backfilling := List.insert h (ss_backfilling srv)\<rparr>,
              sn_jobs := \<lparr>bj_hash = h, bj_size = n, bj_object = object\<rparr> # sn_jobs sn\<rparr>)"

definition remember_servable :: "string \<Rightarrow> Servable \<Rightarrow> S3Server \<Rightarrow> S3Server" where
  "remember_servable h servable srv =
     (let known = (if length (ss_servable srv) \<ge> SIZES_CAPACITY then [] else ss_servable srv) in
      srv\<lparr>ss_servable := tinsert h servable known\<rparr>)"

text \<open>The first lookup of \<open>check\<close>: a blob, or else a catalog document.\<close>

definition find_object :: "('s, 'b, 'p, 'r) serve_ext \<Rightarrow> S3Client \<Rightarrow> string \<Rightarrow> ('s, nat \<times> Object, Refusal) io" where
  "find_object x c h s = (case s3_head x (blob_size (se_sdk x) c h) s of
       (Ok (Some n), s) \<Rightarrow> (Ok (n, ObjBlob), s)
     | (Ok None, s) \<Rightarrow>
         (case s3_head x (catalog_document_size (se_sdk x) c h) s of
            (Ok (Some (n, owner)), s) \<Rightarrow> (Ok (n, ObjCatalogDocument owner), s)
          | (Ok None, s) \<Rightarrow> (Err Gone, s)
          | (Err _, s) \<Rightarrow> (Err Busy, s))
     | (Err _, s) \<Rightarrow> (Err Busy, s))"

definition find_tree ::
  "('s, 'b, 'p, 'r) serve_ext \<Rightarrow> S3Client \<Rightarrow> Object \<Rightarrow> string \<Rightarrow> ('s, nat option, string) io" where
  "find_tree x c object h = s3_head x (case object of
       ObjBlob \<Rightarrow> outboard_size (se_sdk x) c h
     | ObjCatalogDocument _ \<Rightarrow> catalog_outboard_size (se_sdk x) c h)"

definition server_check ::
  "('s, 'b, 'p, 'r) serve_ext \<Rightarrow> S3Client \<Rightarrow> nat \<Rightarrow> string \<Rightarrow> ('s serving, Servable, Refusal) io" where
  "server_check x c now h sn =
     (if h \<in> set (ss_corrupt (sn_server sn)) then (Err Gone, sn)
      else (case tget (ss_servable (sn_server sn)) h of
          Some servable \<Rightarrow> (Ok servable, sn)
        | None \<Rightarrow>
            (case find_object x c h (sn_store sn) of
               (Err e, s) \<Rightarrow> (Err e, sn\<lparr>sn_store := s\<rparr>)
             | (Ok (n, object), s) \<Rightarrow>
                 let expected = se_outboard_size x n; servable = \<lparr>sb_size = n, sb_object = object\<rparr>;
                     remember = (\<lambda>sn. (Ok servable, sn\<lparr>sn_server := remember_servable h servable (sn_server sn)\<rparr>)) in
                 if expected > 0 then
                   (case find_tree x c object h s of
                      (Ok found, s) \<Rightarrow>
                        if found = Some expected then remember (sn\<lparr>sn_store := s\<rparr>)
                        else (Err Busy, backfill now h n object (sn\<lparr>sn_store := s\<rparr>))
                    | (Err _, s) \<Rightarrow> (Err Busy, sn\<lparr>sn_store := s\<rparr>))
                 else remember (sn\<lparr>sn_store := s\<rparr>))))"

text \<open>\<open>compute_outboard\<close>: the object's actual hash when it is not \<open>h\<close>, else the outboard is stored.\<close>

definition object_outboard ::
  "('s, 'b, 'p, 'r) serve_ext \<Rightarrow> S3Client \<Rightarrow> string \<Rightarrow> nat \<Rightarrow> Object \<Rightarrow> ('s, string option, string) io" where
  "object_outboard x c h n object s =
     (case se_create x (slice_read_at x c) n (reader_new (data_key c object h) n, s) of
        (Err e, (_, s)) \<Rightarrow> (Err e, s)
      | (Ok (actual, tree), (_, s)) \<Rightarrow>
          if actual \<noteq> h then (Ok (Some actual), s)
          else io_bind (case object of
              ObjBlob \<Rightarrow> put_outboard (se_sdk x) c h tree
            | ObjCatalogDocument _ \<Rightarrow> put_catalog_outboard (se_sdk x) c h tree) (\<lambda>_. io_return None) s)"

text \<open>The end of a backfill task.\<close>

definition backfill_done :: "nat \<Rightarrow> (string option, string) result \<Rightarrow> backfill_job \<Rightarrow> S3Server \<Rightarrow> S3Server" where
  "backfill_done now result job srv =
     (let h = bj_hash job;
          srv = (case result of
              Ok None \<Rightarrow> srv
            | Ok (Some _) \<Rightarrow> mark_corrupt h srv
            | Err _ \<Rightarrow>
                let failed = (if length (ss_backfill_failed srv) \<ge> BAD_CAPACITY
                              then tretain (\<lambda>_ t. now - t < BACKFILL_COOLDOWN) (ss_backfill_failed srv)
                              else ss_backfill_failed srv) in
                srv\<lparr>ss_backfill_failed := tinsert h now failed\<rparr>) in
      srv\<lparr>ss_backfilling := removeAll h (ss_backfilling srv), ss_backfills := ss_backfills srv + 1\<rparr>)"

definition run_backfill ::
  "('s, 'b, 'p, 'r) serve_ext \<Rightarrow> S3Client \<Rightarrow> nat \<Rightarrow> backfill_job \<Rightarrow> 's serving \<Rightarrow> 's serving" where
  "run_backfill x c now job sn = (case object_outboard x c (bj_hash job) (bj_size job) (bj_object job) (sn_store sn) of
     (result, s) \<Rightarrow> sn\<lparr>sn_server := backfill_done now result job (sn_server sn), sn_jobs := remove1 job (sn_jobs sn), sn_store := s\<rparr>)"

text \<open>\<open>send\<close>, over the bucket and the fetcher's stream: the size as eight little-endian bytes, then what
  the encoder writes. The two readers are the first two parts of the encoder's state.\<close>

definition le_bytes8 :: "nat \<Rightarrow> bytes" where
  "le_bytes8 n = map (\<lambda>i. char_of (n div 256 ^ i)) [0..<8]"

definition on_data :: "('b S3Reader \<times> 's) slice_reader \<Rightarrow> ('s, 'b, 'p) sending slice_reader" where
  "on_data m offset len w = (case w of (d, t, s, p) \<Rightarrow>
     (case m offset len (d, s) of (r, (d, s)) \<Rightarrow> (r, (d, t, s, p))))"

definition on_tree :: "('b S3Reader \<times> 's) slice_reader \<Rightarrow> ('s, 'b, 'p) sending slice_reader" where
  "on_tree m offset len w = (case w of (d, t, s, p) \<Rightarrow>
     (case m offset len (t, s) of (r, (t, s)) \<Rightarrow> (r, (d, t, s, p))))"

definition on_peer :: "('p, unit, string) io \<Rightarrow> (('s, 'b, 'p) sending, unit, string) io" where
  "on_peer m w = (case w of (d, t, s, p) \<Rightarrow> (case m p of (r, p) \<Rightarrow> (r, (d, t, s, p))))"

definition peer_write :: "('s, 'b, 'p, 'r) serve_ext \<Rightarrow> bytes \<Rightarrow> ('p, unit, string) io" where
  "peer_write x d = within (se_peer_late x) ''fetcher stopped reading'' (se_write x d)"

definition server_send ::
  "('s, 'b, 'p, 'r) serve_ext \<Rightarrow> S3Client \<Rightarrow> string \<Rightarrow> Servable \<Rightarrow> 'r \<Rightarrow> ('s serving \<times> 'p, unit, string) io" where
  "server_send x c h servable ranges w = (case w of (sn, p) \<Rightarrow>
     let n = sb_size servable; object = sb_object servable in
     (case peer_write x (le_bytes8 n) p of
        (Err e, p) \<Rightarrow> (Err e, (sn, p))
      | (Ok _, p) \<Rightarrow>
          (case se_encode x (on_data (slice_read_at x c)) (on_tree (slice_read_at x c)) (\<lambda>d. on_peer (peer_write x d)) h n ranges
                 (reader_new (data_key c object h) n, reader_new (tree_key c object h) (se_outboard_size x n), sn_store sn, p) of
             (Ok _, (_, _, s, p)) \<Rightarrow> (Ok (), (sn\<lparr>sn_store := s\<rparr>, p))
           | (Err e, (_, _, s, p)) \<Rightarrow>
               (Err ''encode'', ((sn\<lparr>sn_store := s\<rparr>)\<lparr>sn_server :=
                 (if e = LeafHashMismatch \<or> e = ParentHashMismatch then mark_corrupt h (sn_server sn) else sn_server sn)\<rparr>, p)))))"


section \<open>Reads are slices of the object\<close>

text \<open>An open GET stands at its position in the object; \<open>remaining\<close> tells what a body has left.\<close>

definition get_ok :: "('b \<Rightarrow> bytes) \<Rightarrow> bytes \<Rightarrow> 'b OpenGet \<Rightarrow> bool" where
  "get_ok remaining d g \<longleftrightarrow> prefix (remaining (og_body g)) (drop (og_pos g) d)"

definition reader_ok :: "('b \<Rightarrow> bytes) \<Rightarrow> bytes \<Rightarrow> 'b S3Reader \<Rightarrow> bool" where
  "reader_ok remaining d r \<longleftrightarrow> (\<forall>g. rd_open r = Some g \<longrightarrow> get_ok remaining d g)"

text \<open>A body as a stream: a read gives the next bytes, at most as many as asked for.\<close>

locale body_stream =
  fixes bx :: "'b body_ext" and remaining :: "'b \<Rightarrow> bytes"
  assumes read_takes: "bx_read bx n b = (Ok d, b') \<Longrightarrow> length d \<le> n \<and> remaining b = d @ remaining b'"
begin

lemma read_exact_takes: "read_exact bx n b = (Ok d, b') \<Longrightarrow> length d = n \<and> remaining b = d @ remaining b'"
proof (induction n arbitrary: b d rule: less_induct)
  case (less n)
  show ?case
  proof (cases "n = 0")
    case True
    with less.prems show ?thesis by (simp add: read_exact.simps)
  next
    case False
    with less.prems obtain d1 b1 d2 where r: "bx_read bx n b = (Ok d1, b1)" "d1 \<noteq> []"
      "read_exact bx (n - length d1) b1 = (Ok d2, b')" "d = d1 @ d2"
      by (auto simp: read_exact.simps[of bx n b] split: prod.splits result.splits if_splits)
    have "n - length d1 < n" using False r(2) by simp
    from less.IH[OF this r(3)] read_takes[OF r(1)] r(4) show ?thesis by auto
  qed
qed

lemma skip_to_takes:
  "skip_to bx offset g = (Ok u, g') \<Longrightarrow> og_pos g \<le> offset \<Longrightarrow>
   og_pos g' = offset \<and> (\<exists>d. length d = offset - og_pos g \<and> remaining (og_body g) = d @ remaining (og_body g'))"
proof (induction "offset - og_pos g" arbitrary: g rule: less_induct)
  case less
  show ?case
  proof (cases "og_pos g < offset")
    case False
    with less.prems show ?thesis by (auto simp: skip_to.simps[of bx offset g])
  next
    case True
    define n where "n = min (offset - og_pos g) (64 * 1024)"
    with True less.prems(1) obtain d1 b1 where d1: "read_exact bx n (og_body g) = (Ok d1, b1)"
      and g': "skip_to bx offset (g\<lparr>og_pos := og_pos g + n, og_body := b1\<rparr>) = (Ok u, g')"
      by (auto simp: skip_to.simps[of bx offset g] Let_def split: prod.splits result.splits)
    have "0 < n" "n \<le> offset - og_pos g" using True by (simp_all add: n_def)
    then have "offset - og_pos (g\<lparr>og_pos := og_pos g + n, og_body := b1\<rparr>) < offset - og_pos g" "og_pos g + n \<le> offset"
      using True by simp_all
    with less.hyps[OF _ g'] obtain d2 where "og_pos g' = offset" "length d2 = offset - (og_pos g + n)"
      "remaining b1 = d2 @ remaining (og_body g')" by auto
    with read_exact_takes[OF d1] \<open>n \<le> offset - og_pos g\<close> True show ?thesis
      by (intro conjI exI[of _ "d1 @ d2"]) auto
  qed
qed

end

text \<open>A bucket whose GETs from an offset deliver the object from there, perhaps not to its end.\<close>

locale s3_streams = s3_bucket sdk c objects ok evolves + body_stream bx remaining
  for sdk :: "'s s3_sdk" and c objects ok evolves and bx :: "'b body_ext" and remaining +
  assumes opened: "sdk_get sdk (sc_bucket c) key (if start > 0 then Some (''bytes='' @ show_nat start @ ''-'') else None) s = (Ok g, t) \<Longrightarrow>
      \<exists>ob. objects s key = Some ob \<and> prefix (remaining (bx_open bx (go_body g))) (drop start (ob_body ob))"
begin

lemma reader_ok_new: "reader_ok remaining d (reader_new key n)"
  by (simp add: reader_ok_def reader_new_def)

lemma prefix_drop_append: "prefix (a @ b) (drop p d) \<Longrightarrow> a = take (length a) (drop p d) \<and> prefix b (drop (p + length a) d)"
  by (auto simp: prefix_def) (metis add.commute append.assoc append_eq_conv_conj drop_drop)

lemma get_object_from_opens:
  assumes "get_object_from sdk c key start s = (Ok (Some body), t)" "objects s key = Some ob"
  shows "prefix (remaining (bx_open bx body)) (drop start (ob_body ob))"
proof -
  let ?rng = "if start > 0 then Some (''bytes='' @ show_nat start @ ''-'') else None"
  from assms(1) obtain g where "sdk_get sdk (sc_bucket c) key ?rng s = (Ok g, t)" "body = go_body g"
    by (auto simp: get_object_from_def unless_missing_def result_simps split: prod.splits result.splits if_splits)
  with opened[of key start s g t] assms(2) show ?thesis by auto
qed

lemma get_object_from_objects: "objects (snd (get_object_from sdk c key start s)) = objects s"
  by (simp add: get_object_from_def snd_unless_missing read_objects)

lemma open_at_ok:
  assumes "se_sdk x = sdk" "se_body x = bx" "reader_ok remaining (ob_body ob) r" "objects s (rd_key r) = Some ob"
    and "open_at x c offset (r, s) = (res, (r', s'))"
  shows "objects s' = objects s \<and> rd_key r' = rd_key r \<and> rd_size r' = rd_size r \<and>
    (\<forall>g. res = Ok g \<longrightarrow> og_pos g = offset \<and> get_ok remaining (ob_body ob) g)"
proof -
  have skipped: "og_pos g' = offset \<and> get_ok remaining (ob_body ob) g'"
    if "skip_to bx offset g = (Ok u, g')" "og_pos g \<le> offset" "get_ok remaining (ob_body ob) g" for g g' u
  proof -
    from skip_to_takes[OF that(1,2)] obtain d where d: "og_pos g' = offset" "length d = offset - og_pos g"
      "remaining (og_body g) = d @ remaining (og_body g')" by blast
    with that(2,3) prefix_drop_append[of d "remaining (og_body g')" "og_pos g" "ob_body ob"] show ?thesis by (simp add: get_ok_def)
  qed
  show ?thesis
  proof (cases "reusable offset (rd_open r)")
    case True
    then obtain g where g: "rd_open r = Some g" "og_pos g \<le> offset" by (auto simp: reusable_def split: option.splits)
    moreover have "get_ok remaining (ob_body ob) g" using assms(3) g(1) by (simp add: reader_ok_def)
    ultimately show ?thesis
      using assms(1,2,5) True skipped by (auto simp: open_at_def Let_def split: prod.splits result.splits)
  next
    case False
    obtain q t where q: "get_object_from sdk c (rd_key r) offset s = (q, t)" by fastforce
    then have t: "objects t = objects s" using get_object_from_objects[of "rd_key r" offset s] by simp
    have opens: "get_ok remaining (ob_body ob) \<lparr>og_pos = offset, og_body = bx_open bx body\<rparr>" if "q = Ok (Some body)" for body
      using get_object_from_opens[of "rd_key r" offset s body t ob] q that assms(4) by (simp add: get_ok_def)
    from False assms(1,2,5) q t opens skipped show ?thesis
      by (auto simp: open_at_def Let_def within_def split: prod.splits result.splits option.splits if_splits)
  qed
qed

lemma slice_read_at_ok:
  assumes "se_sdk x = sdk" "se_body x = bx" "reader_ok remaining (ob_body ob) r" "objects s (rd_key r) = Some ob"
    and "slice_read_at x c offset len (r, s) = (res, (r', s'))"
  shows "objects s' = objects s \<and> rd_key r' = rd_key r \<and> rd_size r' = rd_size r \<and> reader_ok remaining (ob_body ob) r' \<and>
    (\<forall>bs. res = Ok bs \<longrightarrow> bs = take len (drop offset (take (rd_size r) (ob_body ob))))"
proof (cases "offset \<ge> rd_size r \<or> len = 0")
  case True
  with assms(3,5) show ?thesis by (auto simp: slice_read_at_def)
next
  case False
  obtain q r1 s1 where q: "open_at x c offset (r, s) = (q, (r1, s1))" by (metis prod_cases3)
  note o = open_at_ok[OF assms(1-4) q]
  define n where "n = min len (rd_size r - offset)"
  have n: "take n (drop offset (ob_body ob)) = take len (drop offset (take (rd_size r) (ob_body ob)))"
    using False by (simp add: n_def drop_take min.commute)
  show ?thesis
  proof (cases q)
    case (Err e)
    with False q o assms(5) show ?thesis by (auto simp: slice_read_at_def Let_def reader_ok_def)
  next
    case (Ok g)
    obtain w b where w: "read_exact bx n (og_body g) = (w, b)" by fastforce
    show ?thesis
    proof (cases w)
      case (Err e)
      with False q o Ok w assms(2,5) show ?thesis by (auto simp: slice_read_at_def Let_def reader_ok_def n_def)
    next
      case (Ok bs)
      with w have t: "length bs = n" "remaining (og_body g) = bs @ remaining b" using read_exact_takes[of n "og_body g" bs b] by simp_all
      from o \<open>q = Ok g\<close> have "og_pos g = offset" "prefix (bs @ remaining b) (drop offset (ob_body ob))" by (auto simp: get_ok_def t)
      with prefix_drop_append[of bs "remaining b" offset "ob_body ob"] t have
        "bs = take n (drop offset (ob_body ob))" "get_ok remaining (ob_body ob) \<lparr>og_pos = offset + n, og_body = b\<rparr>" by (auto simp: get_ok_def)
      with False q o w Ok \<open>q = Ok g\<close> \<open>og_pos g = offset\<close> assms(2,5) n show ?thesis
        by (auto simp: slice_read_at_def Let_def reader_ok_def n_def)
    qed
  qed
qed

end

text \<open>Reads one after another through one reader, while others change the bucket in between.\<close>

fun read_seq ::
  "('s, 'b, 'p, 'r) serve_ext \<Rightarrow> S3Client \<Rightarrow> (('s \<Rightarrow> 's) \<times> nat \<times> nat) list \<Rightarrow> 'b S3Reader \<times> 's \<Rightarrow>
   (nat \<times> nat \<times> (bytes, string) result) list" where
  "read_seq x c [] rs = []"
| "read_seq x c ((others, offset, len) # reads) rs =
     (case slice_read_at x c offset len (fst rs, others (snd rs)) of
        (res, rs) \<Rightarrow> (offset, len, res) # read_seq x c reads rs)"

context s3_streams
begin

lemma read_seq_ok:
  assumes "se_sdk x = sdk" "se_body x = bx"
  shows "reader_ok remaining d r \<Longrightarrow> map_option ob_body (objects s (rd_key r)) = Some d \<Longrightarrow>
    (\<And>others offset len s. (others, offset, len) \<in> set reads \<Longrightarrow> map_option ob_body (objects s (rd_key r)) = Some d \<Longrightarrow>
       map_option ob_body (objects (others s) (rd_key r)) = Some d) \<Longrightarrow>
    (offset, len, Ok bs) \<in> set (read_seq x c reads (r, s)) \<Longrightarrow>
    bs = take len (drop offset (take (rd_size r) d))"
proof (induction reads arbitrary: r s)
  case (Cons rd reads)
  obtain others off n where rd: "rd = (others, off, n)" by (cases rd)
  obtain res r1 s1 where q: "slice_read_at x c off n (r, others s) = (res, (r1, s1))" by (metis prod_cases3)
  from Cons.prems(3)[of others off n s] Cons.prems(2) rd obtain ob where ob: "objects (others s) (rd_key r) = Some ob" "ob_body ob = d"
    by auto
  note k = slice_read_at_ok[OF assms _ ob(1) q, unfolded ob(2), OF Cons.prems(1)]
  have rest: "\<And>others offset len s. (others, offset, len) \<in> set reads \<Longrightarrow> map_option ob_body (objects s (rd_key r1)) = Some d \<Longrightarrow>
       map_option ob_body (objects (others s) (rd_key r1)) = Some d"
    using Cons.prems(3) k by (metis list.set_intros(2))
  have "map_option ob_body (objects s1 (rd_key r1)) = Some d" using k ob by simp
  have later: "bs = take len (drop offset (take (rd_size r1) d))" if "(offset, len, Ok bs) \<in> set (read_seq x c reads (r1, s1))"
    by (rule Cons.IH[of r1 s1]) (use k \<open>map_option ob_body (objects s1 (rd_key r1)) = Some d\<close> rest that in simp_all)
  have "(offset, len, Ok bs) = (off, n, res) \<or> (offset, len, Ok bs) \<in> set (read_seq x c reads (r1, s1))"
    using Cons.prems(4) q rd by auto
  then show ?case
  proof
    assume "(offset, len, Ok bs) \<in> set (read_seq x c reads (r1, s1))"
    with later k show ?thesis by auto
  qed (use k in auto)
qed simp

end

text \<open>C13: Every read through the one open GET is the slice of the object it names: whatever the offsets and
  lengths of the reads and of those before, however the body arrives, whichever requests fail or time
  out, a read that succeeds gives exactly the bytes at its offset, cut at the object's size; as long as
  the object stays what it is, whatever else changes in the bucket meanwhile.\<close>

theorem reads_are_slices:
  fixes remaining :: "'b \<Rightarrow> bytes"
  assumes "s3_streams (se_sdk x) c objects ok evolves (se_body x) remaining"
    and "map_option ob_body (objects s key) = Some d"
    and "\<And>others offset len s. (others, offset, len) \<in> set reads \<Longrightarrow> map_option ob_body (objects s key) = Some d \<Longrightarrow>
       map_option ob_body (objects (others s) key) = Some d"
    and "(offset, len, Ok bs) \<in> set (read_seq x c reads (reader_new key n, s))"
  shows "bs = take len (drop offset (take n d))"
proof -
  have "bs = take len (drop offset (take (rd_size (reader_new key n :: 'b S3Reader)) d))"
  proof (rule s3_streams.read_seq_ok[OF assms(1) refl refl _ _ _ assms(4)])
    show "reader_ok remaining d (reader_new key n :: 'b S3Reader)" by (rule s3_streams.reader_ok_new[OF assms(1)])
    show "map_option ob_body (objects s (rd_key (reader_new key n :: 'b S3Reader))) = Some d" using assms(2) by (simp add: reader_new_def)
    show "map_option ob_body (objects (others s) (rd_key (reader_new key n :: 'b S3Reader))) = Some d"
      if "(others, offset, len) \<in> set reads" "map_option ob_body (objects s (rd_key (reader_new key n :: 'b S3Reader))) = Some d" for others offset len s
      using assms(3)[of others offset len s] that by (simp add: reader_new_def)
  qed
  then show ?thesis by (simp add: reader_new_def)
qed

text \<open>A read that starts where the last one ended, or shortly after, makes no request: a whole object read
  in order costs one GET.\<close>

lemma skip_to_pos: "skip_to bx offset g = (Ok u, g') \<Longrightarrow> og_pos g \<le> offset \<Longrightarrow> og_pos g' = offset"
proof (induction bx offset g rule: skip_to.induct)
  case (1 bx offset g)
  show ?case
  proof (cases "og_pos g < offset")
    case True
    with 1(2) obtain d b where "read_exact bx (min (offset - og_pos g) (64 * 1024)) (og_body g) = (Ok d, b)"
      "skip_to bx offset (g\<lparr>og_pos := og_pos g + min (offset - og_pos g) (64 * 1024), og_body := b\<rparr>) = (Ok u, g')"
      by (auto simp: skip_to.simps[of bx offset g] Let_def split: prod.splits result.splits)
    with 1(1)[OF True refl _ refl] True show ?thesis by simp
  qed (use 1(2,3) in \<open>simp add: skip_to.simps[of bx offset g]\<close>)
qed

lemma open_at_pos: "open_at x c offset (r, s) = (Ok g, t) \<Longrightarrow> og_pos g = offset"
  using skip_to_pos
  by (fastforce simp: open_at_def Let_def reusable_def split: prod.splits result.splits option.splits if_splits)

lemma next_read_no_request:
  assumes "slice_read_at x c offset len (r, s) = (Ok bs, (r', s'))" "offset < rd_size r" "len \<noteq> 0"
    "offset + min len (rd_size r - offset) \<le> offset'" "offset' - (offset + min len (rd_size r - offset)) \<le> SKIP_LIMIT"
  shows "snd (snd (slice_read_at x c offset' len' (r', t))) = t"
proof -
  from assms(1-3) obtain g r1 s1 b where g: "open_at x c offset (r, s) = (Ok g, (r1, s1))"
    "rd_open r' = Some \<lparr>og_pos = og_pos g + min len (rd_size r - offset), og_body = b\<rparr>"
    by (auto simp: slice_read_at_def Let_def split: prod.splits result.splits)
  then have "reusable offset' (rd_open r')" using assms(4,5) open_at_pos[OF g(1)] by (simp add: reusable_def)
  then show ?thesis
    by (auto simp: slice_read_at_def open_at_def Let_def reusable_def split: prod.splits result.splits option.splits)
qed


section \<open>A computed outboard is the object's\<close>

text \<open>What bao-tree promises of \<open>create\<close>: over a reader of some bytes it answers the root and the outboard
  of those bytes.\<close>

definition creates_tree :: "(('w slice_reader) \<Rightarrow> nat \<Rightarrow> ('w, string \<times> bytes, string) io) \<Rightarrow> (bytes \<Rightarrow> string \<times> bytes) \<Rightarrow> bool" where
  "creates_tree create tree \<longleftrightarrow> (\<forall>rd d good w r w'.
     good w \<and> (\<forall>offset len w r w'. good w \<and> rd offset len w = (r, w') \<longrightarrow>
        good w' \<and> (\<forall>bs. r = Ok bs \<longrightarrow> bs = take len (drop offset d))) \<longrightarrow>
     create rd (length d) w = (r, w') \<longrightarrow> good w' \<and> (\<forall>a. r = Ok a \<longrightarrow> a = tree d))"

lemma creates_treeD:
  assumes "creates_tree create tree" "create rd (length d) w = (r, w')" "P w"
    "\<And>offset len w r w'. P w \<Longrightarrow> rd offset len w = (r, w') \<Longrightarrow> P w' \<and> (\<forall>bs. r = Ok bs \<longrightarrow> bs = take len (drop offset d))"
  shows "P w' \<and> (\<forall>a. r = Ok a \<longrightarrow> a = tree d)"
proof (rule assms(1)[unfolded creates_tree_def, rule_format, of P w rd d r w', OF _ assms(2)])
  show "P w \<and> (\<forall>offset len w r w'. P w \<and> rd offset len w = (r, w') \<longrightarrow> P w' \<and> (\<forall>bs. r = Ok bs \<longrightarrow> bs = take len (drop offset d)))"
    using assms(3,4) by blast
qed

context s3_streams
begin

lemma object_outboard_cases:
  assumes x: "se_sdk x = sdk" "se_body x = bx" and tree: "creates_tree (se_create x) tree"
    and ob: "objects s (data_key c object h) = Some ob"
    and run: "object_outboard x c h (length (ob_body ob)) object s = (r, s')"
  obtains e where "r = Err e" "objects s' = objects s"
    | "r = Ok (Some (fst (tree (ob_body ob))))" "fst (tree (ob_body ob)) \<noteq> h" "objects s' = objects s"
    | t where "fst (tree (ob_body ob)) = h" "objects s' = (objects s)(tree_key c object h \<mapsto> t)"
        "ob_body t = snd (tree (ob_body ob))" "\<And>a. r \<noteq> Ok (Some a)"
proof -
  let ?d = "ob_body ob" and ?key = "data_key c object h"
  let ?good = "\<lambda>(r, s1). objects s1 = objects s \<and> rd_key r = ?key \<and> rd_size r = length ?d \<and> reader_ok remaining ?d r"
  obtain q r1 s1 where q: "se_create x (slice_read_at x c) (length ?d) (reader_new ?key (length ?d), s) = (q, (r1, s1))"
    by (metis prod_cases3)
  have step: "?good w' \<and> (\<forall>bs. res = Ok bs \<longrightarrow> bs = take len (drop offset ?d))"
    if w: "?good w" and rd: "slice_read_at x c offset len w = (res, w')" for offset len w res w'
  proof -
    obtain r2 s2 r3 s3 where [simp]: "w = (r2, s2)" "w' = (r3, s3)" by fastforce
    from w have "reader_ok remaining ?d r2" "objects s2 (rd_key r2) = Some ob" using ob by auto
    from slice_read_at_ok[OF x this, of offset len res r3 s3] rd w show ?thesis by simp
  qed
  have "?good (reader_new ?key (length ?d), s)" using reader_ok_new by (simp add: reader_new_def)
  from creates_treeD[where P = ?good, OF tree q this step] have g: "objects s1 = objects s" "\<And>a. q = Ok a \<Longrightarrow> a = tree ?d" by auto
  obtain root out where tr: "tree ?d = (root, out)" by fastforce
  show thesis
  proof (cases q)
    case (Err e)
    with run q have "r = Err e" "s' = s1" by (simp_all add: object_outboard_def)
    with g(1) show thesis by (intro that(1)) simp_all
  next
    case (Ok a)
    with g have a: "q = Ok (root, out)" using tr by simp
    show thesis
    proof (cases "root = h")
      case False
      with run q a have "r = Ok (Some root)" "s' = s1" by (simp_all add: object_outboard_def)
      with g(1) False show thesis by (intro that(2)) (simp_all add: tr)
    next
      case True
      let ?req = "put_request (tree_key c object h) out"
      obtain what w where w: "with_context what (sdk_put sdk (sc_bucket c) ?req) s1 = (w, s')" "r = and_then w (\<lambda>_. Ok None)"
      proof (cases object)
        case ObjBlob
        with run q a True x that show thesis
          by (cases "put_outboard sdk c h out s1"; cases "fst (put_outboard sdk c h out s1)")
            (simp_all add: object_outboard_def put_outboard_def tree_key_def io_bind_def io_lift_def)
      next
        case (ObjCatalogDocument ow)
        with run q a True x that show thesis
          by (cases "put_catalog_outboard sdk c h out s1"; cases "fst (put_catalog_outboard sdk c h out s1)")
            (simp_all add: object_outboard_def put_catalog_outboard_def tree_key_def io_bind_def io_lift_def)
      qed
      from put_with_context[OF w(1)] consider "w \<noteq> Ok ()" "objects s' = objects s1"
        | t where "objects s' = (objects s1)(tree_key c object h \<mapsto> t)" "ob_body t = out"
        by (auto simp: put_request_def)
      then show thesis
      proof cases
        case 1
        then obtain e where "w = Err e" by (cases w) auto
        with w(2) 1 g(1) show thesis by (intro that(1)[of e]) simp_all
      next
        case (2 t)
        moreover have "r \<noteq> Ok (Some b)" for b using w(2) by (cases w) simp_all
        ultimately show thesis using True g(1) by (intro that(3)[of t]) (simp_all add: tr)
      qed
    qed
  qed
qed

end

text \<open>C22: An outboard computed in the background is stored only for an object whose bytes hash to its key,
  under that key, and it is the outboard of those bytes; nothing else in the bucket changes. An object
  that hashes to something else is reported as such, and the bucket is left alone.\<close>

theorem backfill_stores_tree:
  assumes "s3_streams (se_sdk x) c objects ok evolves (se_body x) remaining" and "creates_tree (se_create x) tree"
    and "objects s (data_key c object h) = Some ob"
    and "object_outboard x c h (length (ob_body ob)) object s = (r, s')"
  shows "(objects s' = objects s \<or>
      fst (tree (ob_body ob)) = h \<and>
      (\<exists>t. objects s' = (objects s)(tree_key c object h \<mapsto> t) \<and> ob_body t = snd (tree (ob_body ob)))) \<and>
    (r = Ok None \<longrightarrow> map_option ob_body (objects s' (tree_key c object h)) = Some (snd (tree (ob_body ob)))) \<and>
    (\<forall>a. r = Ok (Some a) \<longrightarrow> a = fst (tree (ob_body ob)) \<and> a \<noteq> h \<and> objects s' = objects s)"
  by (rule s3_streams.object_outboard_cases[OF assms(1) refl refl assms(2-4)]) auto


section \<open>What a check says of the bucket\<close>

text \<open>An object that can be served, as it is in the bucket.\<close>

definition servable_in ::
  "('s, 'b, 'p, 'r) serve_ext \<Rightarrow> S3Client \<Rightarrow> (string \<Rightarrow> s3_object option) \<Rightarrow> string \<Rightarrow> Servable \<Rightarrow> bool" where
  "servable_in x c objs h sv \<longleftrightarrow>
     (\<exists>ob. objs (data_key c (sb_object sv) h) = Some ob \<and> length (ob_body ob) = sb_size sv \<and>
        (case sb_object sv of ObjBlob \<Rightarrow> True
         | ObjCatalogDocument owner \<Rightarrow> objs (blob_key c h) = None \<and> owner = tget (ob_metadata ob) CATALOG_OWNER_METADATA)) \<and>
     (se_outboard_size x (sb_size sv) = 0 \<or>
        (\<exists>t. objs (tree_key c (sb_object sv) h) = Some t \<and> length (ob_body t) = se_outboard_size x (sb_size sv)))"

lemma s3_head_Ok: "s3_head x m s = (Ok v, t) \<Longrightarrow> m s = (Ok v, t)"
  by (auto simp: s3_head_def within_def split: prod.splits if_splits)

lemma snd_s3_head: "snd (s3_head x m s) = snd (m s)"
  by (auto simp: s3_head_def within_def split: prod.splits)

context s3_bucket
begin

lemma head_objects: "objects (snd (s3_head x (unless_missing missing what (sdk_head sdk (sc_bucket c) key) f) s)) = objects s"
  by (simp add: snd_s3_head snd_unless_missing read_objects)

lemma size_request:
  assumes "unless_missing err_not_found what (sdk_head sdk (sc_bucket c) key) (head_size w) s = (Ok v, t)"
  shows "v = map_option (\<lambda>ob. length (ob_body ob)) (objects s key)"
  using head_unless_missing[OF assms] by (auto dest!: head_size_Ok split: option.splits)

lemma document_size_request:
  assumes "catalog_document_size sdk c h s = (Ok v, t)"
  shows "v = map_option (\<lambda>ob. (length (ob_body ob), tget (ob_metadata ob) CATALOG_OWNER_METADATA)) (objects s (catalog_document_key c h))"
proof (cases v)
  case None
  with head_unless_missing[OF assms[unfolded catalog_document_size_def]] show ?thesis by simp
next
  case (Some y)
  from head_unless_missing[OF assms[unfolded catalog_document_size_def]] Some obtain ob g where
    ob: "objects s (catalog_document_key c h) = Some ob"
    "and_then (head_size ''a catalog document'' g) (\<lambda>size. Ok (size, owner_metadata (ho_metadata g))) = Ok y"
    "\<forall>n. ho_content_length g = Some n \<longrightarrow> n = int (length (ob_body ob))" "metadata_of (ho_metadata g) = ob_metadata ob" by auto
  have "owner_metadata (ho_metadata g) = tget (ob_metadata ob) CATALOG_OWNER_METADATA"
    using ob(4) by (cases "ho_metadata g") (auto simp: owner_metadata_def metadata_of_def)
  with ob Some show ?thesis by (auto simp: result_simps dest: head_size_Ok)
qed

lemma find_object_ok:
  assumes "se_sdk x = sdk" "find_object x c h s = (r, t)"
  shows "objects t = objects s \<and>
    (case r of
       Ok (n, object) \<Rightarrow> \<exists>ob. objects s (data_key c object h) = Some ob \<and> length (ob_body ob) = n \<and>
         (case object of ObjBlob \<Rightarrow> True
          | ObjCatalogDocument owner \<Rightarrow> objects s (blob_key c h) = None \<and> owner = tget (ob_metadata ob) CATALOG_OWNER_METADATA)
     | Err Gone \<Rightarrow> objects s (blob_key c h) = None \<and> objects s (catalog_document_key c h) = None
     | Err Busy \<Rightarrow> True)"
proof -
  obtain q1 s1 where q1: "s3_head x (blob_size sdk c h) s = (q1, s1)" by fastforce
  obtain q2 s2 where q2: "s3_head x (catalog_document_size sdk c h) s1 = (q2, s2)" by fastforce
  have s1: "objects s1 = objects s" using arg_cong[OF q1, of "\<lambda>p. objects (snd p)"] by (simp add: blob_size_def head_objects)
  have s2: "objects s2 = objects s" using arg_cong[OF q2, of "\<lambda>p. objects (snd p)"] s1 by (simp add: catalog_document_size_def head_objects)
  have b: "v = map_option (\<lambda>ob. length (ob_body ob)) (objects s (blob_key c h))" if "q1 = Ok v" for v
    using size_request[of _ "blob_key c h" _ s v s1] s3_head_Ok[of x "blob_size sdk c h" s v s1] q1 that by (simp add: blob_size_def)
  have d: "v = map_option (\<lambda>ob. (length (ob_body ob), tget (ob_metadata ob) CATALOG_OWNER_METADATA)) (objects s (catalog_document_key c h))"
    if "q2 = Ok v" for v
    using document_size_request[of h s1 v s2] s3_head_Ok[of x "catalog_document_size sdk c h" s1 v s2] q2 that s1 by simp
  show ?thesis
    using assms q1 q2 s1 s2 b d
    by (auto simp: find_object_def data_key_def split: result.splits option.splits prod.splits)
qed

lemma find_tree_ok:
  assumes "se_sdk x = sdk" "find_tree x c object h s = (r, t)"
  shows "objects t = objects s \<and> (\<forall>v. r = Ok v \<longrightarrow> v = map_option (\<lambda>ob. length (ob_body ob)) (objects s (tree_key c object h)))"
proof -
  obtain what w where m: "(case object of ObjBlob \<Rightarrow> outboard_size sdk c h | ObjCatalogDocument _ \<Rightarrow> catalog_outboard_size sdk c h) =
      unless_missing err_not_found what (sdk_head sdk (sc_bucket c) (tree_key c object h)) (head_size w)"
    by (cases object) (simp_all add: outboard_size_def catalog_outboard_size_def object_size_def tree_key_def)
  have f: "s3_head x (unless_missing err_not_found what (sdk_head sdk (sc_bucket c) (tree_key c object h)) (head_size w)) s = (r, t)"
    using assms(2) unfolding find_tree_def assms(1) m .
  have "objects t = objects s" using arg_cong[OF f, of "\<lambda>p. objects (snd p)"] by (simp add: head_objects)
  moreover have "v = map_option (\<lambda>ob. length (ob_body ob)) (objects s (tree_key c object h))" if "r = Ok v" for v
    using size_request s3_head_Ok f that by metis
  ultimately show ?thesis by blast
qed

end

lemma backfill_store [simp]: "sn_store (backfill now h n object sn) = sn_store sn"
  by (simp add: backfill_def Let_def)

text \<open>A check serves a hash only if it is not known to be corrupt, and unless it was found servable
  before, only if its object is in the bucket with the size told and, where one is needed, an outboard
  of the right size; a catalog document is served only where there is no blob, with the owner its object
  records. A final refusal means the hash is known to be corrupt or neither object exists. A check
  changes nothing in the bucket.\<close>

lemma server_check_spec:
  assumes "s3_bucket (se_sdk x) c objects ok evolves" and "server_check x c now h sn = (r, sn')"
  shows "objects (sn_store sn') = objects (sn_store sn) \<and>
    (\<forall>sv. r = Ok sv \<longrightarrow> h \<notin> set (ss_corrupt (sn_server sn)) \<and>
       (tget (ss_servable (sn_server sn)) h = Some sv \<or> servable_in x c (objects (sn_store sn)) h sv) \<and>
       tget (ss_servable (sn_server sn')) h = Some sv) \<and>
    (r = Err Gone \<longrightarrow> h \<in> set (ss_corrupt (sn_server sn)) \<or>
       objects (sn_store sn) (blob_key c h) = None \<and> objects (sn_store sn) (catalog_document_key c h) = None)"
proof -
  consider "h \<in> set (ss_corrupt (sn_server sn))"
    | sv where "h \<notin> set (ss_corrupt (sn_server sn))" "tget (ss_servable (sn_server sn)) h = Some sv"
    | "h \<notin> set (ss_corrupt (sn_server sn))" "tget (ss_servable (sn_server sn)) h = None" by blast
  then show ?thesis
  proof cases
    case 3
    obtain q s1 where q: "find_object x c h (sn_store sn) = (q, s1)" by fastforce
    note o = s3_bucket.find_object_ok[OF assms(1) refl q]
    show ?thesis
    proof (cases q)
      case (Err e)
      with 3 q o assms(2) show ?thesis by (cases e) (auto simp: server_check_def)
    next
      case (Ok no)
      obtain n object where no: "no = (n, object)" by fastforce
      obtain q2 s2 where q2: "find_tree x c object h s1 = (q2, s2)" by fastforce
      note t = s3_bucket.find_tree_ok[OF assms(1) refl q2]
      show ?thesis
        using 3 q o Ok no q2 t assms(2)
        by (auto simp: server_check_def Let_def servable_in_def remember_servable_def table_simps
            split: if_splits result.splits)
    qed
  qed (use assms(2) in \<open>auto simp: server_check_def\<close>)
qed


section \<open>Backfills are few, one per hash, and cool down\<close>

text \<open>The server under any schedule of checks, ends of backfill tasks, and sends that find an object corrupt
  or break off; the bucket is in any state at each check.\<close>

datatype serve_act = Checked nat string | Finished nat backfill_job "(string option, string) result" | Corrupted string | Forgotten string

inductive serve_step :: "('s, 'b, 'p, 'r) serve_ext \<Rightarrow> S3Client \<Rightarrow> 's serving \<Rightarrow> serve_act \<Rightarrow> 's serving \<Rightarrow> bool" for x c where
  checked: "server_check x c now h (sn\<lparr>sn_store := s\<rparr>) = (r, sn') \<Longrightarrow> serve_step x c sn (Checked now h) sn'"
| finished: "job \<in> set (sn_jobs sn) \<Longrightarrow> serve_step x c sn (Finished now job result)
    (sn\<lparr>sn_server := backfill_done now result job (sn_server sn), sn_jobs := remove1 job (sn_jobs sn)\<rparr>)"
| corrupted: "serve_step x c sn (Corrupted h) (sn\<lparr>sn_server := mark_corrupt h (sn_server sn)\<rparr>)"
| forgotten: "serve_step x c sn (Forgotten h) (sn\<lparr>sn_server := forget h (sn_server sn)\<rparr>)"

inductive serve_run :: "('s, 'b, 'p, 'r) serve_ext \<Rightarrow> S3Client \<Rightarrow> 's serving \<Rightarrow> serve_act list \<Rightarrow> 's serving \<Rightarrow> bool" for x c where
  nil: "serve_run x c sn [] sn"
| step: "serve_step x c sn a sn1 \<Longrightarrow> serve_run x c sn1 as sn2 \<Longrightarrow> serve_run x c sn (a # as) sn2"

definition serve_ok :: "'s serving \<Rightarrow> bool" where
  "serve_ok sn \<longleftrightarrow> ss_backfills (sn_server sn) + length (sn_jobs sn) = BACKFILLS \<and>
     distinct (map bj_hash (sn_jobs sn)) \<and> set (ss_backfilling (sn_server sn)) = bj_hash ` set (sn_jobs sn) \<and>
     wf_table (ss_servable (sn_server sn)) \<and> length (ss_servable (sn_server sn)) \<le> SIZES_CAPACITY \<and>
     distinct (ss_corrupt (sn_server sn)) \<and> length (ss_corrupt (sn_server sn)) \<le> BAD_CAPACITY \<and>
     wf_table (ss_backfill_failed (sn_server sn))"

lemma serve_ok_new: "serve_ok \<lparr>sn_server = s3_server_new, sn_jobs = [], sn_store = s\<rparr>"
  by (simp add: serve_ok_def s3_server_new_def)

lemma serve_ok_store [simp]: "serve_ok (sn\<lparr>sn_store := s\<rparr>) = serve_ok sn"
  by (simp add: serve_ok_def)

lemma serve_ok_backfill: "serve_ok sn \<Longrightarrow> serve_ok (backfill now h n object sn)"
  by (auto simp: serve_ok_def backfill_def Let_def split: option.splits)

lemma length_tremove_le: "length (tremove k t) \<le> length t"
  by (simp add: tremove_def)

lemma serve_ok_corrupt: "serve_ok sn \<Longrightarrow> serve_ok (sn\<lparr>sn_server := mark_corrupt h (sn_server sn)\<rparr>)"
  using length_tremove_le[of h "ss_servable (sn_server sn)"]
  by (auto simp: serve_ok_def mark_corrupt_def Let_def List.insert_def BAD_CAPACITY_def wf_table_tremove)

lemma serve_ok_forget: "serve_ok sn \<Longrightarrow> serve_ok (sn\<lparr>sn_server := forget h (sn_server sn)\<rparr>)"
  using length_tremove_le[of h "ss_servable (sn_server sn)"]
  by (auto simp: serve_ok_def forget_def wf_table_tremove)

lemma serve_ok_remember: "serve_ok sn \<Longrightarrow> serve_ok (sn\<lparr>sn_server := remember_servable h sv (sn_server sn)\<rparr>)"
proof -
  assume ok: "serve_ok sn"
  let ?t = "ss_servable (sn_server sn)"
  let ?k = "if length ?t \<ge> SIZES_CAPACITY then [] else ?t"
  have "wf_table ?k" "length ?k < SIZES_CAPACITY" using ok by (simp_all add: serve_ok_def SIZES_CAPACITY_def)
  then have "wf_table (tinsert h sv ?k)" "length (tinsert h sv ?k) \<le> SIZES_CAPACITY"
    using tbl.len_insert_le[of ?k h sv] wf_table_tinsert[of ?k h sv] by linarith+
  with ok show ?thesis by (simp add: serve_ok_def remember_servable_def Let_def)
qed

text \<open>What a check changes: at most it remembers an object or begins a backfill.\<close>

lemma server_check_cases:
  assumes "server_check x c now h sn = (r, sn')"
  obtains s where "sn' = sn\<lparr>sn_store := s\<rparr>"
    | s sv where "r = Ok sv" "sn' = sn\<lparr>sn_store := s, sn_server := remember_servable h sv (sn_server sn)\<rparr>"
    | s n object where "sn' = backfill now h n object (sn\<lparr>sn_store := s\<rparr>)"
proof (cases "h \<in> set (ss_corrupt (sn_server sn)) \<or> tget (ss_servable (sn_server sn)) h \<noteq> None")
  case True
  with assms have "sn' = sn\<lparr>sn_store := sn_store sn\<rparr>"
    by (cases "h \<in> set (ss_corrupt (sn_server sn))"; cases "tget (ss_servable (sn_server sn)) h") (simp_all add: server_check_def)
  then show thesis by (rule that(1))
next
  case False
  obtain q s where q: "find_object x c h (sn_store sn) = (q, s)" by fastforce
  show thesis
  proof (cases q)
    case (Err e)
    with False q assms have "sn' = sn\<lparr>sn_store := s\<rparr>" by (simp add: server_check_def)
    then show thesis by (rule that(1))
  next
    case (Ok no)
    obtain n object where no: "no = (n, object)" by fastforce
    obtain q2 s2 where q2: "find_tree x c object h s = (q2, s2)" by fastforce
    let ?sv = "\<lparr>sb_size = n, sb_object = object\<rparr>"
    have "(r, sn') \<in> {(Err Busy, sn\<lparr>sn_store := s2\<rparr>), (Ok ?sv, sn\<lparr>sn_store := s, sn_server := remember_servable h ?sv (sn_server sn)\<rparr>),
        (Ok ?sv, sn\<lparr>sn_store := s2, sn_server := remember_servable h ?sv (sn_server sn)\<rparr>),
        (Err Busy, backfill now h n object (sn\<lparr>sn_store := s2\<rparr>))}"
      using False q Ok no q2 assms by (cases q2) (auto simp: server_check_def Let_def split: if_splits)
    with that show thesis by blast
  qed
qed

lemma serve_ok_check:
  assumes "serve_ok sn" "server_check x c now h sn = (r, sn')"
  shows "serve_ok sn'"
  using assms(2)
proof (cases rule: server_check_cases)
  case (2 s sv)
  with serve_ok_remember[of "sn\<lparr>sn_store := s\<rparr>" h sv] assms(1) show ?thesis by simp
next
  case (3 s n object)
  with serve_ok_backfill[of "sn\<lparr>sn_store := s\<rparr>"] assms(1) show ?thesis by simp
qed (use assms(1) in simp)

lemma serve_ok_done:
  assumes "serve_ok sn" "job \<in> set (sn_jobs sn)"
  shows "serve_ok (sn\<lparr>sn_server := backfill_done now result job (sn_server sn), sn_jobs := remove1 job (sn_jobs sn)\<rparr>)"
proof -
  define srv where "srv = (case result of
      Ok None \<Rightarrow> sn_server sn
    | Ok (Some _) \<Rightarrow> mark_corrupt (bj_hash job) (sn_server sn)
    | Err _ \<Rightarrow> (sn_server sn)\<lparr>ss_backfill_failed := tinsert (bj_hash job) now
        (if length (ss_backfill_failed (sn_server sn)) \<ge> BAD_CAPACITY
         then tretain (\<lambda>_ t. now - t < BACKFILL_COOLDOWN) (ss_backfill_failed (sn_server sn))
         else ss_backfill_failed (sn_server sn))\<rparr>)"
  have srv: "serve_ok (sn\<lparr>sn_server := srv\<rparr>)"
  proof (cases result)
    case (Ok a)
    then show ?thesis using assms(1) serve_ok_corrupt by (cases a) (simp_all add: srv_def)
  next
    case (Err e)
    then show ?thesis using assms(1) by (simp add: srv_def serve_ok_def wf_table_tinsert wf_table_tretain)
  qed
  have ended: "backfill_done now result job (sn_server sn) =
      srv\<lparr>ss_backfilling := removeAll (bj_hash job) (ss_backfilling srv), ss_backfills := ss_backfills srv + 1\<rparr>"
    unfolding backfill_done_def srv_def Let_def by (rule refl)
  have "bj_hash ` set (remove1 job (sn_jobs sn)) = bj_hash ` set (sn_jobs sn) - {bj_hash job}"
    "distinct (map bj_hash (remove1 job (sn_jobs sn)))"
    using assms by (auto simp: serve_ok_def distinct_map inj_on_def)
  moreover have "Suc (length (remove1 job (sn_jobs sn))) = length (sn_jobs sn)"
    using assms(2) length_pos_if_in_set[OF assms(2)] by (simp add: length_remove1)
  ultimately show ?thesis using srv ended by (auto simp: serve_ok_def)
qed

lemma serve_step_ok: "serve_step x c sn a sn' \<Longrightarrow> serve_ok sn \<Longrightarrow> serve_ok sn'"
  by (cases rule: serve_step.cases) (auto intro: serve_ok_done serve_ok_corrupt serve_ok_forget dest!: serve_ok_check[rotated])

lemma serve_run_ok: "serve_run x c sn as sn' \<Longrightarrow> serve_ok sn \<Longrightarrow> serve_ok sn'"
  by (induction rule: serve_run.induct) (auto dest: serve_step_ok)

text \<open>Under every schedule at most two outboards are computed at once, never two of one hash, the permits
  taken are exactly the running tasks', and at most 100,000 objects and 10,000 corrupt hashes are
  remembered.\<close>

theorem backfills_bounded:
  assumes "serve_run x c \<lparr>sn_server = s3_server_new, sn_jobs = [], sn_store = s\<rparr> as sn"
  shows "length (sn_jobs sn) \<le> 2 \<and> ss_backfills (sn_server sn) = 2 - length (sn_jobs sn) \<and>
    distinct (map bj_hash (sn_jobs sn)) \<and> set (ss_backfilling (sn_server sn)) = bj_hash ` set (sn_jobs sn) \<and>
    length (ss_servable (sn_server sn)) \<le> 100000 \<and> length (ss_corrupt (sn_server sn)) \<le> 10000"
  using serve_run_ok[OF assms serve_ok_new] by (auto simp: serve_ok_def BACKFILLS_def SIZES_CAPACITY_def BAD_CAPACITY_def)

text \<open>A failure that is remembered stays remembered while it is cooling.\<close>

definition cools :: "string \<Rightarrow> nat \<Rightarrow> 's serving \<Rightarrow> bool" where
  "cools h t sn \<longleftrightarrow> serve_ok sn \<and> (\<exists>t'. t \<le> t' \<and> tget (ss_backfill_failed (sn_server sn)) h = Some t') \<and>
     h \<notin> bj_hash ` set (sn_jobs sn)"

fun act_within :: "nat \<Rightarrow> serve_act \<Rightarrow> bool" where
  "act_within t (Checked now h) \<longleftrightarrow> t \<le> now \<and> now < t + BACKFILL_COOLDOWN"
| "act_within t (Finished now job result) \<longleftrightarrow> t \<le> now \<and> now < t + BACKFILL_COOLDOWN"
| "act_within t _ \<longleftrightarrow> True"

lemma cools_check:
  assumes "server_check x c now h' sn = (r, sn')" "cools h t sn" "now < t + BACKFILL_COOLDOWN"
  shows "cools h t sn'"
proof -
  have ok: "serve_ok sn'" using serve_ok_check assms(1,2) by (auto simp: cools_def)
  from assms(2) obtain t' where t': "t \<le> t'" "tget (ss_backfill_failed (sn_server sn)) h = Some t'"
    and j: "h \<notin> bj_hash ` set (sn_jobs sn)" by (auto simp: cools_def)
  from assms(1) show ?thesis
  proof (cases rule: server_check_cases)
    case (3 s n object)
    moreover have "now - t' < BACKFILL_COOLDOWN" using assms(3) t'(1) by (simp add: BACKFILL_COOLDOWN_def)
    ultimately show ?thesis using ok t' j by (cases "h' = h") (auto simp: cools_def backfill_def Let_def split: if_splits)
  qed (use ok t' j in \<open>auto simp: cools_def remember_servable_def Let_def\<close>)
qed

lemma cools_done:
  assumes "cools h t sn" "job \<in> set (sn_jobs sn)" "t \<le> now" "now < t + BACKFILL_COOLDOWN"
  shows "cools h t (sn\<lparr>sn_server := backfill_done now result job (sn_server sn), sn_jobs := remove1 job (sn_jobs sn)\<rparr>)"
proof -
  from assms(1) obtain t' where ok: "serve_ok sn" and t': "t \<le> t'" "tget (ss_backfill_failed (sn_server sn)) h = Some t'"
    and j: "h \<notin> bj_hash ` set (sn_jobs sn)" by (auto simp: cools_def)
  have wf: "wf_table (ss_backfill_failed (sn_server sn))" using ok by (simp add: serve_ok_def)
  have h: "bj_hash job \<noteq> h" using j assms(2) by auto
  have kept: "tget (tretain (\<lambda>_ t. now - t < BACKFILL_COOLDOWN) (ss_backfill_failed (sn_server sn))) h = Some t'"
    using t' assms(3,4) by (simp add: tget_tretain[OF wf])
  have "tget (ss_backfill_failed (backfill_done now result job (sn_server sn))) h = Some t'"
    using t'(2) kept h by (auto simp: backfill_done_def Let_def mark_corrupt_def table_simps split: result.splits option.splits)
  then show ?thesis
    using serve_ok_done[OF ok assms(2)] t'(1) j set_remove1_subset[of job "sn_jobs sn"] by (auto simp: cools_def)
qed

lemma cools_step:
  assumes "serve_step x c sn a sn'" "cools h t sn" "act_within t a"
  shows "cools h t sn'"
  using assms(1)
proof cases
  case (checked now h' s r)
  have "cools h t (sn\<lparr>sn_store := s\<rparr>)" using assms(2) by (simp add: cools_def)
  with checked cools_check assms(3) show ?thesis by fastforce
next
  case (finished job now result)
  with cools_done[OF assms(2) finished(3)] assms(3) show ?thesis by simp
next
  case (corrupted h')
  moreover have "ss_backfill_failed (mark_corrupt h' (sn_server sn)) = ss_backfill_failed (sn_server sn)"
    by (simp add: mark_corrupt_def Let_def)
  ultimately show ?thesis using serve_ok_corrupt[of sn h'] assms(2) by (simp add: cools_def)
next
  case (forgotten h')
  moreover have "ss_backfill_failed (forget h' (sn_server sn)) = ss_backfill_failed (sn_server sn)" by (simp add: forget_def)
  ultimately show ?thesis using serve_ok_forget[of sn h'] assms(2) by (simp add: cools_def)
qed

lemma cools_run:
  assumes "serve_run x c sn as sn'" "cools h t sn" "\<forall>a\<in>set as. act_within t a"
  shows "cools h t sn'"
  using assms by (induction rule: serve_run.induct) (auto intro: cools_step)



section \<open>A bucket and bodies in memory\<close>

type_synonym mem_body = "(bytes, string) result"

definition mem_body_ext :: "mem_body body_ext" where
  "mem_body_ext = \<lparr>bx_open = (\<lambda>b. b), bx_read = (\<lambda>n b. case b of
       Ok d \<Rightarrow> (Ok (take (min n 3) d), Ok (drop (min n 3) d)) | Err e \<Rightarrow> (Err e, Err e))\<rparr>"

definition mem_remaining :: "mem_body \<Rightarrow> bytes" where
  "mem_remaining b = (case b of Ok d \<Rightarrow> d | Err _ \<Rightarrow> [])"

interpretation ms: s3_streams mem_bucket_sdk c tget mem_tags_ok mem_later mem_body_ext mem_remaining
  for c
proof unfold_locales
  show "length d \<le> n \<and> mem_remaining b = d @ mem_remaining b'" if "bx_read mem_body_ext n b = (Ok d, b')" for n b d b'
    using that by (auto simp: mem_body_ext_def mem_remaining_def split: result.splits)
  show "\<exists>ob. tget s key = Some ob \<and> prefix (mem_remaining (bx_open mem_body_ext (go_body g))) (drop start (ob_body ob))"
    if "sdk_get mem_bucket_sdk (sc_bucket c) key (if start > 0 then Some (''bytes='' @ show_nat start @ ''-'') else None) s = (Ok g, t)"
    for key start s g t
    using that range_start_from[of start]
    by (cases "0 < start") (auto simp: mem_bucket_sdk_def mem_body_ext_def mem_remaining_def min_def split: option.splits)
qed

definition sample_tree :: "bytes \<Rightarrow> string \<times> bytes" where
  "sample_tree d = (''h'' @ d, ''tree-'' @ d)"

definition sample_create :: "'w slice_reader \<Rightarrow> nat \<Rightarrow> ('w, string \<times> bytes, string) io" where
  "sample_create rd n w = (case rd 0 n w of (Ok d, w) \<Rightarrow> (Ok (sample_tree d), w) | (Err e, w) \<Rightarrow> (Err e, w))"

lemma sample_create_tree: "creates_tree sample_create sample_tree"
  unfolding creates_tree_def
proof (intro allI impI, elim conjE)
  fix rd d w r w' and good :: "'a \<Rightarrow> bool"
  assume w: "good w" and run: "sample_create rd (length d) w = (r, w')"
    and rd: "\<forall>offset len w r w'. good w \<and> rd offset len w = (r, w') \<longrightarrow> good w' \<and> (\<forall>bs. r = Ok bs \<longrightarrow> bs = take len (drop offset d))"
  obtain q w1 where q: "rd 0 (length d) w = (q, w1)" by fastforce
  with rd w have "good w1" "\<forall>bs. q = Ok bs \<longrightarrow> bs = d" by fastforce+
  with run q show "good w' \<and> (\<forall>a. r = Ok a \<longrightarrow> a = sample_tree d)" by (cases q) (auto simp: sample_create_def)
qed

definition sample_serve :: "(mem_bucket, mem_body, bytes, unit) serve_ext" where
  "sample_serve = \<lparr>se_sdk = mem_bucket_sdk, se_late = (\<lambda>_. False), se_body = mem_body_ext,
     se_outboard_size = (\<lambda>n. if n \<le> 4 then 0 else 2 * n), se_create = sample_create,
     se_encode = (\<lambda>data tree out _ n _ w. case data 0 n w of (Ok d, w) \<Rightarrow> (case out d w of (_, w) \<Rightarrow> (Ok (), w)) | (Err e, w) \<Rightarrow> (Err (EncodeIo e), w)),
     se_write = (\<lambda>d p. (Ok (), p @ d)), se_peer_late = (\<lambda>_. False)\<rparr>"

definition sample_s3 :: S3Client where
  "sample_s3 = \<lparr>sc_bucket = ''b'', sc_prefix = []\<rparr>"

definition sample_bucket :: mem_bucket where
  "sample_bucket = [(''blobs/h12345678'', \<lparr>ob_body = ''12345678'', ob_metadata = [], ob_e_tag = ''12345678''\<rparr>)]"

lemma sample_streams: "s3_streams (se_sdk sample_serve) sample_s3 tget mem_tags_ok mem_later (se_body sample_serve) mem_remaining"
  using ms.s3_streams_axioms by (simp add: sample_serve_def)

theorem reads_are_slices_witness:
  "map_option ob_body (tget sample_bucket ''blobs/h12345678'') = Some ''12345678'' \<and>
   (2, 5, Ok ''34567'') \<in> set (read_seq sample_serve sample_s3 [(\<lambda>s. s, 2, 5)] (reader_new ''blobs/h12345678'' 8, sample_bucket)) \<and>
   ''34567'' = take 5 (drop 2 (take 8 ''12345678''))"
proof -
  have 1: "map_option ob_body (tget sample_bucket ''blobs/h12345678'') = Some ''12345678''" by code_simp
  have 2: "(2, 5, Ok ''34567'') \<in> set (read_seq sample_serve sample_s3 [(\<lambda>s. s, 2, 5)] (reader_new ''blobs/h12345678'' 8, sample_bucket))"
    by code_simp
  from reads_are_slices[OF sample_streams 1 _ 2] have "''34567'' = take 5 (drop 2 (take 8 ''12345678''))" by simp
  with 1 2 show ?thesis by blast
qed

theorem backfill_stores_tree_witness:
  "\<exists>s'. object_outboard sample_serve sample_s3 ''h12345678'' 8 ObjBlob sample_bucket = (Ok None, s') \<and>
     map_option ob_body (tget s' (tree_key sample_s3 ObjBlob ''h12345678'')) = Some (snd (sample_tree ''12345678''))"
proof -
  let ?ob = "\<lparr>ob_body = ''12345678'', ob_metadata = [], ob_e_tag = ''12345678''\<rparr>"
  have ob: "tget sample_bucket (data_key sample_s3 ObjBlob ''h12345678'') = Some ?ob" by code_simp
  have len: "length (ob_body ?ob) = 8" and body: "ob_body ?ob = ''12345678''" by simp_all
  obtain r s' where run: "object_outboard sample_serve sample_s3 ''h12345678'' 8 ObjBlob sample_bucket = (r, s')" by fastforce
  have "fst (object_outboard sample_serve sample_s3 ''h12345678'' 8 ObjBlob sample_bucket) = Ok None" by code_simp
  with run have r: "r = Ok None" by simp
  have c: "creates_tree (se_create sample_serve) sample_tree"
    unfolding sample_serve_def serve_ext.select_convs by (rule sample_create_tree)
  have "object_outboard sample_serve sample_s3 ''h12345678'' (length (ob_body ?ob)) ObjBlob sample_bucket = (r, s')"
    unfolding len by (rule run)
  from conjunct1[OF conjunct2[OF backfill_stores_tree[OF sample_streams c ob this]]] r
  have "map_option ob_body (tget s' (tree_key sample_s3 ObjBlob ''h12345678'')) = Some (snd (sample_tree (ob_body ?ob)))" by (rule mp)
  then show ?thesis unfolding body using run r by blast
qed

definition sample_serving :: "mem_bucket serving" where
  "sample_serving = \<lparr>sn_server = s3_server_new, sn_jobs = [], sn_store = sample_bucket\<rparr>"

definition sample_backfill :: backfill_job where
  "sample_backfill = \<lparr>bj_hash = ''h12345678'', bj_size = 8, bj_object = ObjBlob\<rparr>"

lemma sample_check_backfills:
  "snd (server_check sample_serve sample_s3 0 ''h12345678'' sample_serving) = backfill 0 ''h12345678'' 8 ObjBlob sample_serving"
proof -
  have "find_object sample_serve sample_s3 ''h12345678'' sample_bucket = (Ok (8, ObjBlob), sample_bucket)"
    "find_tree sample_serve sample_s3 ObjBlob ''h12345678'' sample_bucket = (Ok None, sample_bucket)"
    "se_outboard_size sample_serve 8 = 16" by code_simp+
  then show ?thesis by (simp add: server_check_def sample_serving_def s3_server_new_def Let_def)
qed

lemma sample_backfilling: "serve_run sample_serve sample_s3 sample_serving [Checked 0 ''h12345678''] (backfill 0 ''h12345678'' 8 ObjBlob sample_serving)"
proof -
  obtain r where "server_check sample_serve sample_s3 0 ''h12345678'' (sample_serving\<lparr>sn_store := sample_bucket\<rparr>) =
      (r, backfill 0 ''h12345678'' 8 ObjBlob sample_serving)"
    using sample_check_backfills by (metis (no_types, lifting) sample_serving_def serving.update_convs(3) prod.collapse)
  from serve_run.step[OF serve_step.checked[OF this] serve_run.nil] show ?thesis .
qed

theorem backfills_bounded_witness: "length (sn_jobs (backfill 0 ''h12345678'' 8 ObjBlob sample_serving)) \<le> 2"
  using backfills_bounded[OF sample_backfilling[unfolded sample_serving_def]] by (simp add: sample_serving_def)


end
