(* ===== verification/Node.thy ===== *)
theory Node
  imports Publish_Gate Ingest Staging S3_Serve
begin

text \<open>
  \<open>src/node.rs\<close>: what the node does with the messages of the blobs protocol. A push is answered by the
  ingest loop and, once accepted, waited for and ingested; a get is answered from S3. The QUIC
  connections, the blobs provider and its events are iroh's: a message, an update of a push, the bytes a
  connection has received and the stream of a fetch are inputs. What the rest of the node does while a
  task sleeps is a function on the state, an argument.
\<close>

section \<open>Connections\<close>

record Connection =
  cn_rx_bytes :: nat
  cn_closed :: "(nat \<times> bytes) option"

type_synonym Connections = "(nat, Connection) table"

definition rx_bytes :: "nat \<Rightarrow> Connections \<Rightarrow> nat option" where
  "rx_bytes i conns = map_option cn_rx_bytes (tget conns i)"

definition close_connection :: "nat \<Rightarrow> bytes \<Rightarrow> Connections \<Rightarrow> Connections" where
  "close_connection i reason conns = (case tget conns i of
       Some conn \<Rightarrow> tinsert i (conn\<lparr>cn_closed := Some (1, reason)\<rparr>) conns
     | None \<Rightarrow> conns)"

text \<open>\<open>accept\<close>: a connection is known to the node from when its event was answered until it ends.\<close>

definition accept_begin :: "nat \<Rightarrow> Connection \<Rightarrow> (unit, bytes) result \<Rightarrow> Connections \<Rightarrow> (unit, bytes) result \<times> Connections" where
  "accept_begin i conn answered conns = (case answered of
       Err cause \<Rightarrow> (Err cause, conns)
     | Ok _ \<Rightarrow> (Ok (), tinsert i conn conns))"

definition accept_end :: "nat \<Rightarrow> Connections \<Rightarrow> Connections" where
  "accept_end i conns = tremove i conns"


section \<open>The ingest loop\<close>

text \<open>A push names its hash and whether it is of a single blob.\<close>

datatype ProviderMessage =
    PushRequestReceived nat string bool
  | GetRequestReceived
  | GetManyRequestReceived
  | ObserveRequestReceived
  | ClientConnected nat "EndpointId option"
  | ConnectionClosed nat
  | Throttle
  | UnrequestedNotify

datatype Answer = Approve | AbortPermission | NoReply

record accepted_push =
  ap_hash :: string
  ap_connection :: nat
  ap_owner :: "(string \<times> EndpointId) option"

text \<open>The task of a push up to its answer.\<close>

definition answer_push ::
  "gate_ext \<Rightarrow> gate_clock \<Rightarrow> (EndpointId \<Rightarrow> lookup_answer) \<Rightarrow> nat \<Rightarrow> string \<Rightarrow> PublishGate option \<times> Staging \<Rightarrow>
   (Answer \<times> accepted_push option) \<times> PublishGate option \<times> Staging" where
  "answer_push x clk get_session connection_id h c = (case c of (gate, staging) \<Rightarrow>
     let accept = (\<lambda>owner gate. ((Approve, Some \<lparr>ap_hash = h, ap_connection = connection_id, ap_owner = owner\<rparr>),
                                 (gate, track h staging))) in
     (case gate of
        None \<Rightarrow> accept None None
      | Some g \<Rightarrow>
          (case authorize_push x clk get_session connection_id h g of
             (Ok owner, g) \<Rightarrow> accept (Some owner) (Some g)
           | (Err why, g) \<Rightarrow> ((AbortPermission, None), (Some g, staging)))))"

definition ingest_message ::
  "gate_ext \<Rightarrow> gate_clock \<Rightarrow> (EndpointId \<Rightarrow> lookup_answer) \<Rightarrow> ProviderMessage \<Rightarrow> PublishGate option \<times> Staging \<Rightarrow>
   (Answer \<times> accepted_push option) \<times> PublishGate option \<times> Staging" where
  "ingest_message x clk get_session msg c = (case msg of
       PushRequestReceived connection_id h is_blob \<Rightarrow>
         if \<not> is_blob then ((AbortPermission, None), c) else answer_push x clk get_session connection_id h c
     | GetRequestReceived \<Rightarrow> ((AbortPermission, None), c)
     | GetManyRequestReceived \<Rightarrow> ((AbortPermission, None), c)
     | ObserveRequestReceived \<Rightarrow> ((AbortPermission, None), c)
     | ClientConnected connection_id endpoint \<Rightarrow>
         ((Approve, None), (map_option (connected connection_id endpoint) (fst c), snd c))
     | ConnectionClosed connection_id \<Rightarrow> ((NoReply, None), (map_option (closed connection_id) (fst c), snd c))
     | Throttle \<Rightarrow> ((Approve, None), c)
     | UnrequestedNotify \<Rightarrow> ((NoReply, None), c))"


section \<open>Waiting for a push\<close>

definition PUSH_STALL_MIN_BYTES :: nat where
  "PUSH_STALL_MIN_BYTES = 64 * 1024"

datatype PushTrouble = Oversize nat | Stalled

text \<open>The stall watch of \<open>watch_push\<close> over the counts it reads, one per stall window: \<open>Some True\<close> when it
  reports a stall, \<open>Some False\<close> when it waits for ever, \<open>None\<close> while it goes on.\<close>

fun stall_watch :: "nat option \<Rightarrow> nat option list \<Rightarrow> bool option" where
  "stall_watch before [] = None"
| "stall_watch before (None # later) = Some False"
| "stall_watch None (Some now # later) = stall_watch (Some now) later"
| "stall_watch (Some b) (Some now # later) =
     (if now - b < PUSH_STALL_MIN_BYTES then Some True else stall_watch (Some now) later)"

text \<open>\<open>oversize_push\<close> over the sizes the store reports: \<open>Some (Some n)\<close> when it reports \<open>n\<close>, \<open>Some None\<close> when
  it waits for ever.\<close>

fun oversize_push :: "nat \<Rightarrow> nat list \<Rightarrow> nat option option" where
  "oversize_push mx [] = None"
| "oversize_push mx (n # later) =
     (if n = 0 then oversize_push mx later else if n > mx then Some (Some n) else Some None)"

datatype RequestUpdate = Started nat | Progress | Completed | Aborted

datatype push_event = Update RequestUpdate | UpdatesEnd | Trouble PushTrouble

datatype transfer = TransferEnded bool | TransferCut PushTrouble

text \<open>The loop of \<open>wait_and_ingest\<close>: how the transfer ends, \<open>None\<close> while it goes on.\<close>

fun wait_transfer :: "push_event list \<Rightarrow> transfer option" where
  "wait_transfer [] = None"
| "wait_transfer (Trouble t # later) = Some (TransferCut t)"
| "wait_transfer (UpdatesEnd # later) = Some (TransferEnded False)"
| "wait_transfer (Update Completed # later) = Some (TransferEnded True)"
| "wait_transfer (Update Aborted # later) = Some (TransferEnded False)"
| "wait_transfer (Update _ # later) = wait_transfer later"


section \<open>Ingesting what the store holds\<close>

definition UPLOAD_RETRIES :: "nat list" where
  "UPLOAD_RETRIES = [1000, 5000]"

record ('f, 's) Ingester =
  ig_tdf :: tdf_ext
  ig_bao :: bao
  ig_store :: "'f fs_store"
  ig_sdk :: "'s s3_sdk"
  ig_s3_client :: S3Client
  ig_validation :: ValidationConfig
  ig_scratch_dir :: string

text \<open>What goes on while a task sleeps for some milliseconds.\<close>

type_synonym ('f, 's) pause = "nat \<Rightarrow> 'f staging_fs \<times> 's \<Rightarrow> 'f staging_fs \<times> 's"

fun await_complete :: "('f, 's) Ingester \<Rightarrow> ('f, 's) pause \<Rightarrow> string \<Rightarrow> nat \<Rightarrow> 'f staging_fs \<times> 's \<Rightarrow> bool \<times> 'f staging_fs \<times> 's" where
  "await_complete ig pause h 0 w = (False, w)"
| "await_complete ig pause h (Suc n) w = (case on_fs (fs_observe (ig_store ig) h) (fst w) of
       (Err (e :: string), f) \<Rightarrow> (False, (f, snd w))
     | (Ok bitfield, f) \<Rightarrow>
         if bf_complete bitfield then (True, (f, snd w))
         else await_complete ig pause h n (pause 100 (f, snd w)))"

fun upload_retrying ::
  "('f, 's) Ingester \<Rightarrow> ('f, 's) pause \<Rightarrow> Validated \<Rightarrow> nat list \<Rightarrow> 'f staging_fs \<times> 's \<Rightarrow> bool \<times> 'f staging_fs \<times> 's" where
  "upload_retrying ig pause v [] w = (case upload (ig_tdf ig) (ig_sdk ig) (ig_s3_client ig) v (snd w) of
       (Ok _, s) \<Rightarrow> (True, (fst w, s))
     | (Err _, s) \<Rightarrow> (False, (fst w, s)))"
| "upload_retrying ig pause v (p # retries) w = (case upload (ig_tdf ig) (ig_sdk ig) (ig_s3_client ig) v (snd w) of
       (Ok _, s) \<Rightarrow> (True, (fst w, s))
     | (Err _, s) \<Rightarrow> upload_retrying ig pause v retries (pause p (fst w, s)))"

text \<open>\<open>acquire\<close> is the wait for an ingest permit: whether there was one, and what went on meanwhile.\<close>

definition ingest_stored ::
  "('f, 's) Ingester \<Rightarrow> ('f, 's) pause \<Rightarrow> ('f staging_fs \<times> 's \<Rightarrow> bool \<times> 'f staging_fs \<times> 's) \<Rightarrow> string \<Rightarrow>
   'f staging_fs \<times> 's \<Rightarrow> bool \<times> 'f staging_fs \<times> 's" where
  "ingest_stored ig pause acquire h w = (case await_complete ig pause h 10 w of
       (False, w) \<Rightarrow> (False, w)
     | (True, w) \<Rightarrow>
         (case acquire w of
            (False, w) \<Rightarrow> (False, w)
          | (True, w) \<Rightarrow>
              (case validate_from_store (ig_tdf ig) (ig_bao ig) (ig_store ig) (ig_validation ig) (ig_scratch_dir ig) h (fst w) of
                 (Ok (Some v), f) \<Rightarrow>
                   (case upload_retrying ig pause v UPLOAD_RETRIES (f, snd w) of
                      (ok, (f, s)) \<Rightarrow> (ok, (scratch_file_drop (ig_store ig) (va_file v) f, s)))
               | (_, f) \<Rightarrow> (False, (f, snd w)))))"

text \<open>A push from its acceptance to its end: the transfer, ingest, the record of who pushed it, and the drop
  of its guard. \<open>serialize\<close> is serde's encoding of the record.\<close>

record ('f, 's) pushing =
  pu_staging :: Staging
  pu_connections :: Connections
  pu_world :: "'f staging_fs \<times> 's"

definition wait_and_ingest ::
  "('f, 's) Ingester \<Rightarrow> ('f, 's) pause \<Rightarrow> ('f staging_fs \<times> 's \<Rightarrow> bool \<times> 'f staging_fs \<times> 's) \<Rightarrow> string \<Rightarrow> nat \<Rightarrow> transfer \<Rightarrow>
   ('f, 's) pushing \<Rightarrow> bool \<times> ('f, 's) pushing" where
  "wait_and_ingest ig pause acquire h connection_id transfer st =
     (let ingest = (\<lambda>st. case ingest_stored ig pause acquire h (pu_world st) of (ok, w) \<Rightarrow> (ok, st\<lparr>pu_world := w\<rparr>));
          cut = (\<lambda>reason. st\<lparr>pu_connections := close_connection connection_id reason (pu_connections st)\<rparr>) in
      case transfer of
        TransferCut (Oversize n) \<Rightarrow> (False, cut ''blob exceeds max_blob_bytes'')
      | TransferCut Stalled \<Rightarrow> ingest (cut ''push stalled'')
      | TransferEnded _ \<Rightarrow> ingest st)"

definition record_owner ::
  "(BlobOwner \<Rightarrow> bytes) \<Rightarrow> int \<Rightarrow> 's s3_sdk \<Rightarrow> S3Client \<Rightarrow> string \<Rightarrow> string \<Rightarrow> EndpointId \<Rightarrow> 's \<Rightarrow> 's" where
  "record_owner serialize now sdk c h subject endpoint s =
     snd (put_moderation_record sdk c ''publishers'' h
       (serialize \<lparr>bo_hash = h, bo_subject = subject, bo_endpoint_id = endpoint, bo_at = now\<rparr>) s)"

definition run_push ::
  "(BlobOwner \<Rightarrow> bytes) \<Rightarrow> int \<Rightarrow> ('f, 's) Ingester \<Rightarrow> ('f, 's) pause \<Rightarrow> ('f staging_fs \<times> 's \<Rightarrow> bool \<times> 'f staging_fs \<times> 's) \<Rightarrow>
   accepted_push \<Rightarrow> transfer \<Rightarrow> ('f, 's) pushing \<Rightarrow> (bool \<times> ('f, 's) pushing, string) result" where
  "run_push serialize now ig pause acquire push transfer st =
     (case wait_and_ingest ig pause acquire (ap_hash push) (ap_connection push) transfer st of
        (ingested, st) \<Rightarrow>
          and_then (drop_push (ap_hash push) (pu_staging st)) (\<lambda>staging.
            let st = st\<lparr>pu_staging := staging\<rparr> in
            Ok (ingested, case ap_owner push of
                Some (subject, endpoint) \<Rightarrow>
                  if ingested
                  then st\<lparr>pu_world := (fst (pu_world st), record_owner serialize now (ig_sdk ig) (ig_s3_client ig) (ap_hash push)
                         subject endpoint (snd (pu_world st)))\<rparr>
                  else st
              | None \<Rightarrow> st)))"


section \<open>Fetches\<close>

definition MAX_FETCH_HASHES :: nat where "MAX_FETCH_HASHES = 64"
definition SERVES :: nat where "SERVES = 256"

datatype ResetCode = ERR_PERMISSION | ERR_LIMIT

datatype fetch_end = Finish | Reset ResetCode

text \<open>The moderation view enforced when a hash is checked, \<open>None\<close> without a gate.\<close>

definition hash_blocked :: "Moderation option \<Rightarrow> string \<Rightarrow> bool" where
  "hash_blocked gate h = (case gate of Some m \<Rightarrow> is_blocked m h | None \<Rightarrow> False)"

definition document_hidden :: "Moderation option \<Rightarrow> Servable \<Rightarrow> bool" where
  "document_hidden gate sv = (case sb_object sv of
       ObjCatalogDocument (Some owner) \<Rightarrow> (case gate of Some m \<Rightarrow> catalog_hidden m owner | None \<Rightarrow> False)
     | _ \<Rightarrow> False)"

fun check_wanted ::
  "('s, 'b, 'p, 'r) serve_ext \<Rightarrow> S3Client \<Rightarrow> nat \<Rightarrow> (string \<Rightarrow> Moderation option) \<Rightarrow> string list \<Rightarrow>
   ('s serving, Servable list, ResetCode) io" where
  "check_wanted x c now gate [] sn = (Ok [], sn)"
| "check_wanted x c now gate (h # hs) sn =
     (if hash_blocked (gate h) h then (Err ERR_PERMISSION, sn)
      else (case server_check x c now h sn of
          (Ok sv, sn) \<Rightarrow>
            if document_hidden (gate h) sv then (Err ERR_PERMISSION, sn)
            else (case check_wanted x c now gate hs sn of
                (Ok svs, sn) \<Rightarrow> (Ok (sv # svs), sn)
              | (Err e, sn) \<Rightarrow> (Err e, sn))
        | (Err Gone, sn) \<Rightarrow> (Err ERR_PERMISSION, sn)
        | (Err Busy, sn) \<Rightarrow> (Err ERR_LIMIT, sn)))"

fun send_wanted ::
  "('s, 'b, 'p, 'r) serve_ext \<Rightarrow> S3Client \<Rightarrow> ((string \<times> 'r) \<times> Servable) list \<Rightarrow> 's serving \<times> 'p \<Rightarrow> fetch_end \<times> 's serving \<times> 'p" where
  "send_wanted x c [] w = (Finish, w)"
| "send_wanted x c (((h, ranges), sv) # later) w = (case server_send x c h sv ranges w of
       (Ok _, w) \<Rightarrow> send_wanted x c later w
     | (Err _, (sn, p)) \<Rightarrow> (Reset ERR_LIMIT, (sn\<lparr>sn_server := forget h (sn_server sn)\<rparr>, p)))"

text \<open>\<open>serve\<close>; \<open>permits\<close> is how many of the \<^const>\<open>SERVES\<close> permits are free.\<close>

definition serve ::
  "('s, 'b, 'p, 'r) serve_ext \<Rightarrow> S3Client \<Rightarrow> nat \<Rightarrow> (string \<Rightarrow> Moderation option) \<Rightarrow> nat \<Rightarrow> (string \<times> 'r) list \<Rightarrow>
   's serving \<times> 'p \<Rightarrow> fetch_end \<times> 's serving \<times> 'p" where
  "serve x c now gate permits wanted w = (case w of (sn, p) \<Rightarrow>
     if permits = 0 then (Reset ERR_LIMIT, (sn, p))
     else (case check_wanted x c now gate (map fst wanted) sn of
         (Err code, sn) \<Rightarrow> (Reset code, (sn, p))
       | (Ok svs, sn) \<Rightarrow> send_wanted x c (zip wanted svs) (sn, p)))"

text \<open>The requests a stream may carry. A get's ranges are a single blob's when \<open>as_single\<close> gives the child 0
  and its ranges; the ranges of a get_many go on for ever.\<close>

datatype 'r Request =
    PushRequest
  | GetRequest string "(nat \<times> 'r) option"
  | GetManyRequest "string list" "nat \<Rightarrow> 'r"
  | OtherRequest

definition stream ::
  "('s, 'b, 'p, 'r) serve_ext \<Rightarrow> S3Client \<Rightarrow> nat \<Rightarrow> (string \<Rightarrow> Moderation option) \<Rightarrow> nat \<Rightarrow> ('r \<Rightarrow> bool) \<Rightarrow>
   ('r Request, string) result \<Rightarrow> 's serving \<times> 'p \<Rightarrow> fetch_end option \<times> 's serving \<times> 'p" where
  "stream x c now gate permits is_empty request w =
     (let serve = (\<lambda>wanted. case serve x c now gate permits wanted w of (e, w) \<Rightarrow> (Some e, w));
          refuse = (Some (Reset ERR_PERMISSION), w) in
      case request of
        Err _ \<Rightarrow> refuse
      | Ok PushRequest \<Rightarrow> (None, w)
      | Ok (GetRequest h single) \<Rightarrow>
          (case single of Some (0, ranges) \<Rightarrow> serve [(h, ranges)] | _ \<Rightarrow> refuse)
      | Ok (GetManyRequest hashes ranges) \<Rightarrow>
          if length hashes > MAX_FETCH_HASHES then refuse
          else serve (filter (\<lambda>(_, r). \<not> is_empty r) (zip hashes (map ranges [0..<length hashes])))
      | Ok OtherRequest \<Rightarrow> refuse)"

text \<open>How long the collector may be silent: five intervals and a minute.\<close>

definition node_collector_stopped :: "nat \<Rightarrow> (nat \<Rightarrow> Staging) \<Rightarrow> (nat \<Rightarrow> nat) \<Rightarrow> nat \<Rightarrow> nat option" where
  "node_collector_stopped gc_interval_secs st wake now =
     (let interval = max gc_interval_secs 1 * 1000 in collector_stopped st wake (interval * 5 + 60 * 1000) now)"


section \<open>What an answer to a push rests on\<close>

text \<open>Whether a message holds a request until it is answered.\<close>

fun holds_request :: "ProviderMessage \<Rightarrow> bool" where
  "holds_request (ConnectionClosed i) = False"
| "holds_request UnrequestedNotify = False"
| "holds_request _ = True"

lemma is_pending_track: "is_pending h' (track h st) \<longleftrightarrow> h' = h \<or> is_pending h' st"
  by (auto simp: is_pending_def track_def tcontains_def table_simps)

text \<open>C21: Every message that holds a request is answered, and no other. A push is approved exactly when it is of
  a single blob and there is no gate or the gate authorizes it; then it is pending, with the publisher
  the gate authorized. Anything else that asks for blobs is refused, and a refusal makes nothing pending.
  No message ends a push that is pending.\<close>

theorem messages_answered:
  assumes "ingest_message x clk get_session msg (gate, st) = ((answer, push), (gate', st'))"
  shows "(answer \<noteq> NoReply) = holds_request msg \<and>
    (\<forall>i h is_blob. msg = PushRequestReceived i h is_blob \<longrightarrow>
       (answer = Approve) = (is_blob \<and> (case gate of None \<Rightarrow> True | Some g \<Rightarrow> is_ok (fst (authorize_push x clk get_session i h g)))) \<and>
       (answer = Approve \<longrightarrow> is_pending h st' \<and> (\<exists>p. push = Some p \<and> ap_hash p = h \<and> ap_connection p = i \<and>
          (case gate of None \<Rightarrow> ap_owner p = None
           | Some g \<Rightarrow> \<exists>owner. fst (authorize_push x clk get_session i h g) = Ok owner \<and> ap_owner p = Some owner)))) \<and>
    (answer \<noteq> Approve \<longrightarrow> push = None \<and> st' = st) \<and>
    (msg \<in> {GetRequestReceived, GetManyRequestReceived, ObserveRequestReceived} \<longrightarrow> answer = AbortPermission) \<and>
    (\<forall>h. is_pending h st \<longrightarrow> is_pending h st')"
proof (cases msg)
  case (PushRequestReceived i h is_blob)
  show ?thesis
  proof (cases gate)
    case None
    with PushRequestReceived assms show ?thesis
      by (auto simp: ingest_message_def answer_push_def Let_def is_pending_track split: if_splits)
  next
    case (Some g)
    obtain r g' where r: "authorize_push x clk get_session i h g = (r, g')" by fastforce
    with Some PushRequestReceived assms show ?thesis
      by (cases r) (auto simp: ingest_message_def answer_push_def Let_def is_pending_track split: if_splits)
  qed
qed (use assms in \<open>auto simp: ingest_message_def\<close>)


section \<open>Stalled and oversize pushes\<close>

text \<open>The window before the \<open>i\<close>-th reading: open at both ends, with less than 64 KiB received.\<close>

definition slow_window :: "nat option \<Rightarrow> nat option list \<Rightarrow> nat \<Rightarrow> bool" where
  "slow_window before counts i \<longleftrightarrow> (\<exists>b a. (before # counts) ! i = Some b \<and> counts ! i = Some a \<and> a - b < 64 * 1024)"

lemma slow_window_Suc: "slow_window before (now # later) (Suc i) = slow_window now later i"
  by (simp add: slow_window_def)

text \<open>The watch of a push reports a stall exactly when in some window the connection was open at both ends
  and received less than 64 KiB, and it was open at every reading before and never so slow; so a push
  that keeps up, or whose connection closes first, is never reported.\<close>

theorem stall_watch_iff:
  "stall_watch before counts = Some True \<longleftrightarrow>
   (\<exists>i<length counts. slow_window before counts i \<and> (\<forall>j<i. counts ! j \<noteq> None \<and> \<not> slow_window before counts j))"
proof (induction before counts rule: stall_watch.induct)
  case (2 before later)
  have "\<not> (slow_window before (None # later) i \<and> (\<forall>j<i. (None # later) ! j \<noteq> None \<and> \<not> slow_window before (None # later) j))" for i
    by (cases i) (auto simp: slow_window_def)
  then show ?case by auto
next
  case (3 now later)
  have "\<not> slow_window None (Some now # later) 0" by (simp add: slow_window_def)
  with 3 show ?case by (simp add: Ex_less_Suc2 All_less_Suc2 slow_window_Suc)
next
  case (4 b now later)
  have "slow_window (Some b) (Some now # later) 0 \<longleftrightarrow> now - b < PUSH_STALL_MIN_BYTES"
    by (simp add: slow_window_def PUSH_STALL_MIN_BYTES_def)
  with 4 show ?case by (auto simp: Ex_less_Suc2 All_less_Suc2 slow_window_Suc)
qed simp

text \<open>An oversize push is reported with the first size the store knows, and only if that exceeds the limit.\<close>

lemma oversize_push_iff:
  "oversize_push mx sizes = Some (Some n) \<longleftrightarrow> (\<exists>later. dropWhile (\<lambda>m. m = 0) sizes = n # later) \<and> mx < n"
  by (induction sizes) auto


section \<open>An ingested push is in S3\<close>

text \<open>What is in the bucket under a hash after an upload that worked.\<close>

definition in_bucket :: "S3Client \<Rightarrow> (string \<Rightarrow> s3_object option) \<Rightarrow> string \<Rightarrow> bytes \<Rightarrow> bool" where
  "in_bucket c objs h outboard \<longleftrightarrow> objs (blob_key c h) \<noteq> None \<and> map_option ob_body (objs (outboard_key c h)) = Some outboard"

lemma upload_in_bucket:
  assumes "s3_bucket (ig_sdk ig) (ig_s3_client ig) objects ok evolves"
    and "upload (ig_tdf ig) (ig_sdk ig) (ig_s3_client ig) v s = (Ok res, t)"
  shows "in_bucket (ig_s3_client ig) (objects t) (va_hash v) (va_outboard v)"
  using uploaded[OF assms] by (auto simp: in_bucket_def)

lemma upload_retrying_True:
  assumes "s3_bucket (ig_sdk ig) (ig_s3_client ig) objects ok evolves"
  shows "upload_retrying ig pause v retries w = (True, w') \<Longrightarrow>
    in_bucket (ig_s3_client ig) (objects (snd w')) (va_hash v) (va_outboard v)"
proof (induction retries arbitrary: w)
  case Nil
  then show ?case by (auto dest: upload_in_bucket[OF assms] split: prod.splits result.splits)
next
  case (Cons p retries)
  then show ?case by (auto dest: upload_in_bucket[OF assms] split: prod.splits result.splits)
qed

text \<open>The bytes of a push that were staged and passed: their manifest validates at their exact length, and
  their hash is the push's.\<close>

definition staged_valid :: "('f, 's) Ingester \<Rightarrow> string \<Rightarrow> bytes \<Rightarrow> bytes \<Rightarrow> bool" where
  "staged_valid ig h d outboard \<longleftrightarrow> (\<exists>rd rd' m. reads_as rd d \<and> reads_as rd' d \<and>
     validate_archive (ig_tdf ig) rd (length d) (ig_validation ig) = Ok m \<and> ig_bao ig rd' (length d) = Ok (h, outboard))"

text \<open>The state when a push has its permit and is validated.\<close>

definition turn_of ::
  "('f, 's) Ingester \<Rightarrow> ('f, 's) pause \<Rightarrow> ('f staging_fs \<times> 's \<Rightarrow> bool \<times> 'f staging_fs \<times> 's) \<Rightarrow> string \<Rightarrow>
   'f staging_fs \<times> 's \<Rightarrow> 'f staging_fs \<times> 's" where
  "turn_of ig pause acquire h w = snd (acquire (snd (await_complete ig pause h 10 w)))"

lemma ingest_stored_True:
  assumes fs: "local_store (ig_store ig) files staged" and s3: "s3_bucket (ig_sdk ig) (ig_s3_client ig) objects ok evolves"
    and run: "ingest_stored ig pause acquire h w = (True, w')"
  shows "\<exists>d outboard. staged (sf_fs (fst (turn_of ig pause acquire h w))) h = Some d \<and> staged_valid ig h d outboard \<and>
    in_bucket (ig_s3_client ig) (objects (snd w')) h outboard"
proof -
  from run obtain w1 w2 v f f2 s2 where w2: "await_complete ig pause h 10 w = (True, w1)" "acquire w1 = (True, w2)" and
    v: "validate_from_store (ig_tdf ig) (ig_bao ig) (ig_store ig) (ig_validation ig) (ig_scratch_dir ig) h (fst w2) = (Ok (Some v), f)"
    and u: "upload_retrying ig pause v UPLOAD_RETRIES (f, snd w2) = (True, (f2, s2))" and w': "snd w' = s2"
    by (auto simp: ingest_stored_def split: prod.splits bool.splits result.splits option.splits)
  from local_store.validate_from_store_spec(2)[OF fs v refl] obtain d rd rd' where
    d: "staged (sf_fs (fst w2)) h = Some d" "reads_as rd d" "reads_as rd' d"
    "validate_archive (ig_tdf ig) rd (length d) (ig_validation ig) = Ok (va_manifest v)"
    "ig_bao ig rd' (length d) = Ok (h, va_outboard v)" "va_hash v = h" by blast
  then have "staged_valid ig h d (va_outboard v)" unfolding staged_valid_def by blast
  with d(1,6) upload_retrying_True[OF s3 u] w' w2 show ?thesis by (auto simp: turn_of_def)
qed

text \<open>The moderation records and the blobs are under different keys.\<close>

lemma record_owner_keeps:
  assumes "s3_bucket sdk c objects ok evolves"
  shows "in_bucket c (objects (record_owner serialize now sdk c h subject endpoint s)) h' outboard = in_bucket c (objects s) h' outboard"
proof -
  let ?key = "moderation_prefix c ''publishers'' @ h"
  obtain r t where p: "put_moderation_record sdk c ''publishers'' h
      (serialize \<lparr>bo_hash = h, bo_subject = subject, bo_endpoint_id = endpoint, bo_at = now\<rparr>) s = (r, t)" by fastforce
  have "objects t key = objects s key" if "key \<noteq> ?key" for key
    using s3_bucket.put_with_context[OF assms p[unfolded put_moderation_record_def]] that by (auto simp: put_request_def)
  moreover have "blob_key c h' \<noteq> ?key" "outboard_key c h' \<noteq> ?key" by (simp_all add: key_defs)
  ultimately show ?thesis using p by (simp add: record_owner_def in_bucket_def)
qed

lemma wait_and_ingest_staging: "pu_staging (snd (wait_and_ingest ig pause acquire h i transfer st)) = pu_staging st"
  by (auto simp: wait_and_ingest_def Let_def split: transfer.split PushTrouble.split prod.split)

lemma wait_and_ingest_True:
  assumes "wait_and_ingest ig pause acquire h i transfer st = (True, st')"
  shows "\<exists>w. ingest_stored ig pause acquire h (pu_world st) = (True, w) \<and> pu_world st' = w"
    and "\<And>n. transfer \<noteq> TransferCut (Oversize n)"
  using assms by (auto simp: wait_and_ingest_def Let_def split: transfer.splits PushTrouble.splits prod.splits)



section \<open>A fetch is checked before a byte is sent\<close>

text \<open>What is known of a hash when it is served: remembered before, or found in the bucket.\<close>

definition known_servable ::
  "('s, 'b, 'p, 'r) serve_ext \<Rightarrow> S3Client \<Rightarrow> (string \<Rightarrow> s3_object option) \<Rightarrow> S3Server \<Rightarrow> string \<Rightarrow> Servable \<Rightarrow> bool" where
  "known_servable x c objs srv h sv \<longleftrightarrow> tget (ss_servable srv) h = Some sv \<or> servable_in x c objs h sv"

lemma server_check_known:
  assumes "s3_bucket (se_sdk x) c objects ok evolves" "server_check x c now h sn = (r, sn')"
  shows "objects (sn_store sn') = objects (sn_store sn)" "ss_corrupt (sn_server sn') = ss_corrupt (sn_server sn)"
    "r = Ok sv \<Longrightarrow> h \<notin> set (ss_corrupt (sn_server sn)) \<and> known_servable x c (objects (sn_store sn)) (sn_server sn) h sv"
    "known_servable x c (objects (sn_store sn)) (sn_server sn') h' sv' \<Longrightarrow> known_servable x c (objects (sn_store sn)) (sn_server sn) h' sv'"
proof -
  note spec = server_check_spec[OF assms]
  show "objects (sn_store sn') = objects (sn_store sn)" using spec by blast
  show "ss_corrupt (sn_server sn') = ss_corrupt (sn_server sn)"
    using assms(2) by (cases rule: server_check_cases) (auto simp: remember_servable_def backfill_def Let_def)
  show "r = Ok sv \<Longrightarrow> h \<notin> set (ss_corrupt (sn_server sn)) \<and> known_servable x c (objects (sn_store sn)) (sn_server sn) h sv"
    using spec by (auto simp: known_servable_def)
  assume k: "known_servable x c (objects (sn_store sn)) (sn_server sn') h' sv'"
  show "known_servable x c (objects (sn_store sn)) (sn_server sn) h' sv'"
  proof (cases "tget (ss_servable (sn_server sn')) h' = Some sv'")
    case True
    from assms(2) show ?thesis
    proof (cases rule: server_check_cases)
      case (2 s sv)
      show ?thesis
      proof (cases "h' = h")
        case True
        with 2 \<open>tget (ss_servable (sn_server sn')) h' = Some sv'\<close> have "r = Ok sv'" by (simp add: remember_servable_def Let_def table_simps)
        with spec True show ?thesis by (auto simp: known_servable_def)
      next
        case False
        with 2 True show ?thesis by (auto simp: known_servable_def remember_servable_def Let_def table_simps split: if_splits)
      qed
    qed (use True in \<open>auto simp: known_servable_def backfill_def Let_def split: if_splits\<close>)
  qed (use k in \<open>simp add: known_servable_def\<close>)
qed

text \<open>The condition under which a fetch may be sent, on every hash it names.\<close>

definition may_send ::
  "('s, 'b, 'p, 'r) serve_ext \<Rightarrow> S3Client \<Rightarrow> (string \<Rightarrow> s3_object option) \<Rightarrow> S3Server \<Rightarrow> (string \<Rightarrow> Moderation option) \<Rightarrow> string \<Rightarrow> bool" where
  "may_send x c objs srv gate h \<longleftrightarrow> \<not> hash_blocked (gate h) h \<and> h \<notin> set (ss_corrupt srv) \<and>
     (\<exists>sv. known_servable x c objs srv h sv \<and> \<not> document_hidden (gate h) sv)"

lemma check_wanted_Ok:
  assumes "s3_bucket (se_sdk x) c objects ok evolves"
  shows "check_wanted x c now gate hs sn = (Ok svs, sn') \<Longrightarrow>
    \<forall>h\<in>set hs. may_send x c (objects (sn_store sn)) (sn_server sn) gate h"
proof (induction hs arbitrary: sn svs)
  case (Cons h hs)
  obtain r sn1 where r: "server_check x c now h sn = (r, sn1)" by fastforce
  with Cons.prems obtain sv svs1 where sv: "\<not> hash_blocked (gate h) h" "r = Ok sv" "\<not> document_hidden (gate h) sv"
    "check_wanted x c now gate hs sn1 = (Ok svs1, sn')"
    by (auto split: if_splits result.splits prod.splits Refusal.splits)
  note k = server_check_known[OF assms r]
  have "may_send x c (objects (sn_store sn)) (sn_server sn) gate h" using k(3)[OF sv(2)] sv(1,3) by (auto simp: may_send_def)
  moreover have "may_send x c (objects (sn_store sn)) (sn_server sn) gate h'"
    if "may_send x c (objects (sn_store sn1)) (sn_server sn1) gate h'" for h'
    using that k(1,2,4) by (auto simp: may_send_def)
  ultimately show ?case using Cons.IH[OF sv(4)] by simp
qed simp

lemma send_wanted_end: "fst (send_wanted x c items w) = Finish \<or> fst (send_wanted x c items w) = Reset ERR_LIMIT"
  by (induction x c items w rule: send_wanted.induct) (auto split: prod.splits result.splits)


text \<open>The requests that are refused without a lookup.\<close>

lemma stream_refuses:
  assumes "request = Err why \<or> request = Ok OtherRequest \<or> (\<exists>hs rs. request = Ok (GetManyRequest hs rs) \<and> 64 < length hs) \<or>
    (\<exists>h single. request = Ok (GetRequest h single) \<and> (\<nexists>rs. single = Some (0, rs)))"
  shows "stream x c now gate permits is_empty request w = (Some (Reset ERR_PERMISSION), w)"
  using assms by (auto simp: stream_def Let_def MAX_FETCH_HASHES_def split: option.splits nat.splits)


section \<open>A concrete node\<close>

theorem messages_answered_witness:
  "\<exists>answer push gate' st'. ingest_message sample_gate_ext sample_clock sample_get_session (PushRequestReceived 1 ''h'' True) (None, staging_new 0) =
     ((answer, push), (gate', st')) \<and> answer = Approve \<and> is_pending ''h'' st'"
proof -
  obtain answer push gate' st' where run: "ingest_message sample_gate_ext sample_clock sample_get_session
      (PushRequestReceived 1 ''h'' True) (None, staging_new 0) = ((answer, push), (gate', st'))" by (metis prod.exhaust)
  from messages_answered[OF run] have "answer = Approve" "is_pending ''h'' st'" by auto
  with run show ?thesis by blast
qed

theorem stall_watch_iff_witness:
  "\<exists>i<2. slow_window (Some 0) [Some 70000, Some 70001] i"
proof -
  have "stall_watch (Some 0) [Some 70000, Some 70001] = Some True" by (simp add: PUSH_STALL_MIN_BYTES_def)
  then have "\<exists>i<length [Some 70000, Some 70001 :: nat option]. slow_window (Some 0) [Some 70000, Some 70001] i"
    using stall_watch_iff[of "Some 0" "[Some 70000, Some 70001]"] by blast
  then show ?thesis by (simp add: numeral_2_eq_2)
qed

definition sample_ingester :: "(mem_fs, mem_bucket) Ingester" where
  "sample_ingester = \<lparr>ig_tdf = sample_tdf_ext, ig_bao = sample_bao, ig_store = mem_fs_store, ig_sdk = mem_bucket_sdk,
     ig_s3_client = sample_client, ig_validation = sample_validation, ig_scratch_dir = ''d''\<rparr>"

definition sample_pushing :: "(mem_fs, mem_bucket) pushing" where
  "sample_pushing = \<lparr>pu_staging = track ''h'' (staging_new 0), pu_connections = [], pu_world = (sample_fs, [])\<rparr>"

definition sample_push :: accepted_push where
  "sample_push = \<lparr>ap_hash = ''h'', ap_connection = 1, ap_owner = Some (''alice'', ''ep1'')\<rparr>"

lemma sample_ingest_stored: "fst (ingest_stored sample_ingester (\<lambda>_ w. w) (\<lambda>w. (True, w)) ''h'' (sample_fs, []))"
proof -
  obtain f' where "validate_from_store sample_tdf_ext sample_bao mem_fs_store sample_validation ''d'' ''h'' sample_fs = (Ok (Some sample_validated), f')"
    using sample_validate_from_store by blast
  moreover have "await_complete sample_ingester (\<lambda>_ w. w) ''h'' 10 (sample_fs, []) = (True, (sample_fs, []))"
    using await_complete.simps(2)[of sample_ingester "\<lambda>_ w. w" "''h''" 9 "(sample_fs, [])"]
    by (simp add: sample_ingester_def on_fs_def mem_fs_store_def sample_fs_def)
  moreover obtain t where "upload sample_tdf_ext mem_bucket_sdk sample_client sample_validated [] = (Ok \<lparr>ir_hash_hex = ''h'', ir_size = 3\<rparr>, t)"
    using sample_upload by (metis prod.collapse)
  ultimately show ?thesis
    by (simp add: ingest_stored_def sample_ingester_def UPLOAD_RETRIES_def)
qed



end
